(* ===== verification/Prelude.thy ===== *)
theory Prelude
  imports Main "HOL-Library.Word" "HOL-Library.AList"
begin

text \<open>
  Shared ground of the development: Go's fixed-width integers and byte strings, the error
  values of the program and of the Go standard library, \<open>errors.Is\<close>, big- and
  little-endian 32-bit decoding (\<open>encoding/binary\<close>), the bind of the result type, and
  the generic lemmas on lists, association lists and words that the component theories use.

  A Go call that returns \<open>(T, error)\<close> is a value of \<open>go_error + 'a\<close>: \<open>Inl\<close> is
  the error return, \<open>Inr\<close> the success. A Go \<open>panic\<close> is a value of its own where the
  component can panic.
\<close>

unbundle bit_operations_syntax

type_synonym byte = "8 word"
type_synonym u32 = "32 word"
type_synonym u64 = "64 word"

text \<open>Instants (\<open>time.Time\<close>) count nanoseconds from Go's zero time, so the zero time is 0.\<close>

type_synonym go_time = int

abbreviation (input) time_IsZero :: "go_time \<Rightarrow> bool" where
  "time_IsZero t \<equiv> t = 0"

section \<open>Error values\<close>

datatype go_error =
    EOF | ErrUnexpectedEOF | ErrNotExist | Canceled | DeadlineExceeded
  | ErrNoSnapshots | ErrChecksumMismatch | ErrLTXCorrupted | ErrLTXMissing
  | ErrNoCompaction | ErrCompactionTooEarly | ErrTxNotAvailable
  | ErrShutdownInterrupted | ErrDatabaseNotFound | ErrDatabaseNotOpen
  | ErrConflict | ErrStopIter | ErrReadOnly | ErrBusy | ErrNotFound
  | DBNotReady string
  | Errorf string
  | Wrapf string go_error
  | Wrap2 go_error go_error
  | PrevFrameMismatch go_error
  | LTXErr string string int u64 u64 go_error string

text \<open>The nodes of an error's tree, outermost first: what \<open>errors.Is\<close> visits through
  \<open>Unwrap\<close>.\<close>

fun error_nodes :: "go_error \<Rightarrow> go_error list" where
  "error_nodes (Wrapf m e) = Wrapf m e # error_nodes e"
| "error_nodes (Wrap2 a b) = Wrap2 a b # error_nodes a @ error_nodes b"
| "error_nodes (PrevFrameMismatch e) = PrevFrameMismatch e # error_nodes e"
| "error_nodes (LTXErr op pth lvl mn mx e hint) =
     LTXErr op pth lvl mn mx e hint # error_nodes e"
| "error_nodes e = [e]"

fun is_DBNotReady :: "go_error \<Rightarrow> bool" where
  "is_DBNotReady (DBNotReady _) = True"
| "is_DBNotReady _ = False"

definition errors_Is :: "go_error \<Rightarrow> go_error \<Rightarrow> bool" where
  "errors_Is e target =
     list_ex (\<lambda>x. x = target \<or> (is_DBNotReady x \<and> is_DBNotReady target)) (error_nodes e)"

definition os_IsNotExist :: "go_error \<Rightarrow> bool" where
  "os_IsNotExist e = (e = ErrNotExist)"

lemma errors_Is_refl [simp]: "errors_Is e e"
  by (cases e) (auto simp: errors_Is_def)

lemma errors_Is_Wrapf [simp]:
  "errors_Is (Wrapf m e) t \<longleftrightarrow> Wrapf m e = t \<or> errors_Is e t"
  by (auto simp: errors_Is_def)

section \<open>The result type\<close>

definition bindR :: "'e + 'a \<Rightarrow> ('a \<Rightarrow> 'e + 'b) \<Rightarrow> 'e + 'b" where
  "bindR r f = (case r of Inl e \<Rightarrow> Inl e | Inr x \<Rightarrow> f x)"

lemma bindR_simps [simp]:
  "bindR (Inl e) f = Inl e"
  "bindR (Inr x) f = f x"
  by (simp_all add: bindR_def)

lemma bindR_Inr_iff: "bindR r f = Inr y \<longleftrightarrow> (\<exists>x. r = Inr x \<and> f x = Inr y)"
  by (cases r) auto

lemma bindR_Inl_iff: "bindR r f = Inl e \<longleftrightarrow> r = Inl e \<or> (\<exists>x. r = Inr x \<and> f x = Inl e)"
  by (cases r) auto

text \<open>\<open>wrapR\<close> is Go's \<open>if err != nil { return fmt.Errorf("...: %w", err) }\<close>.\<close>

definition wrapR :: "string \<Rightarrow> go_error + 'a \<Rightarrow> go_error + 'a" where
  "wrapR m r = (case r of Inl e \<Rightarrow> Inl (Wrapf m e) | Inr x \<Rightarrow> Inr x)"

lemma wrapR_simps [simp]:
  "wrapR m (Inl e) = Inl (Wrapf m e)"
  "wrapR m (Inr x) = Inr x"
  by (simp_all add: wrapR_def)

lemma wrapR_Inr_iff [simp]: "wrapR m r = Inr x \<longleftrightarrow> r = Inr x"
  by (cases r) auto

text \<open>
  The outcome of running Go code that may panic or may not return: \<open>Panicked\<close> is a
  panic, \<open>OutOfFuel\<close> says that the loop took more steps than the model was given.
\<close>

datatype 'a run = Done 'a | Panicked | OutOfFuel

section \<open>Fixed-width integers in byte slices\<close>

text \<open>
  \<open>binary.BigEndian.Uint32\<close>, \<open>binary.LittleEndian.Uint32\<close> and their \<open>Put\<close>
  counterparts, on the first four bytes of a slice. Go panics on a shorter slice; every
  call of the program passes a slice of a fixed-size buffer that is long enough, and the
  catch-all equation is not reached.
\<close>

fun be32 :: "byte list \<Rightarrow> u32" where
  "be32 (a # b # c # d # _) =
     push_bit 24 (ucast a) OR push_bit 16 (ucast b) OR push_bit 8 (ucast c) OR ucast d"
| "be32 _ = 0"

fun le32 :: "byte list \<Rightarrow> u32" where
  "le32 (a # b # c # d # _) =
     push_bit 24 (ucast d) OR push_bit 16 (ucast c) OR push_bit 8 (ucast b) OR ucast a"
| "le32 _ = 0"

definition put_be32 :: "u32 \<Rightarrow> byte list" where
  "put_be32 w = [ucast (drop_bit 24 w), ucast (drop_bit 16 w), ucast (drop_bit 8 w), ucast w]"

lemma length_put_be32 [simp]: "length (put_be32 w) = 4"
  by (simp add: put_be32_def)

lemma be32_put_be32 [simp]: "be32 (put_be32 w @ r) = w"
proof -
  have "bit (be32 (put_be32 w @ r)) n \<longleftrightarrow> bit w n" if "n < 32" for n
  proof -
    have "n < 8 \<or> 8 \<le> n \<and> n < 16 \<or> 16 \<le> n \<and> n < 24 \<or> 24 \<le> n \<and> n < 32"
      using that by linarith
    then show ?thesis
      by (elim disjE conjE) (auto simp: put_be32_def bit_simps)
  qed
  then show ?thesis by (intro bit_word_eqI) simp
qed

lemma be32_put_be32' [simp]: "be32 (put_be32 w) = w"
  using be32_put_be32 [of w "[]"] by simp

lemma put_be32_be32: "put_be32 (be32 [a, b, c, d]) = [a, b, c, d]"
  unfolding put_be32_def
  by (simp, intro conjI; rule bit_word_eqI; auto simp: bit_simps dest: bit_imp_le_length)

section \<open>Lists\<close>

text \<open>\<open>sub off n xs\<close> is the Go slice \<open>xs[off : off+n]\<close> of a slice long enough.\<close>

definition sub :: "nat \<Rightarrow> nat \<Rightarrow> 'a list \<Rightarrow> 'a list" where
  "sub off n xs = take n (drop off xs)"

lemma length_sub [simp]: "length (sub off n xs) = min n (length xs - off)"
  by (simp add: sub_def)

lemma sub_append_left: "off + n \<le> length xs \<Longrightarrow> sub off n (xs @ ys) = sub off n xs"
  by (simp add: sub_def)

lemma sub_append_right: "length xs \<le> off \<Longrightarrow> sub off n (xs @ ys) = sub (off - length xs) n ys"
  by (simp add: sub_def)

lemma sub_0 [simp]: "sub a 0 xs = []"
  by (simp add: sub_def)

lemma sub_self_length: "sub a (length (sub a n xs)) xs = sub a n xs"
  by (cases "n \<le> length xs - a") (simp_all add: sub_def min_def)

lemma sub_add: "sub a (x + y) xs = sub a x xs @ sub (a + x) y xs"
  by (simp add: sub_def take_add add.commute)

lemma sub_take: "off + n \<le> k \<Longrightarrow> sub off n (take k xs) = sub off n xs"
  by (simp add: sub_def drop_take min_def)

section \<open>Writing files\<close>

text \<open>A write at an offset, which extends the file with zeros where it has to, and \<open>Truncate\<close>.\<close>

definition write_at :: "byte list \<Rightarrow> nat \<Rightarrow> byte list \<Rightarrow> byte list" where
  "write_at f off data =
     (if data = [] then f
      else take off (f @ replicate (off - length f) 0) @ data @ drop (off + length data) f)"

definition truncate_to :: "byte list \<Rightarrow> nat \<Rightarrow> byte list" where
  "truncate_to f n = take n (f @ replicate (n - length f) 0)"

lemma write_at_append:
  "data \<noteq> [] \<Longrightarrow> write_at f off data = take off (f @ replicate (off - length f) 0) @ data @ drop (off + length data) f"
  by (simp add: write_at_def)

lemma length_write_at: "length (write_at f off data) = (if data = [] then length f else max (length f) (off + length data))"
  by (auto simp: write_at_def)

lemma le_length_write_at: "n \<le> length f \<Longrightarrow> n \<le> length (write_at f off data)"
  by (simp add: length_write_at le_max_iff_disj)

lemma sub_write_at_before:
  "a + n \<le> off \<Longrightarrow> a + n \<le> length f \<Longrightarrow> sub a n (write_at f off data) = sub a n f"
  by (auto simp: write_at_def sub_append_left sub_take)

lemma sub_write_at_after:
  assumes "off + length data \<le> a" "a + n \<le> length f"
  shows "sub a n (write_at f off data) = sub a n f"
proof (cases "data = []")
  case False
  have l: "length (take off (f @ replicate (off - length f) 0) @ data) = off + length data" by simp
  have "sub a n (write_at f off data) = sub (a - (off + length data)) n (drop (off + length data) f)"
    unfolding write_at_append [OF False] append_assoc [symmetric]
    using assms(1) l by (subst sub_append_right) (simp_all del: length_append append_assoc)
  also have "\<dots> = sub a n f" using assms(1) by (simp add: sub_def)
  finally show ?thesis .
qed (simp add: write_at_def)

lemma sub_write_at_here:
  assumes "length data \<le> n" "off + n \<le> length f \<or> length data = n"
  shows "sub off n (write_at f off data) = data @ drop (length data) (sub off n f)"
proof (cases "data = []")
  case False
  have l: "length (take off (f @ replicate (off - length f) 0)) = off" by simp
  have "sub off n (write_at f off data) = sub 0 n (data @ drop (off + length data) f)"
    unfolding write_at_append [OF False] using l by (subst sub_append_right) simp_all
  also have "\<dots> = data @ take (n - length data) (drop (off + length data) f)"
    using assms(1) by (simp add: sub_def)
  also have "take (n - length data) (drop (off + length data) f) = drop (length data) (sub off n f)"
    by (simp add: sub_def drop_take add.commute)
  finally show ?thesis .
qed (simp add: write_at_def)

section \<open>Transaction numbers\<close>

lemma succ_le_imp_less:
  assumes "x + 1 \<le> y" "1 \<le> x + 1"
  shows "x < (y :: u64)"
proof -
  have "1 + x \<noteq> 0" using assms(2) by (auto simp: add.commute)
  from unatSuc [OF this] assms(1) show ?thesis
    by (simp add: word_less_nat_alt word_le_nat_alt add.commute)
qed

lemma less_succ: "(n :: u64) + 1 \<noteq> 0 \<Longrightarrow> n < n + 1"
  by (rule succ_le_imp_less) (simp_all add: word_le_nat_alt unat_gt_0 Suc_le_eq)

end
