(* ===== verification/Wal_Reader.thy ===== *)
theory Wal_Reader
  imports Prelude
begin

text \<open>
  The SQLite WAL reader, \<open>wal_reader.go\<close>, and the running checksum it shares with
  \<open>litestream.go\<close>: header and frame parsing with salt and checksum verification, the
  two constructors, the page map of the committed transactions and the set of frame salts.

  The file behind the reader is an \<open>io.ReaderAt\<close>: a function from a buffer length and an
  offset to the bytes read and the error. \<open>file_ReadAt\<close> is the one the program passes, an
  \<open>os.File\<close> with the given content. The record \<open>wal_reader\<close> holds the fields of the
  Go struct. The second half states the format as an encoder of its own and proves that the
  reader inverts it, stops at stale or torn frames, and that the page map holds the last
  committed version of every page.
\<close>

section \<open>Model\<close>

subsection \<open>Checksum\<close>

datatype byte_order = LittleEndian | BigEndian

fun bo_Uint32 :: "byte_order \<Rightarrow> byte list \<Rightarrow> u32" where
  "bo_Uint32 LittleEndian b = le32 b"
| "bo_Uint32 BigEndian b = be32 b"

text \<open>The loop over 8-byte units; the additions wrap at 32 bits.\<close>

fun wal_sum :: "byte_order \<Rightarrow> u32 \<Rightarrow> u32 \<Rightarrow> byte list \<Rightarrow> u32 \<times> u32" where
  "wal_sum bo s0 s1 (a # b # c # d # e # f # g # h # rest) =
     (let s0' = s0 + (bo_Uint32 bo [a, b, c, d] + s1);
          s1' = s1 + (bo_Uint32 bo [e, f, g, h] + s0')
      in wal_sum bo s0' s1' rest)"
| "wal_sum bo s0 s1 _ = (s0, s1)"

text \<open>\<open>assert\<close> panics on a misaligned slice.\<close>

definition WALChecksum :: "byte_order \<Rightarrow> u32 \<Rightarrow> u32 \<Rightarrow> byte list \<Rightarrow> (u32 \<times> u32) run" where
  "WALChecksum bo s0 s1 b =
     (if length b mod 8 = 0 then Done (wal_sum bo s0 s1 b) else Panicked)"

subsection \<open>The reader\<close>

definition WALHeaderSize :: int where "WALHeaderSize = 32"
definition WALFrameHeaderSize :: int where "WALFrameHeaderSize = 24"

type_synonym reader_at = "nat \<Rightarrow> int \<Rightarrow> byte list \<times> go_error option"

definition file_ReadAt :: "byte list \<Rightarrow> reader_at" where
  "file_ReadAt f n off =
     (if off < 0 then ([], Some (Errorf ''negative offset''))
      else let got = sub (nat off) n f
           in (got, if length got < n then Some EOF else None))"

record wal_reader =
  frameN :: int
  bo :: byte_order
  pageSize :: u32
  seq :: u32
  salt1 :: u32
  salt2 :: u32
  chksum1 :: u32
  chksum2 :: u32

definition zero_reader :: wal_reader where
  "zero_reader = \<lparr>frameN = 0, bo = LittleEndian, pageSize = 0, seq = 0,
     salt1 = 0, salt2 = 0, chksum1 = 0, chksum2 = 0\<rparr>"

definition magic_order :: "u32 \<Rightarrow> byte_order option" where
  "magic_order magic =
     (if magic = 0x377f0682 then Some LittleEndian
      else if magic = 0x377f0683 then Some BigEndian
      else None)"

definition readHeader :: "reader_at \<Rightarrow> wal_reader \<Rightarrow> go_error + wal_reader" where
  "readHeader rd r =
     (case rd 32 0 of (hdr, err) \<Rightarrow>
        if length hdr < 32 then Inl EOF
        else (case err of Some e \<Rightarrow> Inl e | None \<Rightarrow>
        (case magic_order (be32 hdr) of
           None \<Rightarrow> Inl (Errorf ''invalid wal header magic'')
         | Some order \<Rightarrow>
             (let c1 = be32 (drop 24 hdr); c2 = be32 (drop 28 hdr)
              in if WALChecksum order 0 0 (take 24 hdr) \<noteq> Done (c1, c2) then Inl EOF
                 else if be32 (drop 4 hdr) \<noteq> 3007000 then Inl (Errorf ''unsupported wal version'')
                 else Inr (r\<lparr>bo := order,
                             pageSize := be32 (drop 8 hdr),
                             seq := be32 (drop 12 hdr),
                             salt1 := be32 (drop 16 hdr),
                             salt2 := be32 (drop 20 hdr),
                             chksum1 := c1, chksum2 := c2\<rparr>)))))"

text \<open>\<open>frameSize\<close> is a \<open>uint32\<close> sum, so it wraps.\<close>

definition frameSize :: "wal_reader \<Rightarrow> u32" where
  "frameSize r = pageSize r + 24"

type_synonym frame = "u32 \<times> u32 \<times> byte list"

text \<open>
  \<open>readFrame\<close> with a buffer of \<open>n\<close> bytes. On a checksum mismatch the running checksum
  has already been overwritten, as in the code.
\<close>

definition readFrame ::
  "reader_at \<Rightarrow> wal_reader \<Rightarrow> nat \<Rightarrow> bool \<Rightarrow> ((go_error + frame) \<times> wal_reader) run" where
  "readFrame rd r n verifyChecksum =
     (if int n \<noteq> uint (pageSize r)
      then Done (Inl (Errorf ''buffer size must match page size''), r)
      else
      let offset = WALHeaderSize + frameN r * uint (frameSize r) in
      case rd 24 offset of (hdr, herr) \<Rightarrow>
      if length hdr \<noteq> 24 then Done (Inl EOF, r)
      else (case herr of Some e \<Rightarrow> Done (Inl e, r) | None \<Rightarrow>
      (case rd n (offset + WALFrameHeaderSize) of (data, derr) \<Rightarrow>
       if length data \<noteq> n then Done (Inl EOF, r)
       else (case derr of Some e \<Rightarrow> Done (Inl e, r) | None \<Rightarrow>
       (if salt1 r \<noteq> be32 (drop 8 hdr) \<or> salt2 r \<noteq> be32 (drop 12 hdr) then Done (Inl EOF, r)
        else
        let c1 = be32 (drop 16 hdr); c2 = be32 (drop 20 hdr);
            fr = (be32 hdr, be32 (drop 4 hdr), data)
        in if verifyChecksum
           then (case WALChecksum (bo r) (chksum1 r) (chksum2 r) (take 8 hdr) of
                   Done (a1, a2) \<Rightarrow>
                     (case WALChecksum (bo r) a1 a2 data of
                        Done (b1, b2) \<Rightarrow>
                          (let r' = r\<lparr>chksum1 := b1, chksum2 := b2\<rparr>
                           in if b1 \<noteq> c1 \<or> b2 \<noteq> c2 then Done (Inl EOF, r')
                              else Done (Inr fr, r'\<lparr>frameN := frameN r + 1\<rparr>))
                      | Panicked \<Rightarrow> Panicked | OutOfFuel \<Rightarrow> OutOfFuel)
                 | Panicked \<Rightarrow> Panicked | OutOfFuel \<Rightarrow> OutOfFuel)
           else Done (Inr fr, r\<lparr>chksum1 := c1, chksum2 := c2, frameN := frameN r + 1\<rparr>))))))"

definition ReadFrame ::
  "reader_at \<Rightarrow> wal_reader \<Rightarrow> nat \<Rightarrow> ((go_error + frame) \<times> wal_reader) run" where
  "ReadFrame rd r n = readFrame rd r n True"

definition reader_Offset :: "wal_reader \<Rightarrow> int" where
  "reader_Offset r =
     (if frameN r = 0 then 0
      else WALHeaderSize + (frameN r - 1) * (WALFrameHeaderSize + uint (pageSize r)))"

definition NewWALReader :: "reader_at \<Rightarrow> go_error + wal_reader" where
  "NewWALReader rd = readHeader rd zero_reader"

text \<open>
  Go's \<open>%\<close> panics on a zero divisor, which \<open>frameSize\<close> is when the sum of a page size
  near \<open>2 ^ 32\<close> and 24 wraps to 0. The offset is positive there, so \<open>%\<close> and \<open>/\<close> are
  \<open>mod\<close> and \<open>div\<close>.
\<close>

definition NewWALReaderWithOffset ::
  "reader_at \<Rightarrow> int \<Rightarrow> u32 \<Rightarrow> u32 \<Rightarrow> (go_error + wal_reader) run" where
  "NewWALReaderWithOffset rd offset s1 s2 =
     (if offset \<le> WALHeaderSize
      then Done (Inl (Errorf ''offset must be greater than the wal header size''))
      else case readHeader rd zero_reader of
        Inl e \<Rightarrow> Done (Inl (Wrapf ''read header'' e))
      | Inr r0 \<Rightarrow>
          (let r = r0\<lparr>salt1 := s1, salt2 := s2\<rparr>; fs = uint (frameSize r) in
           if fs = 0 then Panicked
           else if (offset - WALHeaderSize) mod fs \<noteq> 0
           then Done (Inl (Errorf ''unaligned wal offset''))
           else case readFrame rd (r\<lparr>frameN := (offset - WALHeaderSize) div fs - 1\<rparr>)
                       (unat (pageSize r)) False of
             Done (Inl e, _) \<Rightarrow> Done (Inl (PrevFrameMismatch e))
           | Done (Inr _, r') \<Rightarrow> Done (Inr r')
           | Panicked \<Rightarrow> Panicked | OutOfFuel \<Rightarrow> OutOfFuel))"

subsection \<open>Page map\<close>

type_synonym page_map = "(u32 \<times> int) list"

text \<open>\<open>for pgno, offset := range txMap \{ m[pgno] = offset \}\<close>; the keys are distinct, so
  Go's iteration order does not matter.\<close>

definition transfer_tx :: "page_map \<Rightarrow> page_map \<Rightarrow> page_map" where
  "transfer_tx tx m = fold (\<lambda>(p, off). AList.update p off) tx m"

text \<open>The read loop; each iteration spends one unit of fuel.\<close>

fun page_map_loop ::
  "nat \<Rightarrow> reader_at \<Rightarrow> wal_reader \<Rightarrow> page_map \<Rightarrow> page_map \<Rightarrow> u32 \<Rightarrow>
     ((go_error + page_map \<times> u32) \<times> wal_reader) run" where
  "page_map_loop 0 rd r m tx commit = OutOfFuel"
| "page_map_loop (Suc fuel) rd r m tx commit =
     (case ReadFrame rd r (unat (pageSize r)) of
        Panicked \<Rightarrow> Panicked
      | OutOfFuel \<Rightarrow> OutOfFuel
      | Done (Inl e, r') \<Rightarrow>
          if errors_Is e EOF then Done (Inr (m, commit), r') else Done (Inl e, r')
      | Done (Inr (pgno, fcommit, _), r') \<Rightarrow>
          (let tx' = AList.update pgno (reader_Offset r') tx
           in if fcommit \<noteq> 0
              then page_map_loop fuel rd r' (transfer_tx tx' m) tx' fcommit
              else page_map_loop fuel rd r' m tx' commit))"

definition max_offset :: "page_map \<Rightarrow> int" where
  "max_offset m = fold (\<lambda>(p, off) end. if end = 0 \<or> off > end then off else end) m 0"

text \<open>The rest of \<open>PageMap\<close>: drop the pages beyond the final size, then find the end of
  the last frame.\<close>

definition finish_page_map :: "u32 \<Rightarrow> page_map \<Rightarrow> u32 \<Rightarrow> page_map \<times> int \<times> u32" where
  "finish_page_map pgsz m commit =
     (let m' = filter (\<lambda>(p, off). \<not> p > commit) m
      in if m' = [] then ([], 0, 0)
         else (m', max_offset m' + (WALFrameHeaderSize + uint pgsz), commit))"

definition PageMap ::
  "nat \<Rightarrow> reader_at \<Rightarrow> wal_reader \<Rightarrow> ((go_error + page_map \<times> int \<times> u32) \<times> wal_reader) run" where
  "PageMap fuel rd r =
     (case page_map_loop fuel rd r [] [] 0 of
        Done (Inl e, r') \<Rightarrow> Done (Inl e, r')
      | Done (Inr (m, commit), r') \<Rightarrow> Done (Inr (finish_page_map (pageSize r) m commit), r')
      | Panicked \<Rightarrow> Panicked | OutOfFuel \<Rightarrow> OutOfFuel)"

subsection \<open>Frame salts\<close>

fun frame_salts_loop ::
  "nat \<Rightarrow> reader_at \<Rightarrow> u32 \<Rightarrow> u32 \<times> u32 \<Rightarrow> int \<Rightarrow> (u32 \<times> u32) set \<Rightarrow>
     (go_error + (u32 \<times> u32) set) run" where
  "frame_salts_loop 0 rd step until offset m = OutOfFuel"
| "frame_salts_loop (Suc fuel) rd step until offset m =
     (case rd 24 offset of (hdr, err) \<Rightarrow>
        if length hdr \<noteq> 24 then Done (Inr m)
        else (case err of Some e \<Rightarrow> Done (Inl e) | None \<Rightarrow>
        (let s = (be32 (drop 8 hdr), be32 (drop 12 hdr))
         in if s = until then Done (Inr (insert s m))
            else frame_salts_loop fuel rd step until (offset + uint step) (insert s m))))"

definition FrameSaltsUntil ::
  "nat \<Rightarrow> reader_at \<Rightarrow> wal_reader \<Rightarrow> u32 \<times> u32 \<Rightarrow> (go_error + (u32 \<times> u32) set) run" where
  "FrameSaltsUntil fuel rd r until =
     frame_salts_loop fuel rd (24 + pageSize r) until WALHeaderSize {}"

section \<open>Checksum lemmas\<close>

lemma length_mod_8_append:
  "length a mod 8 = 0 \<Longrightarrow> length (a @ b) mod 8 = length b mod 8"
  by (metis add_cancel_right_left length_append mod_add_left_eq)

lemma wal_sum_append:
  assumes "length a mod 8 = 0"
  shows "wal_sum od s0 s1 (a @ b) = (case wal_sum od s0 s1 a of (x, y) \<Rightarrow> wal_sum od x y b)"
  using assms
proof (induction od s0 s1 a rule: wal_sum.induct)
  case (1 od s0 s1 a b c d e f g h rest)
  then show ?case by (simp add: Let_def)
qed simp_all

text \<open>The WAL checksum is a running checksum: over two slices whose lengths are multiples of
  8, checksumming the concatenation is checksumming the second slice from the first one's
  result, as the reader does with frame header and page data.\<close>

lemma WALChecksum_append:
  assumes "length a mod 8 = 0"
  shows "WALChecksum od s0 s1 (a @ b) =
    (case WALChecksum od s0 s1 a of Done (x, y) \<Rightarrow> WALChecksum od x y b
     | Panicked \<Rightarrow> Panicked | OutOfFuel \<Rightarrow> OutOfFuel)"
  using assms wal_sum_append [OF assms, of od s0 s1 b] length_mod_8_append [OF assms, of b]
  by (simp add: WALChecksum_def split: prod.splits)


section \<open>The WAL format as an encoder\<close>

definition order_magic :: "byte_order \<Rightarrow> u32" where
  "order_magic od = (case od of LittleEndian \<Rightarrow> 0x377f0682 | BigEndian \<Rightarrow> 0x377f0683)"

definition header_fields :: "byte_order \<Rightarrow> u32 \<Rightarrow> u32 \<Rightarrow> u32 \<Rightarrow> u32 \<Rightarrow> byte list" where
  "header_fields od pz sq s1 s2 =
     put_be32 (order_magic od) @ put_be32 3007000 @ put_be32 pz @ put_be32 sq @
     put_be32 s1 @ put_be32 s2"

definition encode_header :: "byte_order \<Rightarrow> u32 \<Rightarrow> u32 \<Rightarrow> u32 \<Rightarrow> u32 \<Rightarrow> byte list" where
  "encode_header od pz sq s1 s2 =
     (case wal_sum od 0 0 (header_fields od pz sq s1 s2) of
        (c1, c2) \<Rightarrow> header_fields od pz sq s1 s2 @ put_be32 c1 @ put_be32 c2)"

definition frame_sum :: "byte_order \<Rightarrow> u32 \<times> u32 \<Rightarrow> frame \<Rightarrow> u32 \<times> u32" where
  "frame_sum od c f =
     (case f of (pgno, commit, data) \<Rightarrow>
        wal_sum od (fst c) (snd c) (put_be32 pgno @ put_be32 commit @ data))"

definition encode_frame ::
  "byte_order \<Rightarrow> u32 \<Rightarrow> u32 \<Rightarrow> u32 \<times> u32 \<Rightarrow> frame \<Rightarrow> byte list" where
  "encode_frame od s1 s2 c f =
     (case f of (pgno, commit, data) \<Rightarrow>
        (case frame_sum od c f of (b1, b2) \<Rightarrow>
           put_be32 pgno @ put_be32 commit @ put_be32 s1 @ put_be32 s2 @
           put_be32 b1 @ put_be32 b2 @ data))"

fun encode_frames ::
  "byte_order \<Rightarrow> u32 \<Rightarrow> u32 \<Rightarrow> u32 \<times> u32 \<Rightarrow> frame list \<Rightarrow> byte list" where
  "encode_frames od s1 s2 c [] = []"
| "encode_frames od s1 s2 c (f # fs) =
     encode_frame od s1 s2 c f @ encode_frames od s1 s2 (frame_sum od c f) fs"

definition header_sum :: "byte_order \<Rightarrow> u32 \<Rightarrow> u32 \<Rightarrow> u32 \<Rightarrow> u32 \<Rightarrow> u32 \<times> u32" where
  "header_sum od pz sq s1 s2 = wal_sum od 0 0 (header_fields od pz sq s1 s2)"

definition encode_wal ::
  "byte_order \<Rightarrow> u32 \<Rightarrow> u32 \<Rightarrow> u32 \<Rightarrow> u32 \<Rightarrow> frame list \<Rightarrow> byte list" where
  "encode_wal od pz sq s1 s2 fs =
     encode_header od pz sq s1 s2 @
     encode_frames od s1 s2 (header_sum od pz sq s1 s2) fs"

text \<open>Page sizes a reader can work with: a multiple of 8 whose frame size does not wrap.\<close>

definition good_page_size :: "u32 \<Rightarrow> bool" where
  "good_page_size pz \<longleftrightarrow> unat pz mod 8 = 0 \<and> unat pz + 24 < 2 ^ 32"

definition frames_ok :: "u32 \<Rightarrow> frame list \<Rightarrow> bool" where
  "frames_ok pz fs \<longleftrightarrow> list_all (\<lambda>(_, _, data). length data = unat pz) fs"

text \<open>What may follow the valid frames: too few bytes for a frame, a frame of another salt
  (left over from the WAL's previous cycle), or one whose checksum does not continue the chain.\<close>

definition frame_rejected ::
  "byte_order \<Rightarrow> u32 \<Rightarrow> u32 \<Rightarrow> u32 \<times> u32 \<Rightarrow> u32 \<Rightarrow> byte list \<Rightarrow> bool" where
  "frame_rejected od s1 s2 c pz bs \<longleftrightarrow>
     length bs < 24 + unat pz \<or>
     be32 (drop 8 bs) \<noteq> s1 \<or> be32 (drop 12 bs) \<noteq> s2 \<or>
     wal_sum od (fst c) (snd c) (take 8 bs @ sub 24 (unat pz) bs) \<noteq>
       (be32 (drop 16 bs), be32 (drop 20 bs))"

lemma length_header_fields [simp]: "length (header_fields od pz sq s1 s2) = 24"
  by (simp add: header_fields_def)

lemma length_encode_header [simp]: "length (encode_header od pz sq s1 s2) = 32"
  by (simp add: encode_header_def split: prod.splits)

lemma length_encode_frame:
  "length (encode_frame od s1 s2 c (p, k, data)) = 24 + length data"
  by (simp add: encode_frame_def split: prod.splits)

lemma length_encode_frames:
  "frames_ok pz fs \<Longrightarrow>
   length (encode_frames od s1 s2 c fs) = length fs * (24 + unat pz)"
  by (induction fs arbitrary: c) (auto simp: frames_ok_def length_encode_frame)

lemma magic_order_order_magic [simp]: "magic_order (order_magic od) = Some od"
  by (cases od) (simp_all add: order_magic_def magic_order_def)

lemma unat_frameSize:
  "good_page_size (pageSize r) \<Longrightarrow> unat (frameSize r) = unat (pageSize r) + 24"
  by (simp add: frameSize_def unat_word_ariths good_page_size_def)

lemma uint_frameSize:
  assumes "good_page_size (pageSize r)"
  shows "uint (frameSize r) = uint (pageSize r) + 24"
proof -
  have "int (unat (frameSize r)) = int (unat (pageSize r)) + 24"
    by (simp only: unat_frameSize [OF assms] of_nat_add of_nat_numeral)
  then show ?thesis by simp
qed

lemma file_ReadAt_simps:
  "0 \<le> off \<Longrightarrow> nat off + n \<le> length f \<Longrightarrow> file_ReadAt f n off = (sub (nat off) n f, None)"
  "0 \<le> off \<Longrightarrow> length f < nat off + n \<Longrightarrow>
     file_ReadAt f n off = (sub (nat off) n f, if n = 0 then None else Some EOF)"
  by (auto simp: file_ReadAt_def Let_def)

text \<open>Reading the header back.\<close>

lemma readHeader_encode:
  "readHeader (file_ReadAt (encode_header od pz sq s1 s2 @ rest)) r =
     Inr (r\<lparr>bo := od, pageSize := pz, seq := sq, salt1 := s1, salt2 := s2,
            chksum1 := fst (header_sum od pz sq s1 s2),
            chksum2 := snd (header_sum od pz sq s1 s2)\<rparr>)"
proof -
  obtain c1 c2 where c: "wal_sum od 0 0 (header_fields od pz sq s1 s2) = (c1, c2)"
    by force
  let ?h = "put_be32 (order_magic od) @ put_be32 3007000 @ put_be32 pz @ put_be32 sq @
     put_be32 s1 @ put_be32 s2 @ put_be32 c1 @ put_be32 c2"
  have e: "encode_header od pz sq s1 s2 = ?h"
    by (simp add: encode_header_def c) (simp add: header_fields_def)
  have s: "file_ReadAt (encode_header od pz sq s1 s2 @ rest) 32 0 = (?h, None)"
    by (simp add: file_ReadAt_def sub_def e)
  have t: "take 24 ?h = header_fields od pz sq s1 s2"
    by (simp add: header_fields_def)
  have w: "WALChecksum od 0 0 (take 24 ?h) = Done (c1, c2)"
    unfolding t by (simp add: WALChecksum_def c)
  show ?thesis
    unfolding readHeader_def s
    using w by (simp add: header_sum_def c Let_def)
qed


lemma be32_take [simp]: "4 \<le> n \<Longrightarrow> be32 (take n xs) = be32 xs"
proof -
  assume "4 \<le> n"
  then obtain m where m: "n = Suc (Suc (Suc (Suc m)))"
    by (metis Suc_le_D add_2_eq_Suc' numeral_Bit0 numeral_One plus_1_eq_Suc one_add_one Suc_le_mono numeral_eq_Suc pred_numeral_simps)
  show ?thesis
    by (cases xs rule: be32.cases) (simp_all add: m)
qed

lemma take_of_append_sub: "take a xs @ sub a b xs = take (a + b) xs"
  by (simp add: sub_def take_add)

text \<open>What reading one frame does, on every branch: \<open>bs\<close> is the file from the frame on.\<close>

lemma readFrame_at:
  assumes g: "good_page_size (pageSize r)"
    and k: "frameN r = int k"
    and p: "length pre = 32 + k * (24 + unat (pageSize r))"
  shows "readFrame (file_ReadAt (pre @ bs)) r (unat (pageSize r)) True =
    (if length bs < 24 + unat (pageSize r) \<or> salt1 r \<noteq> be32 (drop 8 bs) \<or> salt2 r \<noteq> be32 (drop 12 bs)
     then Done (Inl EOF, r)
     else case wal_sum (bo r) (chksum1 r) (chksum2 r)
                 (take 8 bs @ sub 24 (unat (pageSize r)) bs) of (b1, b2) \<Rightarrow>
       if b1 \<noteq> be32 (drop 16 bs) \<or> b2 \<noteq> be32 (drop 20 bs)
       then Done (Inl EOF, r\<lparr>chksum1 := b1, chksum2 := b2\<rparr>)
       else Done (Inr (be32 bs, be32 (drop 4 bs), sub 24 (unat (pageSize r)) bs),
                  r\<lparr>chksum1 := b1, chksum2 := b2, frameN := frameN r + 1\<rparr>))"
proof -
  let ?ps = "unat (pageSize r)"
  let ?off = "WALHeaderSize + frameN r * uint (frameSize r)"
  have ups: "uint (pageSize r) = int ?ps" by simp
  have off: "?off = int (length pre)"
    unfolding k p uint_frameSize [OF g] ups by (simp add: WALHeaderSize_def algebra_simps)
  have h: "file_ReadAt (pre @ bs) 24 ?off =
      (take 24 bs, if length bs < 24 then Some EOF else None)"
    unfolding off by (simp add: file_ReadAt_def sub_def Let_def)
  have d: "file_ReadAt (pre @ bs) ?ps (?off + WALFrameHeaderSize) =
      (sub 24 ?ps bs, if length bs - 24 < ?ps then Some EOF else None)"
    unfolding off by (simp add: file_ReadAt_def sub_def Let_def WALFrameHeaderSize_def
        nat_add_distrib min_def)
  obtain a1 a2 where a: "wal_sum (bo r) (chksum1 r) (chksum2 r) (take 8 bs) = (a1, a2)"
    by force
  obtain b1 b2 where b: "wal_sum (bo r) a1 a2 (sub 24 ?ps bs) = (b1, b2)"
    by force
  show ?thesis
  proof (cases "length bs < 24 + ?ps")
    case True
    then show ?thesis
      unfolding readFrame_def h d Let_def by (auto simp: min_def)
  next
    case False
    have m: "?ps mod 8 = 0" using g by (simp add: good_page_size_def)
    have w1: "WALChecksum (bo r) (chksum1 r) (chksum2 r) (take 8 bs) = Done (a1, a2)"
      using False by (simp add: WALChecksum_def a)
    have w2: "WALChecksum (bo r) a1 a2 (sub 24 ?ps bs) = Done (b1, b2)"
      using False m by (simp add: WALChecksum_def b min_def)
    have w: "wal_sum (bo r) (chksum1 r) (chksum2 r) (take 8 bs @ sub 24 ?ps bs) = (b1, b2)"
      using False by (subst wal_sum_append) (simp_all add: a b)
    have l: "length (take 24 bs) = 24" "length (sub 24 ?ps bs) = ?ps"
      "\<not> length bs < 24" "\<not> length bs - 24 < ?ps"
      using False by auto
    have b: "be32 (drop i (take 24 bs)) = be32 (drop i bs)" if "i \<le> 20" for i
      using that by (simp add: drop_take)
    show ?thesis
      unfolding readFrame_def h d Let_def
      using False by (simp add: l b w w1 w2 del: length_take length_sub)
  qed
qed


text \<open>The state of a reader that has accepted \<open>k\<close> frames and is about to read the next.\<close>

definition at_frame ::
  "byte_order \<Rightarrow> u32 \<Rightarrow> u32 \<Rightarrow> u32 \<Rightarrow> u32 \<times> u32 \<Rightarrow> nat \<Rightarrow> wal_reader \<Rightarrow> bool" where
  "at_frame od pz s1 s2 c k r \<longleftrightarrow>
     bo r = od \<and> pageSize r = pz \<and> salt1 r = s1 \<and> salt2 r = s2 \<and>
     (chksum1 r, chksum2 r) = c \<and> frameN r = int k"

definition frame_off :: "u32 \<Rightarrow> nat \<Rightarrow> nat" where
  "frame_off pz k = 32 + k * (24 + unat pz)"

lemma encode_frame_fields:
  fixes od :: byte_order and s1 s2 pgno commit :: u32 and c and rest :: "byte list"
  assumes "length data = unat pz"
  defines "bs \<equiv> encode_frame od s1 s2 c (pgno, commit, data) @ rest"
  shows "be32 bs = pgno" "be32 (drop 4 bs) = commit"
    "be32 (drop 8 bs) = s1" "be32 (drop 12 bs) = s2"
    "(be32 (drop 16 bs), be32 (drop 20 bs)) = frame_sum od c (pgno, commit, data)"
    "take 8 bs = put_be32 pgno @ put_be32 commit" "sub 24 (unat pz) bs = data"
    "\<not> length bs < 24 + unat pz"
  using assms(1) unfolding bs_def
  by (simp_all add: encode_frame_def sub_def split: prod.splits)

lemma ReadFrame_encoded:
  assumes "good_page_size pz" "at_frame od pz s1 s2 c k r" "length pre = frame_off pz k"
    and "length data = unat pz"
  obtains r' where
    "ReadFrame (file_ReadAt (pre @ encode_frame od s1 s2 c (pgno, commit, data) @ rest)) r (unat pz) =
       Done (Inr (pgno, commit, data), r')"
    "at_frame od pz s1 s2 (frame_sum od c (pgno, commit, data)) (Suc k) r'"
proof -
  let ?bs = "encode_frame od s1 s2 c (pgno, commit, data) @ rest"
  obtain b1 b2 where b: "frame_sum od c (pgno, commit, data) = (b1, b2)" by force
  note f = encode_frame_fields [OF assms(4), of od s1 s2 c pgno commit rest]
  have p: "length pre = 32 + k * (24 + unat (pageSize r))"
    using assms(2,3) by (simp add: at_frame_def frame_off_def)
  have r: "bo r = od" "pageSize r = pz" "salt1 r = s1" "salt2 r = s2"
    "chksum1 r = fst c" "chksum2 r = snd c" "frameN r = int k"
    using assms(2) by (auto simp: at_frame_def)
  have w: "wal_sum od (fst c) (snd c) (take 8 ?bs @ sub 24 (unat pz) ?bs) = (b1, b2)"
    using b f(6,7) by (simp add: frame_sum_def)
  have d: "be32 (drop 16 ?bs) = b1" "be32 (drop 20 ?bs) = b2"
    using f(5) b by simp_all
  have g: "good_page_size (pageSize r)" using assms(1) r by simp
  have "ReadFrame (file_ReadAt (pre @ ?bs)) r (unat pz) =
      Done (Inr (pgno, commit, data), r\<lparr>chksum1 := b1, chksum2 := b2, frameN := frameN r + 1\<rparr>)"
    using readFrame_at [OF g r(7) p, of ?bs] f(1-4,7,8) d w unfolding ReadFrame_def r
    by (simp only: f(1-4,7,8) w d prod.case simp_thms if_False)
  then show thesis
    by (rule that) (simp add: at_frame_def r b)
qed

lemma ReadFrame_rejected:
  assumes "good_page_size pz" "at_frame od pz s1 s2 c k r" "length pre = frame_off pz k"
    and "frame_rejected od s1 s2 c pz bs"
  obtains r' where "ReadFrame (file_ReadAt (pre @ bs)) r (unat pz) = Done (Inl EOF, r')"
proof -
  have p: "length pre = 32 + k * (24 + unat (pageSize r))"
    using assms(2,3) by (simp add: at_frame_def frame_off_def)
  have r: "bo r = od" "pageSize r = pz" "salt1 r = s1" "salt2 r = s2"
    "chksum1 r = fst c" "chksum2 r = snd c" "frameN r = int k"
    using assms(2) by (auto simp: at_frame_def)
  have g: "good_page_size (pageSize r)" using assms(1) r by simp
  show thesis
    using readFrame_at [OF g r(7) p, of bs] assms(4) that unfolding ReadFrame_def r frame_rejected_def
    by (auto split: prod.splits if_splits)
qed


section \<open>The page map's specification\<close>

text \<open>The frames up to the last commit record, the database size it carries, and for each page
  the offset of its last version among frames numbered from \<open>k\<close>.\<close>

fun committed :: "frame list \<Rightarrow> frame list" where
  "committed [] = []"
| "committed (f # fs) =
     (if committed fs \<noteq> [] \<or> fst (snd f) \<noteq> 0 then f # committed fs else [])"

definition last_commit :: "u32 \<Rightarrow> frame list \<Rightarrow> u32" where
  "last_commit dflt fs = (if committed fs = [] then dflt else fst (snd (last (committed fs))))"

fun latest :: "u32 \<Rightarrow> nat \<Rightarrow> frame list \<Rightarrow> u32 \<Rightarrow> int option" where
  "latest pz k [] p = None"
| "latest pz k (f # fs) p =
     (case latest pz (Suc k) fs p of
        Some off \<Rightarrow> Some off
      | None \<Rightarrow> if fst f = p then Some (int (frame_off pz k)) else None)"

text \<open>The effect of the read loop on its two maps, without the file.\<close>

fun map_frames ::
  "u32 \<Rightarrow> nat \<Rightarrow> page_map \<Rightarrow> page_map \<Rightarrow> u32 \<Rightarrow> frame list \<Rightarrow> page_map \<times> u32" where
  "map_frames pz k m tx cm [] = (m, cm)"
| "map_frames pz k m tx cm (f # fs) =
     (let tx' = AList.update (fst f) (int (frame_off pz k)) tx
      in if fst (snd f) \<noteq> 0
         then map_frames pz (Suc k) (transfer_tx tx' m) tx' (fst (snd f)) fs
         else map_frames pz (Suc k) m tx' cm fs)"

lemma reader_Offset_at_frame:
  "at_frame od pz s1 s2 c (Suc k) r \<Longrightarrow> reader_Offset r = int (frame_off pz k)"
  by (simp add: at_frame_def reader_Offset_def frame_off_def WALHeaderSize_def
      WALFrameHeaderSize_def)

lemma at_frame_pageSize: "at_frame od pz s1 s2 c k r \<Longrightarrow> pageSize r = pz"
  by (simp add: at_frame_def)

fun chain :: "byte_order \<Rightarrow> u32 \<times> u32 \<Rightarrow> frame list \<Rightarrow> u32 \<times> u32" where
  "chain od c [] = c"
| "chain od c (f # fs) = chain od (frame_sum od c f) fs"

lemma page_map_loop_frames:
  assumes "good_page_size pz" "frames_ok pz fs" "at_frame od pz s1 s2 c k r"
    and "length pre = frame_off pz k" "frame_rejected od s1 s2 (chain od c fs) pz tail"
    and "length fs < fuel"
  shows "\<exists>r'. page_map_loop fuel (file_ReadAt (pre @ encode_frames od s1 s2 c fs @ tail)) r m tx cm =
    Done (Inr (map_frames pz k m tx cm fs), r')"
  using assms
proof (induction fs arbitrary: fuel k c r pre m tx cm)
  case Nil
  then obtain fuel' where fu: "fuel = Suc fuel'" by (cases fuel) auto
  obtain r' where "ReadFrame (file_ReadAt (pre @ tail)) r (unat pz) = Done (Inl EOF, r')"
    using ReadFrame_rejected [of pz od s1 s2 c k r pre tail] Nil.prems by auto
  then show ?case
    using at_frame_pageSize [OF Nil.prems(3)] by (simp add: fu)
next
  case (Cons f fs)
  obtain fuel' where fu: "fuel = Suc fuel'" using Cons.prems(6) by (cases fuel) auto
  obtain pgno commit data where f: "f = (pgno, commit, data)" by (cases f)
  have l: "length data = unat pz" "frames_ok pz fs"
    using Cons.prems(2) by (simp_all add: frames_ok_def f)
  let ?file = "pre @ encode_frame od s1 s2 c f @ encode_frames od s1 s2 (frame_sum od c f) fs @ tail"
  obtain r1 where r1: "ReadFrame (file_ReadAt ?file) r (unat pz) = Done (Inr (pgno, commit, data), r1)"
    and a1: "at_frame od pz s1 s2 (frame_sum od c f) (Suc k) r1"
    using ReadFrame_encoded [OF Cons.prems(1,3,4) l(1)] unfolding f by blast
  have p1: "length (pre @ encode_frame od s1 s2 c f) = frame_off pz (Suc k)"
    using Cons.prems(4) l(1) by (simp add: f length_encode_frame frame_off_def)
  have t1: "frame_rejected od s1 s2 (chain od (frame_sum od c f) fs) pz tail"
    using Cons.prems(5) by simp
  have "length fs < fuel'" using Cons.prems(6) fu by simp
  note IH = Cons.IH [OF Cons.prems(1) l(2) a1 p1 t1 this, unfolded append_assoc]
  show ?case
    using IH [of m "AList.update pgno (reader_Offset r1) tx" cm]
      IH [of "transfer_tx (AList.update pgno (reader_Offset r1) tx) m"
        "AList.update pgno (reader_Offset r1) tx" commit]
    by (cases "commit = 0")
      (simp_all add: fu r1 at_frame_pageSize [OF Cons.prems(3)] reader_Offset_at_frame [OF a1]
        Let_def, simp_all add: f)
qed

lemma distinct_transfer_tx: "distinct (map fst m) \<Longrightarrow> distinct (map fst (transfer_tx tx m))"
  unfolding transfer_tx_def
  by (induction tx arbitrary: m) (auto simp: distinct_update split: prod.splits)

lemma map_of_transfer_tx:
  "distinct (map fst tx) \<Longrightarrow>
   map_of (transfer_tx tx m) p =
     (case map_of tx p of Some off \<Rightarrow> Some off | None \<Rightarrow> map_of m p)"
  unfolding transfer_tx_def
proof (induction tx arbitrary: m)
  case (Cons kv tx)
  obtain k v where kv: "kv = (k, v)" by force
  have "map_of tx k = None"
    using Cons.prems by (auto simp: kv map_of_eq_None_iff image_iff)
  then show ?case
    using Cons by (auto simp: kv update_conv split: option.splits)
qed simp

lemma map_frames_spec:
  assumes "distinct (map fst tx)"
  shows "map_of (fst (map_frames pz k m tx cm fs)) p =
     (if committed fs = [] then map_of m p
      else case latest pz k (committed fs) p of
        Some off \<Rightarrow> Some off
      | None \<Rightarrow> (case map_of tx p of Some off \<Rightarrow> Some off | None \<Rightarrow> map_of m p))"
    and "snd (map_frames pz k m tx cm fs) = last_commit cm fs"
  using assms
proof (induction fs arbitrary: k m tx cm)
  case Nil
  case 1 show ?case by simp
  case 2 show ?case by (simp add: last_commit_def)
next
  case (Cons f fs)
  have d: "distinct (map fst (AList.update (fst f) v tx))" if "distinct (map fst tx)"
    for v and tx :: page_map
    using that by (simp add: distinct_update)
  case 1
  show ?case
    using Cons.IH(1) [OF d [OF 1]]
    by (cases "committed fs = []")
      (auto simp: Let_def update_conv map_of_transfer_tx [OF d [OF 1]] split: option.splits)
  case 2
  show ?case
    using Cons.IH(2) [OF d [OF 2]] by (auto simp: Let_def last_commit_def)
qed


lemma frame_off_pos [simp]: "0 < frame_off pz k"
  by (simp add: frame_off_def)

lemma latest_pos: "latest pz k fs p = Some off \<Longrightarrow> 0 < off"
  by (induction fs arbitrary: k) (auto split: option.splits if_splits)

lemma max_offset_Max:
  assumes "\<forall>x \<in> set m. 0 < snd x"
  shows "max_offset m = Max (insert 0 (snd ` set m))"
proof -
  have "fold (\<lambda>(p, off) end. if end = 0 \<or> off > end then off else end) m e = fold max (map snd m) e"
    if "0 \<le> e" for e
    using assms that by (induction m arbitrary: e) (auto simp: max_def)
  then have "max_offset m = fold max (map snd m) 0"
    by (simp add: max_offset_def)
  also have "\<dots> = Max (set (0 # map snd m))"
    by (simp only: Max.set_eq_fold)
  finally show ?thesis by simp
qed

lemma max_offset_pos:
  assumes "m \<noteq> []" "\<forall>x \<in> set m. 0 < snd x"
  shows "max_offset m = Max (snd ` set m)"
proof -
  have "0 \<le> snd (hd m)" "snd (hd m) \<le> Max (snd ` set m)"
    using assms by (auto simp: less_imp_le)
  then have "max 0 (Max (snd ` set m)) = Max (snd ` set m)" by linarith
  then show ?thesis
    using assms(1) by (simp add: max_offset_Max [OF assms(2)] Max.insert)
qed

text \<open>What \<open>PageMap\<close> owes its caller for the frames \<open>fs\<close>, the first of which is frame \<open>k\<close>.\<close>

definition page_map_ok :: "u32 \<Rightarrow> nat \<Rightarrow> frame list \<Rightarrow> page_map \<times> int \<times> u32 \<Rightarrow> bool" where
  "page_map_ok pz k fs res =
     (case res of (m, end, commit) \<Rightarrow>
        distinct (map fst m) \<and>
        (\<forall>p. map_of m p =
          (if p \<le> last_commit 0 fs then latest pz k (committed fs) p else None)) \<and>
        (if m = [] then end = 0 \<and> commit = 0
         else end = Max (snd ` set m) + 24 + uint pz \<and> commit = last_commit 0 fs))"

lemma map_frames_distinct:
  "distinct (map fst m) \<Longrightarrow> distinct (map fst (fst (map_frames pz k m tx cm fs)))"
  by (induction fs arbitrary: k m tx cm) (auto simp: Let_def distinct_transfer_tx)

lemma map_of_filter_key:
  "map_of (filter (\<lambda>(p, off). P p) m) q = (if P q then map_of m q else None)"
  by (induction m) auto

lemma page_map_ok_finish:
  assumes "map_frames pz k [] [] 0 fs = (m, cm)"
  shows "page_map_ok pz k fs (finish_page_map pz m cm)"
proof -
  let ?m = "filter (\<lambda>(p, off). \<not> p > cm) m"
  have m: "m = fst (map_frames pz k [] [] 0 fs)" "cm = last_commit 0 fs"
    using assms map_frames_spec(2) [of "[]" pz k "[]" 0 fs] by simp_all
  have d: "distinct (map fst ?m)"
    using map_frames_distinct [of "[]" pz k "[]" 0 fs] m(1)
    by (simp add: distinct_map_filter)
  have q: "map_of ?m p = (if p \<le> cm then latest pz k (committed fs) p else None)" for p
    unfolding map_of_filter_key not_less m(1) map_frames_spec(1) [of "[]", simplified]
    by (simp split: option.splits)
  have pos: "0 < snd x" if "x \<in> set ?m" for x
  proof -
    have "map_of ?m (fst x) = Some (snd x)"
      using d that by (simp add: map_of_is_SomeI del: set_filter)
    then show ?thesis unfolding q by (auto split: if_splits dest: latest_pos)
  qed
  have mx: "?m \<noteq> [] \<Longrightarrow> max_offset ?m = Max (snd ` set ?m)"
    by (rule max_offset_pos) (use pos in blast)+
  show ?thesis
  proof (cases "?m = []")
    case True
    then show ?thesis
      unfolding page_map_ok_def finish_page_map_def Let_def True m(2) [symmetric]
      using q by (simp only: True if_True prod.case) simp
  next
    case False
    then show ?thesis
      unfolding page_map_ok_def finish_page_map_def Let_def m(2) [symmetric]
      using d q mx [OF False] by (simp only: if_False prod.case WALFrameHeaderSize_def) simp
  qed
qed

lemma PageMap_at_frame:
  assumes "good_page_size pz" "frames_ok pz fs" "at_frame od pz s1 s2 c k r"
    and "length pre = frame_off pz k" "frame_rejected od s1 s2 (chain od c fs) pz tail"
    and "length fs < fuel"
  shows "\<exists>res r'. PageMap fuel (file_ReadAt (pre @ encode_frames od s1 s2 c fs @ tail)) r =
    Done (Inr res, r') \<and> page_map_ok pz k fs res"
proof -
  obtain m cm where m: "map_frames pz k [] [] 0 fs = (m, cm)" by force
  obtain r' where "page_map_loop fuel (file_ReadAt (pre @ encode_frames od s1 s2 c fs @ tail)) r [] [] 0 =
      Done (Inr (m, cm), r')"
    using page_map_loop_frames [OF assms, of "[]" "[]" 0] m by auto
  then show ?thesis
    using page_map_ok_finish [OF m] at_frame_pageSize [OF assms(3)]
    by (simp add: PageMap_def)
qed


lemma readHeader_at_frame:
  obtains r where
    "NewWALReader (file_ReadAt (encode_wal od pz sq s1 s2 fs @ tail)) = Inr r"
    "at_frame od pz s1 s2 (header_sum od pz sq s1 s2) 0 r"
  using readHeader_encode [of od pz sq s1 s2 _ zero_reader]
  by (simp add: encode_wal_def NewWALReader_def at_frame_def zero_reader_def that)

text \<open>C7: For a WAL file made of a valid header, any frames and a rejected tail (torn, of an
  older salt, or with a broken checksum), opening it and building the page map returns, given
  more fuel than frames, the offset of the last committed version of exactly the pages within the
  final database size, the end of the last such frame and that size: frames after the last
  commit and the tail contribute nothing.\<close>

theorem PageMap_encode_wal:
  assumes "good_page_size pz" "frames_ok pz fs"
    and "frame_rejected od s1 s2 (chain od (header_sum od pz sq s1 s2) fs) pz tail"
    and "length fs < fuel"
  shows "\<exists>r res r'. NewWALReader (file_ReadAt (encode_wal od pz sq s1 s2 fs @ tail)) = Inr r \<and>
     PageMap fuel (file_ReadAt (encode_wal od pz sq s1 s2 fs @ tail)) r = Done (Inr res, r') \<and>
     page_map_ok pz 0 fs res"
proof -
  obtain r where r: "NewWALReader (file_ReadAt (encode_wal od pz sq s1 s2 fs @ tail)) = Inr r"
    "at_frame od pz s1 s2 (header_sum od pz sq s1 s2) 0 r"
    by (rule readHeader_at_frame)
  have "length (encode_header od pz sq s1 s2) = frame_off pz 0" by (simp add: frame_off_def)
  from PageMap_at_frame [OF assms(1,2) r(2) this assms(3,4)] r(1)
  show ?thesis by (auto simp: encode_wal_def)
qed

text \<open>Reading a frame without verifying it, as the resuming constructor does.\<close>

lemma readFrame_unverified:
  assumes g: "good_page_size (pageSize r)"
    and k: "frameN r = int k"
    and p: "length pre = frame_off (pageSize r) k"
    and l: "\<not> length bs < 24 + unat (pageSize r)"
    and s: "salt1 r = be32 (drop 8 bs)" "salt2 r = be32 (drop 12 bs)"
  shows "readFrame (file_ReadAt (pre @ bs)) r (unat (pageSize r)) False =
     Done (Inr (be32 bs, be32 (drop 4 bs), sub 24 (unat (pageSize r)) bs),
           r\<lparr>chksum1 := be32 (drop 16 bs), chksum2 := be32 (drop 20 bs), frameN := frameN r + 1\<rparr>)"
proof -
  let ?ps = "unat (pageSize r)"
  let ?off = "WALHeaderSize + frameN r * uint (frameSize r)"
  have off: "?off = int (length pre)"
    unfolding k p uint_frameSize [OF g] frame_off_def
    by (simp add: WALHeaderSize_def algebra_simps)
  have h: "file_ReadAt (pre @ bs) 24 ?off = (take 24 bs, None)"
    using l unfolding off by (simp add: file_ReadAt_def sub_def Let_def)
  have d: "file_ReadAt (pre @ bs) ?ps (?off + WALFrameHeaderSize) = (sub 24 ?ps bs, None)"
    using l unfolding off by (simp add: file_ReadAt_def sub_def Let_def WALFrameHeaderSize_def
        nat_add_distrib min_def) linarith
  have b: "be32 (drop i (take 24 bs)) = be32 (drop i bs)" if "i \<le> 20" for i
    using that by (simp add: drop_take)
  have ln: "length (take 24 bs) = 24" "length (sub 24 ?ps bs) = ?ps" using l by auto
  show ?thesis
    unfolding readFrame_def h d Let_def
    by (simp add: b ln s del: length_take length_sub)
qed

lemma encode_frames_append:
  "encode_frames od s1 s2 c (fs @ gs) =
   encode_frames od s1 s2 c fs @ encode_frames od s1 s2 (chain od c fs) gs"
  by (induction fs arbitrary: c) simp_all

lemma chain_append: "chain od c (fs @ gs) = chain od (chain od c fs) gs"
  by (induction fs arbitrary: c) simp_all

lemma NewWALReaderWithOffset_at_frame:
  assumes g: "good_page_size pz" and fs: "frames_ok pz fs" "fs \<noteq> []"
  obtains r where
    "NewWALReaderWithOffset (file_ReadAt (encode_wal od pz sq s1 s2 fs @ rest))
       (int (frame_off pz (length fs))) s1 s2 = Done (Inr r)"
    "at_frame od pz s1 s2 (chain od (header_sum od pz sq s1 s2) fs) (length fs) r"
proof -
  define h where "h = header_sum od pz sq s1 s2"
  obtain gs f where gf: "fs = gs @ [f]" using fs(2) by (metis rev_exhaust)
  obtain pgno commit data where f: "f = (pgno, commit, data)" by (cases f)
  have l: "length data = unat pz" "frames_ok pz gs"
    using fs(1) by (simp_all add: frames_ok_def gf f)
  let ?bs = "encode_frame od s1 s2 (chain od h gs) (pgno, commit, data) @ rest"
  let ?pre = "encode_header od pz sq s1 s2 @ encode_frames od s1 s2 h gs"
  let ?r0 = "zero_reader\<lparr>bo := od, pageSize := pz, seq := sq, salt1 := s1, salt2 := s2,
      chksum1 := fst h, chksum2 := snd h, frameN := int (length gs)\<rparr>"
  note e = encode_frame_fields [OF l(1), of od s1 s2 "chain od h gs" pgno commit rest]
  have p: "length ?pre = frame_off pz (length gs)"
    by (simp add: length_encode_frames [OF l(2)] frame_off_def)
  have fl: "encode_wal od pz sq s1 s2 fs @ rest = ?pre @ ?bs"
    by (simp add: encode_wal_def gf encode_frames_append f h_def)
  have rh: "readHeader (file_ReadAt (?pre @ ?bs)) zero_reader =
      Inr (zero_reader\<lparr>bo := od, pageSize := pz, seq := sq, salt1 := s1, salt2 := s2,
        chksum1 := fst h, chksum2 := snd h\<rparr>)"
    using readHeader_encode [of od pz sq s1 s2 "encode_frames od s1 s2 h gs @ ?bs" zero_reader]
    by (simp add: h_def)
  have fsz: "uint (frameSize r) = uint pz + 24" if "pageSize r = pz" for r
    using uint_frameSize [of r] g that by simp
  have off: "int (frame_off pz (length fs)) - WALHeaderSize = (int (length gs) + 1) * (uint pz + 24)"
    by (simp add: frame_off_def WALHeaderSize_def gf algebra_simps)
  have pos: "uint pz + 24 > 0" by (simp add: add_nonneg_pos)
  have dv: "(int (length gs) + 1) * (uint pz + 24) div (uint pz + 24) = int (length gs) + 1"
    using pos by simp
  have "32 < frame_off pz (length fs)" by (simp add: frame_off_def gf)
  then have big: "\<not> int (frame_off pz (length fs)) \<le> WALHeaderSize"
    by (simp add: WALHeaderSize_def)
  have rf: "readFrame (file_ReadAt (?pre @ ?bs)) ?r0 (unat pz) False =
     Done (Inr (pgno, commit, data),
       ?r0\<lparr>chksum1 := fst (chain od h fs), chksum2 := snd (chain od h fs),
         frameN := int (length gs) + 1\<rparr>)"
    using readFrame_unverified [of ?r0 "length gs" ?pre ?bs] g p e
    by (simp add: gf chain_append f del: append_assoc) (metis fst_conv snd_conv)
  show thesis
  proof (rule that)
    show "NewWALReaderWithOffset (file_ReadAt (encode_wal od pz sq s1 s2 fs @ rest))
       (int (frame_off pz (length fs))) s1 s2 =
      Done (Inr (?r0\<lparr>chksum1 := fst (chain od h fs), chksum2 := snd (chain od h fs),
         frameN := int (length gs) + 1\<rparr>))"
      unfolding NewWALReaderWithOffset_def fl rh off using big pos rf
      by (simp add: Let_def fsz dv zero_reader_def)
    show "at_frame od pz s1 s2 (chain od (header_sum od pz sq s1 s2) fs) (length fs)
      (?r0\<lparr>chksum1 := fst (chain od h fs), chksum2 := snd (chain od h fs),
         frameN := int (length gs) + 1\<rparr>)"
      by (simp add: at_frame_def gf h_def)
  qed
qed

theorem PageMap_encode_wal_witness:
  "\<exists>r res r'. NewWALReader (file_ReadAt (encode_wal BigEndian 8 0 7 9
        [(1, 0, replicate 8 1), (2, 2, replicate 8 2), (1, 0, replicate 8 3)] @ [0])) = Inr r \<and>
     PageMap 4 (file_ReadAt (encode_wal BigEndian 8 0 7 9
        [(1, 0, replicate 8 1), (2, 2, replicate 8 2), (1, 0, replicate 8 3)] @ [0])) r =
       Done (Inr res, r') \<and>
     page_map_ok 8 0 [(1, 0, replicate 8 1), (2, 2, replicate 8 2), (1, 0, replicate 8 3)] res"
  by (rule PageMap_encode_wal)
    (simp_all add: good_page_size_def frames_ok_def frame_rejected_def)

text \<open>C27: Resuming at a frame boundary, with the salts of the WAL's cycle, picks up the running
  checksum of the frame before it, and the page map built from there is the one of the remaining
  frames, at their offsets in the file.\<close>

theorem PageMap_resume:
  assumes "good_page_size pz" "frames_ok pz fs" "frames_ok pz gs" "fs \<noteq> []"
    and "frame_rejected od s1 s2 (chain od (header_sum od pz sq s1 s2) (fs @ gs)) pz tail"
    and "length gs < fuel"
  shows "\<exists>r res r'.
     NewWALReaderWithOffset (file_ReadAt (encode_wal od pz sq s1 s2 (fs @ gs) @ tail))
       (int (frame_off pz (length fs))) s1 s2 = Done (Inr r) \<and>
     PageMap fuel (file_ReadAt (encode_wal od pz sq s1 s2 (fs @ gs) @ tail)) r =
       Done (Inr res, r') \<and>
     page_map_ok pz (length fs) gs res"
proof -
  let ?c = "header_sum od pz sq s1 s2"
  obtain r where r: "NewWALReaderWithOffset (file_ReadAt (encode_wal od pz sq s1 s2 fs @
        encode_frames od s1 s2 (chain od ?c fs) gs @ tail))
       (int (frame_off pz (length fs))) s1 s2 = Done (Inr r)"
    "at_frame od pz s1 s2 (chain od ?c fs) (length fs) r"
    by (rule NewWALReaderWithOffset_at_frame [OF assms(1,2,4)])
  have "length (encode_wal od pz sq s1 s2 fs) = frame_off pz (length fs)"
    using assms(2) by (simp add: encode_wal_def length_encode_frames frame_off_def)
  from PageMap_at_frame [OF assms(1,3) r(2) this _ assms(6)] assms(5) r(1)
  show ?thesis by (auto simp: encode_wal_def encode_frames_append chain_append)
qed

theorem PageMap_resume_witness:
  "\<exists>r res r'.
     NewWALReaderWithOffset (file_ReadAt (encode_wal LittleEndian 8 0 7 9
        ([(1, 1, replicate 8 1)] @ [(2, 2, replicate 8 2)]) @ []))
       (int (frame_off 8 (length [(1 :: u32, 1 :: u32, replicate 8 (1 :: byte))]))) 7 9 = Done (Inr r) \<and>
     PageMap 2 (file_ReadAt (encode_wal LittleEndian 8 0 7 9
        ([(1, 1, replicate 8 1)] @ [(2, 2, replicate 8 2)]) @ [])) r = Done (Inr res, r') \<and>
     page_map_ok 8 (length [(1 :: u32, 1 :: u32, replicate 8 (1 :: byte))]) [(2, 2, replicate 8 2)] res"
  by (rule PageMap_resume)
    (simp_all add: good_page_size_def frames_ok_def frame_rejected_def)

section \<open>Frame salts\<close>

fun upto_first :: "'a \<Rightarrow> 'a list \<Rightarrow> 'a list" where
  "upto_first x [] = []"
| "upto_first x (y # ys) = (if y = x then [y] else y # upto_first x ys)"

definition salts_of :: "byte list \<Rightarrow> u32 \<times> u32" where
  "salts_of bs = (be32 (drop 8 bs), be32 (drop 12 bs))"

lemma frame_salts_loop_frames:
  assumes "good_page_size pz" "\<forall>x \<in> set bss. length x = 24 + unat pz" "length tail < 24"
    and "length bss < fuel" "off = int (length pre)"
  shows "frame_salts_loop fuel (file_ReadAt (pre @ concat bss @ tail)) (24 + pz) until off m =
     Done (Inr (m \<union> set (upto_first until (map salts_of bss))))"
  using assms
proof (induction bss arbitrary: fuel pre off m)
  case Nil
  then show ?case by (cases fuel) (simp_all add: file_ReadAt_def sub_def Let_def)
next
  case (Cons b bss)
  obtain fuel' where fu: "fuel = Suc fuel'" using Cons.prems(4) by (cases fuel) auto
  have l: "length b = 24 + unat pz" using Cons.prems(2) by simp
  have h: "file_ReadAt (pre @ b @ concat bss @ tail) 24 off = (take 24 b, None)"
    unfolding Cons.prems(5) using l by (simp add: file_ReadAt_def sub_def Let_def)
  have s: "be32 (drop i (take 24 b)) = be32 (drop i b)" if "i \<le> 20" for i
    using that by (simp add: drop_take)
  have u: "uint (24 + pz) = int (24 + unat pz)"
    using uint_frameSize [of "zero_reader\<lparr>pageSize := pz\<rparr>"] Cons.prems(1)
    by (simp add: frameSize_def add.commute)
  have "off + uint (24 + pz) = int (length (pre @ b))"
    unfolding Cons.prems(5) u using l by simp
  from Cons.IH [OF Cons.prems(1) _ Cons.prems(3) _ this] Cons.prems(2,4) fu l
  show ?case
    by (simp add: h s salts_of_def Let_def insert_commute)
qed

text \<open>The set of frame salts of a WAL file is the set of the salts of its frames up to and
  including the first frame with the salt looked for; a last partial frame header is ignored.\<close>

lemma FrameSaltsUntil_frames:
  assumes "good_page_size (pageSize r)" "length hdr = 32"
    and "\<forall>x \<in> set bss. length x = 24 + unat (pageSize r)" "length tail < 24"
    and "length bss < fuel"
  shows "FrameSaltsUntil fuel (file_ReadAt (hdr @ concat bss @ tail)) r until =
     Done (Inr (set (upto_first until (map salts_of bss))))"
  using frame_salts_loop_frames [OF assms(1,3,4,5), of 32 hdr until "{}"] assms(2)
  by (simp add: FrameSaltsUntil_def WALHeaderSize_def)

text \<open>The step is a 32-bit sum: for the page size \<open>2 ^ 32 - 24\<close> it wraps to 0 and the loop
  reads the same header for ever, unless that frame has the salt looked for.\<close>

lemma FrameSaltsUntil_wraps:
  assumes "pageSize r = - 24" "56 \<le> length f" "salts_of (drop 32 f) \<noteq> until"
  shows "FrameSaltsUntil fuel (file_ReadAt f) r until = OutOfFuel"
proof -
  have h: "file_ReadAt f 24 32 = (sub 32 24 f, None)"
    using assms(2) by (simp add: file_ReadAt_def)
  have s: "be32 (drop i (sub 32 24 f)) = be32 (drop i (drop 32 f))" if "i \<le> 20" for i
    using that by (simp add: sub_def drop_take)
  have "frame_salts_loop fuel (file_ReadAt f) 0 until 32 m = OutOfFuel" for m
    using assms(2,3) by (induction fuel arbitrary: m) (simp_all add: h s salts_of_def Let_def)
  then show ?thesis by (simp add: FrameSaltsUntil_def assms(1) WALHeaderSize_def)
qed

end
