(* ===== verification/Ltx_Files.thy ===== *)
theory Ltx_Files
  imports Prelude
begin

text \<open>
  LTX file listings and compaction levels: \<open>replica_client.go\<close> and
  \<open>compaction_level.go\<close>.

  A replica client is code behind the interface \<open>ReplicaClient\<close>. For the listing it is a
  function from the level, the seek TXID and the metadata flag to the items the iterator yields,
  the error \<open>Err\<close> reports when it stops and the error \<open>Close\<close> returns. The record
  \<open>file_info\<close> has the fields of \<open>ltx.FileInfo\<close> the program reads. The lemmas
  show what \<open>FindLTXFiles\<close> returns for a filter without errors, and that the level
  arithmetic of a validated configuration is a chain from level 0 to the snapshot level.
\<close>

section \<open>Listings\<close>

record file_info =
  Level :: int
  MinTXID :: u64
  MaxTXID :: u64
  Size :: int
  CreatedAt :: go_time

record file_iter =
  it_items :: "file_info list"
  it_err :: "go_error option"
  it_close :: "go_error option"

type_synonym ltx_lister = "int \<Rightarrow> u64 \<Rightarrow> bool \<Rightarrow> go_error + file_iter"

definition SnapshotLevel :: int where "SnapshotLevel = 9"

text \<open>The result is a pair: on an error of the filter the matches so far are returned with it.\<close>

fun find_loop ::
  "(file_info \<Rightarrow> bool \<times> go_error option) \<Rightarrow> file_info list \<Rightarrow> file_info list \<Rightarrow>
     file_info list \<times> go_error option" where
  "find_loop f a [] = (a, None)"
| "find_loop f a (item # items) =
     (case f item of (match, err) \<Rightarrow>
        let a' = (if match then a @ [item] else a)
        in (case err of
              None \<Rightarrow> find_loop f a' items
            | Some e \<Rightarrow> if errors_Is e ErrStopIter then (a', None) else (a', Some e)))"

definition FindLTXFiles ::
  "ltx_lister \<Rightarrow> int \<Rightarrow> bool \<Rightarrow> (file_info \<Rightarrow> bool \<times> go_error option) \<Rightarrow>
     file_info list \<times> go_error option" where
  "FindLTXFiles client level useMetadata f =
     (case client level 0 useMetadata of
        Inl e \<Rightarrow> ([], Some e)
      | Inr itr \<Rightarrow>
          (case find_loop f [] (it_items itr) of
             (a, Some e) \<Rightarrow> (a, Some e)
           | (a, None) \<Rightarrow>
               (case it_close itr of Some e \<Rightarrow> ([], Some e) | None \<Rightarrow> (a, None))))"

section \<open>Compaction levels\<close>

record compaction_level =
  lvl_Level :: int
  Interval :: int

type_synonym compaction_levels = "compaction_level list"

definition seconds :: "int \<Rightarrow> int" where "seconds n = n * 1000000000"

definition DefaultCompactionLevels :: compaction_levels where
  "DefaultCompactionLevels =
     [\<lparr>lvl_Level = 0, Interval = 0\<rparr>,
      \<lparr>lvl_Level = 1, Interval = seconds 30\<rparr>,
      \<lparr>lvl_Level = 2, Interval = seconds (5 * 60)\<rparr>,
      \<lparr>lvl_Level = 3, Interval = seconds 3600\<rparr>]"

text \<open>\<open>time.Truncate\<close> rounds down to a multiple of \<open>d\<close> since the zero time, and leaves
  the time alone when \<open>d \<le> 0\<close>.\<close>

definition time_Truncate :: "go_time \<Rightarrow> int \<Rightarrow> go_time" where
  "time_Truncate t d = (if d \<le> 0 then t else t - t mod d)"

definition PrevCompactionAt :: "compaction_level \<Rightarrow> go_time \<Rightarrow> go_time" where
  "PrevCompactionAt lvl now = time_Truncate now (Interval lvl)"

definition NextCompactionAt :: "compaction_level \<Rightarrow> go_time \<Rightarrow> go_time" where
  "NextCompactionAt lvl now = PrevCompactionAt lvl now + Interval lvl"

definition MaxLevel :: "compaction_levels \<Rightarrow> int" where
  "MaxLevel a = int (length a) - 1"

definition levels_Level :: "compaction_levels \<Rightarrow> int \<Rightarrow> go_error + compaction_level" where
  "levels_Level a level =
     (if level = SnapshotLevel then Inl (Errorf ''invalid argument, snapshot level'')
      else if level < 0 \<or> level > MaxLevel a then Inl (Errorf ''level out of bounds'')
      else Inr (a ! nat level))"

fun validate_loop :: "int \<Rightarrow> compaction_levels \<Rightarrow> go_error option" where
  "validate_loop i [] = None"
| "validate_loop i (lvl # rest) =
     (if i \<noteq> lvl_Level lvl then Some (Errorf ''compaction level number out of order'')
      else if lvl_Level lvl > SnapshotLevel - 1 then Some (Errorf ''compaction level cannot exceed'')
      else if lvl_Level lvl = 0 \<and> Interval lvl \<noteq> 0
      then Some (Errorf ''cannot set interval on compaction level zero'')
      else if lvl_Level lvl \<noteq> 0 \<and> Interval lvl \<le> 0
      then Some (Errorf ''interval required for level'')
      else validate_loop (i + 1) rest)"

definition levels_Validate :: "compaction_levels \<Rightarrow> go_error option" where
  "levels_Validate a =
     (if a = [] then Some (Errorf ''at least one compaction level is required'')
      else validate_loop 0 a)"

definition IsValidLevel :: "compaction_levels \<Rightarrow> int \<Rightarrow> bool" where
  "IsValidLevel a level =
     (if level = SnapshotLevel then True else level \<ge> 0 \<and> level < int (length a))"

definition PrevLevel :: "compaction_levels \<Rightarrow> int \<Rightarrow> int" where
  "PrevLevel a level = (if level = SnapshotLevel then MaxLevel a else level - 1)"

definition NextLevel :: "compaction_levels \<Rightarrow> int \<Rightarrow> int" where
  "NextLevel a level =
     (if level = SnapshotLevel then -1
      else if level = MaxLevel a then SnapshotLevel
      else level + 1)"

section \<open>Lemmas\<close>

lemma find_loop_pure:
  "find_loop (\<lambda>x. (P x, None)) a items = (a @ filter P items, None)"
  by (induction items arbitrary: a) (simp_all add: Let_def)

text \<open>A filter without errors selects the matching items, in the listing's order.\<close>

lemma FindLTXFiles_filter:
  "client level 0 um = Inr itr \<Longrightarrow> it_close itr = None \<Longrightarrow>
   FindLTXFiles client level um (\<lambda>x. (P x, None)) = (filter P (it_items itr), None)"
  by (simp add: FindLTXFiles_def find_loop_pure)

lemma FindLTXFiles_pure_ok_iff:
  "FindLTXFiles client level um (\<lambda>x. (P x, None)) = (a, None) \<longleftrightarrow>
   (\<exists>itr. client level 0 um = Inr itr \<and> it_close itr = None \<and> a = filter P (it_items itr))"
  by (auto simp: FindLTXFiles_def find_loop_pure split: sum.splits option.splits)

definition level_at :: "int \<Rightarrow> compaction_level \<Rightarrow> bool" where
  "level_at n lvl \<longleftrightarrow>
     lvl_Level lvl = n \<and> n \<le> 8 \<and> (if n = 0 then Interval lvl = 0 else 0 < Interval lvl)"

lemma validate_loop_None:
  "validate_loop i a = None \<longleftrightarrow> (\<forall>j < length a. level_at (i + int j) (a ! j))"
proof (induction i a rule: validate_loop.induct)
  case (2 i lvl rest)
  have "(\<forall>j < length (lvl # rest). level_at (i + int j) ((lvl # rest) ! j)) \<longleftrightarrow>
      level_at i lvl \<and> (\<forall>j < length rest. level_at (i + 1 + int j) (rest ! j))"
    by (simp add: All_less_Suc2 ac_simps)
  then show ?case
    using 2 by (auto simp: level_at_def SnapshotLevel_def not_less)
qed simp

text \<open>C26: A validated configuration numbers its levels by position, at most 8, with an interval
  exactly on the levels above 0; looking a level up succeeds for exactly the valid levels other
  than the snapshot level; and stepping down inverts stepping up from every valid level below
  the snapshot level, so the levels form one chain from 0 to the snapshot level.\<close>

theorem levels_Validate_chain:
  assumes "levels_Validate a = None"
  shows "length a \<le> 9 \<and>
    (\<forall>level. IsValidLevel a level \<and> level \<noteq> SnapshotLevel \<longrightarrow>
       (\<exists>lvl. levels_Level a level = Inr lvl \<and> lvl_Level lvl = level \<and>
          (Interval lvl > 0 \<longleftrightarrow> level > 0)) \<and>
       IsValidLevel a (NextLevel a level) \<and> PrevLevel a (NextLevel a level) = level)"
proof -
  have ne: "a \<noteq> []" and v: "validate_loop 0 a = None"
    using assms by (auto simp: levels_Validate_def split: if_splits)
  note A = v [unfolded validate_loop_None]
  have "int (length a - 1) \<le> 8"
    using A [rule_format, of "length a - 1"] ne by (simp add: level_at_def)
  then have len: "length a \<le> 9" using ne by linarith
  have lk: "lvl_Level (a ! nat l) = l \<and> (Interval (a ! nat l) > 0 \<longleftrightarrow> l > 0)"
    if "0 \<le> l" "l < int (length a)" for l
    using A [rule_format, of "nat l"] that by (cases "l = 0") (auto simp: level_at_def)
  show ?thesis
    using len lk
    by (auto simp: IsValidLevel_def levels_Level_def NextLevel_def PrevLevel_def MaxLevel_def
        SnapshotLevel_def)
qed

theorem levels_Validate_chain_witness:
  "length DefaultCompactionLevels \<le> 9 \<and>
   (\<exists>lvl. levels_Level DefaultCompactionLevels 3 = Inr lvl \<and> lvl_Level lvl = 3) \<and>
   PrevLevel DefaultCompactionLevels (NextLevel DefaultCompactionLevels 3) = 3"
proof -
  have v: "levels_Validate DefaultCompactionLevels = None"
    by (simp add: levels_Validate_def DefaultCompactionLevels_def SnapshotLevel_def seconds_def)
  have "IsValidLevel DefaultCompactionLevels 3 \<and> 3 \<noteq> SnapshotLevel"
    by (simp add: IsValidLevel_def DefaultCompactionLevels_def SnapshotLevel_def)
  with levels_Validate_chain [OF v] show ?thesis by blast
qed

text \<open>The compaction window: the previous compaction is the last multiple of the interval at or
  before now, and the next one lies strictly after now, also when now is a multiple.\<close>

lemma compaction_window:
  assumes "0 < Interval lvl"
  shows "PrevCompactionAt lvl now \<le> now" "now < NextCompactionAt lvl now"
    "Interval lvl dvd PrevCompactionAt lvl now"
    "Interval lvl dvd now \<Longrightarrow> PrevCompactionAt lvl now = now"
  using assms pos_mod_bound [OF assms, of now] pos_mod_sign [OF assms, of now]
  by (auto simp: PrevCompactionAt_def NextCompactionAt_def time_Truncate_def dvd_minus_mod)

text \<open>The comment of \<open>NextCompactionAt\<close> promises the current time on an exact multiple; the
  code returns the time one interval later.\<close>

lemma NextCompactionAt_on_multiple:
  "0 < Interval lvl \<Longrightarrow> Interval lvl dvd now \<Longrightarrow>
   NextCompactionAt lvl now = now + Interval lvl"
  by (simp add: NextCompactionAt_def compaction_window)

end
