(* ===== verification/Restore_Plan.thy ===== *)
theory Restore_Plan
  imports Ltx_Files
begin

text \<open>
  The restore plan, \<open>CalcRestorePlan\<close> of \<open>replica.go\<close> with its level cursors: which
  LTX files, in which order, rebuild the database at a transaction, before an instant, or at
  the newest state.

  A cursor streams the listing of one level; \<open>restore_cursor\<close> holds the fields of the Go
  struct, with the iterator as the items it has left and the error it ends with. The main loop
  refreshes every cursor, takes the best candidate and repeats; it is a \<open>function\<close> with a
  termination proof, so that it always returns is part of the model's acceptance.
  \<open>slice_MaxTXID\<close>, of the package \<open>ltx\<close>, is a parameter. The lemmas show that a plan
  is contiguous, strictly increasing, made of eligible files of the listings, ends at the target,
  and that on sorted listings a plan is found whenever a chain of files reaches the target.
\<close>

section \<open>Model\<close>

record restore_cursor =
  itr :: "file_info list"
  itr_err :: "go_error option"
  current :: "file_info option"
  candidate :: "file_info option"
  is_done :: bool

definition restoreCandidateBetter :: "file_info \<Rightarrow> file_info \<Rightarrow> bool" where
  "restoreCandidateBetter cur nxt =
     (if MaxTXID nxt \<noteq> MaxTXID cur then MaxTXID nxt > MaxTXID cur
      else if MinTXID nxt \<noteq> MinTXID cur then MinTXID nxt < MinTXID cur
      else if Level nxt \<noteq> Level cur then Level nxt > Level cur
      else CreatedAt nxt < CreatedAt cur)"

definition ensureCurrent :: "restore_cursor \<Rightarrow> go_error option \<times> restore_cursor" where
  "ensureCurrent c =
     (if is_done c \<or> current c \<noteq> None then (None, c)
      else (case itr c of
              [] \<Rightarrow> (case itr_err c of Some e \<Rightarrow> (Some e, c) | None \<Rightarrow> (None, c\<lparr>is_done := True\<rparr>))
            | info # rest \<Rightarrow> (None, c\<lparr>itr := rest, current := Some info\<rparr>)))"

text \<open>The three \<open>continue\<close> tests of \<open>refresh\<close>, negated.\<close>

definition in_target :: "u64 \<Rightarrow> go_time \<Rightarrow> file_info \<Rightarrow> bool" where
  "in_target txID ts info \<longleftrightarrow>
     \<not> (txID \<noteq> 0 \<and> MaxTXID info > txID) \<and>
     \<not> (\<not> time_IsZero ts \<and> \<not> CreatedAt info < ts)"

definition consider_info :: "u64 \<Rightarrow> u64 \<Rightarrow> go_time \<Rightarrow> file_info \<Rightarrow> file_info option \<Rightarrow> file_info option" where
  "consider_info currentMax txID ts info cand =
     (if MaxTXID info \<le> currentMax then cand
      else if \<not> in_target txID ts info then cand
      else (case cand of
              None \<Rightarrow> Some info
            | Some cur \<Rightarrow> if restoreCandidateBetter cur info then Some info else cand))"

function refresh_loop ::
  "u64 \<Rightarrow> u64 \<Rightarrow> go_time \<Rightarrow> restore_cursor \<Rightarrow> go_error option \<times> restore_cursor" where
  "refresh_loop currentMax txID ts c =
     (case ensureCurrent c of
        (Some e, c') \<Rightarrow> (Some e, c')
      | (None, c') \<Rightarrow>
          if is_done c' then (None, c')
          else (case current c' of
            None \<Rightarrow> (None, c')
          | Some info \<Rightarrow>
              if MinTXID info > currentMax + 1 then (None, c')
              else refresh_loop currentMax txID ts
                (c'\<lparr>current := None,
                    candidate := consider_info currentMax txID ts info (candidate c')\<rparr>)))"
  by pat_completeness auto
termination
  by (relation "measure (\<lambda>(_, _, _, c). length (itr c) + (if current c = None then 0 else 1))")
    (auto simp: ensureCurrent_def split: if_splits list.splits option.splits)

definition refresh ::
  "u64 \<Rightarrow> u64 \<Rightarrow> go_time \<Rightarrow> restore_cursor \<Rightarrow> go_error option \<times> restore_cursor" where
  "refresh currentMax txID ts c =
     (if is_done c then (None, c)
      else refresh_loop currentMax txID ts
        (case candidate c of
           Some f \<Rightarrow> if MaxTXID f \<le> currentMax then c\<lparr>candidate := None\<rparr> else c
         | None \<Rightarrow> c))"

text \<open>
  The inner loop over the cursors. \<open>nxt\<close> is Go's pointer to the best cursor so far: its
  index and its candidate (the candidate of an earlier cursor does not change while later ones are
  refreshed).
\<close>

fun select_cursor ::
  "u64 \<Rightarrow> u64 \<Rightarrow> go_time \<Rightarrow> nat \<Rightarrow> restore_cursor list \<Rightarrow> (nat \<times> file_info) option \<Rightarrow>
     go_error + restore_cursor list \<times> (nat \<times> file_info) option" where
  "select_cursor currentMax txID ts i [] nxt = Inr ([], nxt)"
| "select_cursor currentMax txID ts i (c # cs) nxt =
     (case refresh currentMax txID ts c of
        (Some e, _) \<Rightarrow> Inl e
      | (None, c') \<Rightarrow>
          (let nxt' = (case candidate c' of
                         None \<Rightarrow> nxt
                       | Some f \<Rightarrow>
                           (case nxt of
                              None \<Rightarrow> Some (i, f)
                            | Some (_, g) \<Rightarrow> if restoreCandidateBetter g f then Some (i, f) else nxt))
           in bindR (select_cursor currentMax txID ts (Suc i) cs nxt') (\<lambda>(cs', r).
                Inr (c' # cs', r))))"

definition cursor_work :: "restore_cursor \<Rightarrow> nat" where
  "cursor_work c = length (itr c) + (if current c = None then 0 else 1) +
     (if candidate c = None then 0 else 1)"

definition cursors_work :: "restore_cursor list \<Rightarrow> nat" where
  "cursors_work cs = sum_list (map cursor_work cs)"

definition clear_candidate :: "nat \<Rightarrow> restore_cursor list \<Rightarrow> restore_cursor list" where
  "clear_candidate i cs = cs[i := (cs ! i)\<lparr>candidate := None\<rparr>]"

lemma consider_info_work:
  "(if consider_info m t ts info cand = None then 0 else 1) \<le>
   (1 :: nat) + (if cand = None then 0 else 1)"
  by (auto simp: consider_info_def)

lemma ensureCurrent_work:
  "ensureCurrent c = (r, c') \<Longrightarrow> cursor_work c' \<le> cursor_work c \<and> candidate c' = candidate c"
  by (auto simp: ensureCurrent_def cursor_work_def split: if_splits list.splits option.splits)

lemma refresh_loop_work:
  "refresh_loop m t ts c = (r, c') \<Longrightarrow> cursor_work c' \<le> cursor_work c"
proof (induction m t ts c rule: refresh_loop.induct)
  case (1 m t ts c)
  obtain e c1 where e: "ensureCurrent c = (e, c1)" by force
  note w = ensureCurrent_work [OF e]
  show ?case
  proof (cases "e = None \<and> \<not> is_done c1 \<and> current c1 \<noteq> None \<and> \<not> MinTXID (the (current c1)) > m + 1")
    case False
    then have "c' = c1" using 1(2) e by (auto split: option.splits if_splits)
    then show ?thesis using w by simp
  next
    case True
    then obtain info where i: "current c1 = Some info" by auto
    let ?c = "c1\<lparr>current := None, candidate := consider_info m t ts info (candidate c1)\<rparr>"
    have r: "refresh_loop m t ts ?c = (r, c')" using 1(2) e True i by simp
    have "cursor_work c' \<le> cursor_work ?c"
      using 1(1) [OF e [symmetric]] True i r by auto
    also have "\<dots> \<le> cursor_work c1"
      using consider_info_work [of m t ts info "candidate c1"] i by (simp add: cursor_work_def)
    finally show ?thesis using w by linarith
  qed
qed

lemma refresh_work: "refresh m t ts c = (r, c') \<Longrightarrow> cursor_work c' \<le> cursor_work c"
proof (cases "is_done c")
  case False
  assume "refresh m t ts c = (r, c')"
  then have "\<exists>c1. cursor_work c1 \<le> cursor_work c \<and> refresh_loop m t ts c1 = (r, c')"
    using False by (intro exI [of _ "case candidate c of
        Some f \<Rightarrow> if MaxTXID f \<le> m then c\<lparr>candidate := None\<rparr> else c | None \<Rightarrow> c"])
      (auto simp: refresh_def cursor_work_def split: option.splits)
  then show ?thesis using refresh_loop_work le_trans by blast
qed (simp add: refresh_def)

text \<open>What a pass over the cursors does: every cursor is refreshed, and the result is the best of
  the candidates, or the incoming one.\<close>

lemma select_cursor_spec:
  assumes "select_cursor m t ts i cs nxt = Inr (cs', r)"
  shows "length cs' = length cs \<and> (\<forall>j < length cs. refresh m t ts (cs ! j) = (None, cs' ! j)) \<and>
    (r = nxt \<or> (\<exists>j f. j < length cs \<and> r = Some (i + j, f) \<and> candidate (cs' ! j) = Some f)) \<and>
    (\<forall>k g. nxt = Some (k, g) \<longrightarrow> (\<exists>l f. r = Some (l, f) \<and> MaxTXID g \<le> MaxTXID f)) \<and>
    (\<forall>j < length cs. \<forall>g. candidate (cs' ! j) = Some g \<longrightarrow>
       (\<exists>l f. r = Some (l, f) \<and> MaxTXID g \<le> MaxTXID f))"
  using assms
proof (induction cs arbitrary: i nxt cs')
  case (Cons c cs)
  obtain c1 where c1: "refresh m t ts c = (None, c1)"
    using Cons.prems by (auto split: prod.splits option.splits)
  define nxt1 where "nxt1 = (case candidate c1 of
      None \<Rightarrow> nxt
    | Some f \<Rightarrow> (case nxt of None \<Rightarrow> Some (i, f)
        | Some (_, g) \<Rightarrow> if restoreCandidateBetter g f then Some (i, f) else nxt))"
  obtain cs1 where cs1: "select_cursor m t ts (Suc i) cs nxt1 = Inr (cs1, r)" "cs' = c1 # cs1"
    using Cons.prems by (auto simp: c1 nxt1_def [symmetric] Let_def bindR_Inr_iff)
  note IH = Cons.IH [OF cs1(1)]
  have n: "nxt1 = nxt \<or> (\<exists>f. nxt1 = Some (i, f) \<and> candidate c1 = Some f)"
    "\<And>k g. nxt = Some (k, g) \<Longrightarrow> \<exists>l f. nxt1 = Some (l, f) \<and> MaxTXID g \<le> MaxTXID f"
    "\<And>g. candidate c1 = Some g \<Longrightarrow> \<exists>l f. nxt1 = Some (l, f) \<and> MaxTXID g \<le> MaxTXID f"
    by (auto simp: nxt1_def restoreCandidateBetter_def split: option.splits if_splits)
  have A: "r = nxt \<or> (\<exists>j f. j < length (c # cs) \<and> r = Some (i + j, f) \<and> candidate (cs' ! j) = Some f)"
  proof -
    consider "r = nxt1" | j f where "j < length cs" "r = Some (Suc i + j, f)" "candidate (cs1 ! j) = Some f"
      using IH by blast
    then show ?thesis
    proof cases
      case 1
      then show ?thesis using n(1) cs1(2) by fastforce
    next
      case 2
      then show ?thesis using cs1(2) by (intro disjI2 exI [of _ "Suc j"] exI [of _ f]) simp
    qed
  qed
  have B: "\<exists>l f. r = Some (l, f) \<and> MaxTXID g \<le> MaxTXID f" if "nxt1 = Some (k, g)" for k g
    using IH that by blast
  have C: "\<exists>l f. r = Some (l, f) \<and> MaxTXID g \<le> MaxTXID f" if "nxt = Some (k, g)" for k g
    using n(2) [OF that] B by (metis order_trans)
  have D: "\<exists>l f. r = Some (l, f) \<and> MaxTXID g \<le> MaxTXID f"
    if "j < length (c # cs)" "candidate (cs' ! j) = Some g" for j g
  proof (cases j)
    case 0
    then show ?thesis using that n(3) [of g] B cs1(2) by (metis nth_Cons_0 order_trans)
  next
    case (Suc j')
    then show ?thesis using that IH cs1(2) by simp
  qed
  have E: "refresh m t ts ((c # cs) ! j) = (None, cs' ! j)" if "j < length (c # cs)" for j
    using that IH c1 cs1(2) by (cases j) simp_all
  show ?case using A C D E IH cs1(2) by (metis length_Cons)
qed simp

lemma select_cursor_work:
  assumes "select_cursor m t ts i cs nxt = Inr (cs', r)"
  shows "cursors_work cs' \<le> cursors_work cs"
proof -
  have l: "length cs' = length cs"
    and r: "\<And>j. j < length cs \<Longrightarrow> refresh m t ts (cs ! j) = (None, cs' ! j)"
    using select_cursor_spec [OF assms] by simp_all
  have "cursor_work (cs' ! j) \<le> cursor_work (cs ! j)" if "j < length cs" for j
    using r [OF that] by (rule refresh_work)
  then show ?thesis
    unfolding cursors_work_def by (auto simp: sum_list_sum_nth l intro!: sum_mono)
qed

lemma clear_candidate_work:
  assumes "i < length cs" "candidate (cs ! i) \<noteq> None"
  shows "cursors_work (clear_candidate i cs) < cursors_work cs"
proof -
  have s: "sum_list (xs[i := x]) < sum_list xs" if "i < length xs" "x < xs ! i" for xs :: "nat list" and x
    using that by (induction xs arbitrary: i) (auto split: nat.splits)
  show ?thesis
    unfolding cursors_work_def clear_candidate_def map_update
    by (rule s) (use assms in \<open>auto simp: cursor_work_def\<close>)
qed

lemma select_clear_work:
  assumes "select_cursor m t ts 0 cs None = Inr (cs', Some (i, f))"
  shows "cursors_work (clear_candidate i cs') < cursors_work cs"
proof -
  have "i < length cs'" "candidate (cs' ! i) = Some f"
    using select_cursor_spec [OF assms] by auto
  then show ?thesis
    using clear_candidate_work [of i cs'] select_cursor_work [OF assms] by simp
qed

function restore_loop ::
  "u64 \<Rightarrow> go_time \<Rightarrow> u64 \<Rightarrow> file_info list \<Rightarrow> restore_cursor list \<Rightarrow>
     go_error + file_info list \<times> u64 \<times> restore_cursor list" where
  "restore_loop txID ts currentMax infos cursors =
     (case select_cursor currentMax txID ts 0 cursors None of
        Inl e \<Rightarrow> Inl e
      | Inr (cursors', None) \<Rightarrow> Inr (infos, currentMax, cursors')
      | Inr (cursors', Some (i, f)) \<Rightarrow>
          if MaxTXID f \<le> currentMax
          then restore_loop txID ts currentMax infos (clear_candidate i cursors')
          else if txID \<noteq> 0 \<and> MaxTXID f \<ge> txID
          then Inr (infos @ [f], MaxTXID f, clear_candidate i cursors')
          else restore_loop txID ts (MaxTXID f) (infos @ [f]) (clear_candidate i cursors'))"
  by pat_completeness auto
termination
  by (relation "measure (\<lambda>(_, _, _, _, cs). cursors_work cs)") (auto dest: select_clear_work)

fun find_snapshot ::
  "u64 \<Rightarrow> go_time \<Rightarrow> file_info list \<Rightarrow> file_info option \<Rightarrow> file_info option" where
  "find_snapshot txID ts [] snapshot = snapshot"
| "find_snapshot txID ts (info # infos) snapshot =
     (if txID \<noteq> 0 \<and> MaxTXID info > txID then find_snapshot txID ts infos snapshot
      else if \<not> time_IsZero ts \<and> \<not> CreatedAt info < ts then find_snapshot txID ts infos snapshot
      else find_snapshot txID ts infos (Some info))"

fun open_cursors ::
  "ltx_lister \<Rightarrow> bool \<Rightarrow> int list \<Rightarrow> go_error + restore_cursor list" where
  "open_cursors client um [] = Inr []"
| "open_cursors client um (level # levels) =
     (case client level 0 um of
        Inl e \<Rightarrow> Inl e
      | Inr it \<Rightarrow> bindR (open_cursors client um levels) (\<lambda>cs.
          Inr (\<lparr>itr = it_items it, itr_err = it_err it, current = None, candidate = None,
                is_done = False\<rparr> # cs)))"

fun gap_check :: "u64 \<Rightarrow> restore_cursor list \<Rightarrow> go_error option" where
  "gap_check currentMax [] = None"
| "gap_check currentMax (c # cs) =
     (case ensureCurrent c of
        (Some e, _) \<Rightarrow> Some e
      | (None, c') \<Rightarrow>
          (case current c' of
             Some info \<Rightarrow>
               if MinTXID info > currentMax + 1 then Some (Errorf ''non-contiguous ltx files'')
               else gap_check currentMax cs
           | None \<Rightarrow> gap_check currentMax cs))"

definition CalcRestorePlan ::
  "(file_info list \<Rightarrow> u64) \<Rightarrow> ltx_lister \<Rightarrow> u64 \<Rightarrow> go_time \<Rightarrow> go_error + file_info list" where
  "CalcRestorePlan slice_MaxTXID client txID ts =
     (if txID \<noteq> 0 \<and> \<not> time_IsZero ts
      then Inl (Errorf ''cannot specify both TXID & timestamp to restore'')
      else bindR (client SnapshotLevel 0 (\<not> time_IsZero ts)) (\<lambda>it.
        let snapshot = find_snapshot txID ts (it_items it) None in
        case it_close it of
          Some e \<Rightarrow> Inl e
        | None \<Rightarrow>
            (let infos0 = (case snapshot of Some f \<Rightarrow> [f] | None \<Rightarrow> []);
                 startTXID = slice_MaxTXID infos0
             in if txID \<noteq> 0 \<and> startTXID \<ge> txID then Inr infos0
                else bindR (open_cursors client (\<not> time_IsZero ts) [8, 7, 6, 5, 4, 3, 2, 1, 0]) (\<lambda>cursors.
                  bindR (restore_loop txID ts startTXID infos0 cursors) (\<lambda>(infos, currentMax, cursors').
                  case (if infos \<noteq> [] \<and> txID = 0 \<and> time_IsZero ts
                        then gap_check currentMax cursors' else None) of
                    Some e \<Rightarrow> Inl e
                  | None \<Rightarrow>
                      if infos = [] then Inl ErrTxNotAvailable
                      else if txID \<noteq> 0 \<and> slice_MaxTXID infos < txID then Inl ErrTxNotAvailable
                      else Inr infos)))))"

declare refresh_loop.simps [simp del] restore_loop.simps [simp del]

section \<open>Plans\<close>

text \<open>A chain of files that takes the database from TXID \<open>m\<close> upwards: each file starts at most
  one past the TXID reached and ends beyond it. \<open>end_txid\<close> is the TXID it reaches.\<close>

fun contiguous :: "u64 \<Rightarrow> file_info list \<Rightarrow> bool" where
  "contiguous m [] = True"
| "contiguous m (f # fs) \<longleftrightarrow>
     unat (MinTXID f) \<le> unat m + 1 \<and> m < MaxTXID f \<and> contiguous (MaxTXID f) fs"

fun end_txid :: "u64 \<Rightarrow> file_info list \<Rightarrow> u64" where
  "end_txid m [] = m"
| "end_txid m (f # fs) = end_txid (MaxTXID f) fs"

lemma contiguous_append [simp]:
  "contiguous m (fs @ gs) \<longleftrightarrow> contiguous m fs \<and> contiguous (end_txid m fs) gs"
  by (induction fs arbitrary: m) auto

lemma end_txid_append [simp]: "end_txid m (fs @ gs) = end_txid (end_txid m fs) gs"
  by (induction fs arbitrary: m) auto

lemma contiguous_mono: "contiguous m fs \<Longrightarrow> m \<le> end_txid m fs"
  by (induction fs arbitrary: m) (auto intro: less_imp_le order_trans)

lemma end_txid_last: "fs \<noteq> [] \<Longrightarrow> end_txid m fs = MaxTXID (last fs)"
  by (induction fs arbitrary: m) auto

section \<open>The cursor invariant\<close>

text \<open>What a cursor over the listing \<open>L\<close> knows when the plan has reached \<open>m\<close>: its candidate
  continues the plan, and every file already passed is out of the target, below \<open>m\<close> or no
  better than the candidate.\<close>

definition passed ::
  "u64 \<Rightarrow> u64 \<Rightarrow> go_time \<Rightarrow> file_info option \<Rightarrow> file_info \<Rightarrow> bool" where
  "passed m txID ts cand g \<longleftrightarrow>
     \<not> in_target txID ts g \<or> MaxTXID g \<le> m \<or> (\<exists>f. cand = Some f \<and> MaxTXID g \<le> MaxTXID f)"

definition cursor_inv ::
  "u64 \<Rightarrow> u64 \<Rightarrow> go_time \<Rightarrow> file_info list \<Rightarrow> restore_cursor \<Rightarrow> bool" where
  "cursor_inv m txID ts L c \<longleftrightarrow>
     (\<exists>seen. L = seen @ (case current c of Some f \<Rightarrow> [f] | None \<Rightarrow> []) @ itr c \<and>
        (\<forall>g \<in> set seen. passed m txID ts (candidate c) g)) \<and>
     (\<forall>f. candidate c = Some f \<longrightarrow>
        f \<in> set L \<and> in_target txID ts f \<and> unat (MinTXID f) \<le> unat m + 1) \<and>
     (is_done c \<longrightarrow> itr c = [] \<and> current c = None)"

text \<open>A refreshed cursor is at its end or stands before a file that leaves a gap.\<close>

definition settled :: "u64 \<Rightarrow> restore_cursor \<Rightarrow> bool" where
  "settled m c \<longleftrightarrow>
     (is_done c \<and> itr c = [] \<and> current c = None) \<or>
     (\<exists>f. current c = Some f \<and> MinTXID f > m + 1)"

lemma ensureCurrent_inv:
  assumes "cursor_inv m t ts L c" "ensureCurrent c = (r, c')"
  shows "cursor_inv m t ts L c'" "itr_err c' = itr_err c" "candidate c' = candidate c"
    "r = None \<and> (is_done c' \<or> current c' \<noteq> None) \<or> (r \<noteq> None \<and> r = itr_err c)"
  using assms
  by (cases "itr_err c"; auto simp: ensureCurrent_def cursor_inv_def split: if_splits list.splits)+

lemma unat_le_Suc:
  assumes "(a :: u64) \<le> m + 1"
  shows "unat a \<le> unat m + 1"
proof -
  have "unat (m + 1) \<le> unat m + 1"
    by (simp add: unat_word_ariths)
  then show ?thesis
    using assms by (simp add: word_le_nat_alt)
qed

text \<open>Reading one item: it joins the passed files, and the candidate only gets better.\<close>

lemma consider_info_inv:
  assumes i: "cursor_inv m t ts L c" "current c = Some info" "\<not> MinTXID info > m + 1"
  shows "cursor_inv m t ts L (c\<lparr>current := None, candidate := consider_info m t ts info (candidate c)\<rparr>)"
proof -
  obtain seen where L: "L = seen @ [info] @ itr c" "\<forall>g \<in> set seen. passed m t ts (candidate c) g"
    using i(1,2) by (auto simp: cursor_inv_def)
  let ?cand = "consider_info m t ts info (candidate c)"
  have "passed m t ts ?cand info"
    by (auto simp: passed_def consider_info_def restoreCandidateBetter_def split: option.splits)
  moreover have "passed m t ts ?cand g" if "g \<in> set seen" for g
    using L(2) that
    by (fastforce simp: passed_def consider_info_def restoreCandidateBetter_def split: option.splits)
  moreover have "unat (MinTXID info) \<le> unat m + 1"
    using i(3) by (intro unat_le_Suc) simp
  ultimately show ?thesis
    using i(1,2) L(1) unfolding cursor_inv_def
    by (auto simp: consider_info_def split: option.splits if_splits intro!: exI [of _ "seen @ [info]"])
qed

lemma refresh_loop_inv:
  "refresh_loop m t ts c = (r, c') \<Longrightarrow> cursor_inv m t ts L c \<Longrightarrow>
   cursor_inv m t ts L c' \<and> itr_err c' = itr_err c \<and>
   (r = None \<and> settled m c' \<or> r \<noteq> None \<and> r = itr_err c)"
proof (induction m t ts c rule: refresh_loop.induct)
  case (1 m t ts c)
  obtain e c1 where e: "ensureCurrent c = (e, c1)" by force
  note E = ensureCurrent_inv [OF 1(3) e]
  show ?case
  proof (cases "e = None \<and> \<not> is_done c1 \<and> current c1 \<noteq> None \<and> \<not> MinTXID (the (current c1)) > m + 1")
    case False
    then have "c' = c1 \<and> r = e"
      using 1(2) e by (subst (asm) refresh_loop.simps) (auto split: option.splits if_splits)
    then show ?thesis
      using E False by (auto simp: settled_def cursor_inv_def)
  next
    case True
    then obtain info where i: "current c1 = Some info" by auto
    let ?c = "c1\<lparr>current := None, candidate := consider_info m t ts info (candidate c1)\<rparr>"
    have r: "refresh_loop m t ts ?c = (r, c')"
      using 1(2) e True i by (subst (asm) refresh_loop.simps) simp
    have "cursor_inv m t ts L ?c" using consider_info_inv [OF E(1) i] True i by simp
    with 1(1) [OF e [symmetric]] True i r E(2) show ?thesis by auto
  qed
qed

lemma refresh_inv:
  assumes "refresh m t ts c = (r, c')" "cursor_inv m t ts L c"
  shows "cursor_inv m t ts L c'" "itr_err c' = itr_err c"
    "r = None \<and> settled m c' \<or> r \<noteq> None \<and> r = itr_err c"
proof -
  let ?c = "case candidate c of
      Some f \<Rightarrow> if MaxTXID f \<le> m then c\<lparr>candidate := None\<rparr> else c | None \<Rightarrow> c"
  have "cursor_inv m t ts L ?c \<and> itr_err ?c = itr_err c"
    using assms(2) by (fastforce simp: cursor_inv_def passed_def split: option.splits)
  then have "cursor_inv m t ts L c' \<and> itr_err c' = itr_err c \<and>
    (r = None \<and> settled m c' \<or> r \<noteq> None \<and> r = itr_err c)"
    using assms refresh_loop_inv [of m t ts ?c r c' L]
    by (auto simp: refresh_def settled_def cursor_inv_def split: if_splits)
  then show "cursor_inv m t ts L c'" "itr_err c' = itr_err c"
    "r = None \<and> settled m c' \<or> r \<noteq> None \<and> r = itr_err c" by simp_all
qed

lemma cursor_inv_change:
  assumes i: "cursor_inv m t ts L c" and m: "m \<le> m'"
    and p: "\<And>g. passed m t ts (candidate c) g \<Longrightarrow> passed m' t ts cand g"
    and n: "\<And>f. cand = Some f \<Longrightarrow> candidate c = Some f"
  shows "cursor_inv m' t ts L (c\<lparr>candidate := cand\<rparr>)"
proof -
  obtain seen where L: "L = seen @ (case current c of Some f \<Rightarrow> [f] | None \<Rightarrow> []) @ itr c"
    and s: "\<forall>g \<in> set seen. passed m t ts (candidate c) g"
    and f: "\<And>f. candidate c = Some f \<Longrightarrow>
      f \<in> set L \<and> in_target t ts f \<and> unat (MinTXID f) \<le> unat m + 1"
    and d: "is_done c \<longrightarrow> itr c = [] \<and> current c = None"
    using i unfolding cursor_inv_def by blast
  have "unat m \<le> unat m'" using m by (simp add: word_le_nat_alt)
  then have f': "f \<in> set L \<and> in_target t ts f \<and> unat (MinTXID f) \<le> unat m' + 1"
    if "cand = Some f" for f
    using f [OF n [OF that]] by linarith
  have s': "\<forall>g \<in> set seen. passed m' t ts cand g" using s p by blast
  show ?thesis
    unfolding cursor_inv_def
  proof (intro conjI)
    show "\<exists>seen. L = seen @ (case current (c\<lparr>candidate := cand\<rparr>) of Some f \<Rightarrow> [f] | None \<Rightarrow> []) @
        itr (c\<lparr>candidate := cand\<rparr>) \<and>
        (\<forall>g \<in> set seen. passed m' t ts (candidate (c\<lparr>candidate := cand\<rparr>)) g)"
      using L s' by (intro exI [of _ seen]) simp
  qed (use f' d in simp_all)
qed

lemma cursor_inv_mono:
  "cursor_inv m t ts L c \<Longrightarrow> m \<le> m' \<Longrightarrow> cursor_inv m' t ts L c"
  using cursor_inv_change [of m t ts L c m' "candidate c"]
  by (auto simp: passed_def intro: order_trans)

lemma cursor_inv_clear:
  "cursor_inv m t ts L c \<Longrightarrow> candidate c = Some f \<Longrightarrow> MaxTXID f \<le> m' \<Longrightarrow> m \<le> m' \<Longrightarrow>
   cursor_inv m' t ts L (c\<lparr>candidate := None\<rparr>)"
  by (erule cursor_inv_change) (auto simp: passed_def intro: order_trans)

text \<open>The invariant over all cursors, and through the main loop.\<close>

definition cursors_inv ::
  "u64 \<Rightarrow> u64 \<Rightarrow> go_time \<Rightarrow> file_info list list \<Rightarrow> restore_cursor list \<Rightarrow> bool" where
  "cursors_inv m t ts Ls cs \<longleftrightarrow>
     length Ls = length cs \<and> (\<forall>j < length cs. cursor_inv m t ts (Ls ! j) (cs ! j))"

lemma cursors_inv_select:
  assumes "cursors_inv m t ts Ls cs" "select_cursor m t ts 0 cs None = Inr (cs', r)"
  shows "cursors_inv m t ts Ls cs'" "\<forall>c \<in> set cs'. settled m c"
    "map itr_err cs' = map itr_err cs"
proof -
  note S = select_cursor_spec [OF assms(2)]
  have R: "refresh m t ts (cs ! j) = (None, cs' ! j)" "cursor_inv m t ts (Ls ! j) (cs ! j)"
    if "j < length cs" for j
    using S assms(1) that by (auto simp: cursors_inv_def)
  note I = refresh_inv [OF R]
  show "cursors_inv m t ts Ls cs'"
    using I(1) S assms(1) by (simp add: cursors_inv_def)
  show "\<forall>c \<in> set cs'. settled m c"
    using I(3) S by (fastforce simp: in_set_conv_nth)
  show "map itr_err cs' = map itr_err cs"
    using I(2) S by (intro nth_equalityI) auto
qed

lemma cursors_inv_clear:
  assumes "cursors_inv m t ts Ls cs" "i < length cs" "candidate (cs ! i) = Some f"
    "MaxTXID f \<le> m'" "m \<le> m'"
  shows "cursors_inv m' t ts Ls (clear_candidate i cs)"
  using assms cursor_inv_clear [of m t ts "Ls ! i" "cs ! i" f m'] cursor_inv_mono [of m t ts _ _ m']
  by (auto simp: cursors_inv_def clear_candidate_def nth_list_update)

text \<open>Errors of the loop come from the iterators.\<close>

lemma select_cursor_ok:
  assumes "\<forall>c \<in> set cs. itr_err c = None"
    and "length Ls = length cs \<and> (\<forall>j < length cs. cursor_inv m t ts (Ls ! j) (cs ! j))"
  shows "\<exists>x. select_cursor m t ts i cs nxt = Inr x"
  using assms
proof (induction cs arbitrary: i nxt Ls)
  case (Cons c cs)
  obtain L Ls' where L: "Ls = L # Ls'" using Cons.prems(2) by (cases Ls) auto
  have c: "cursor_inv m t ts L c" using Cons.prems(2) L by fastforce
  have cs: "length Ls' = length cs \<and> (\<forall>j < length cs. cursor_inv m t ts (Ls' ! j) (cs ! j))"
    using Cons.prems(2) L by fastforce
  obtain r c1 where r: "refresh m t ts c = (r, c1)" by force
  have "r = None" using refresh_inv(3) [OF r c] Cons.prems(1) by auto
  moreover obtain x where "select_cursor m t ts (Suc i) cs (case candidate c1 of
      None \<Rightarrow> nxt | Some f \<Rightarrow> (case nxt of None \<Rightarrow> Some (i, f)
        | Some (_, g) \<Rightarrow> if restoreCandidateBetter g f then Some (i, f) else nxt)) = Inr x"
    using Cons.IH [OF _ cs] Cons.prems(1) by fastforce
  ultimately show ?case by (simp add: r Let_def split: prod.split)
qed simp


text \<open>No file of the listings continues a plan that has reached \<open>m\<close>.\<close>

definition exhausted :: "u64 \<Rightarrow> u64 \<Rightarrow> go_time \<Rightarrow> file_info list list \<Rightarrow> bool" where
  "exhausted m t ts Ls \<longleftrightarrow>
     (\<forall>g \<in> set (concat Ls). in_target t ts g \<longrightarrow> MaxTXID g \<le> m \<or> MinTXID g > m + 1)"

lemma settled_exhausted:
  assumes "cursors_inv m t ts Ls cs" "\<forall>c \<in> set cs. settled m c \<and> candidate c = None"
    and "\<forall>L \<in> set Ls. sorted (map MinTXID L)"
  shows "exhausted m t ts Ls"
  unfolding exhausted_def
proof (intro ballI impI)
  fix g assume g: "g \<in> set (concat Ls)" and e: "in_target t ts g"
  then obtain L where "L \<in> set Ls" "g \<in> set L" by auto
  then obtain j where j: "j < length cs" "g \<in> set (Ls ! j)"
    using assms(1) by (auto simp: cursors_inv_def in_set_conv_nth [of L Ls])
  let ?c = "cs ! j"
  have c: "settled m ?c" "candidate ?c = None" "cursor_inv m t ts (Ls ! j) ?c"
    "sorted (map MinTXID (Ls ! j))"
    using assms j by (auto simp: cursors_inv_def)
  obtain seen where L: "Ls ! j = seen @ (case current ?c of Some f \<Rightarrow> [f] | None \<Rightarrow> []) @ itr ?c"
    and s: "\<forall>g \<in> set seen. passed m t ts None g"
    using c(2,3) by (auto simp: cursor_inv_def)
  show "MaxTXID g \<le> m \<or> MinTXID g > m + 1"
  proof (cases "g \<in> set seen")
    case True
    then show ?thesis using s e by (auto simp: passed_def)
  next
    case False
    with c(1) L j(2) obtain f where f: "current ?c = Some f" "MinTXID f > m + 1"
      by (auto simp: settled_def)
    then have "MinTXID f \<le> MinTXID g"
      using False L j(2) c(4) by (auto simp: sorted_append)
    then show ?thesis using f(2) by auto
  qed
qed

lemma restore_loop_sound:
  assumes "restore_loop t ts m infos cs = Inr (infos', m', cs')"
    and "cursors_inv m t ts Ls cs"
  shows "\<exists>ext. infos' = infos @ ext \<and> contiguous m ext \<and> end_txid m ext = m' \<and>
      set ext \<subseteq> set (concat Ls) \<and> (\<forall>f \<in> set ext. in_target t ts f) \<and>
      ((t \<noteq> 0 \<and> t \<le> m') \<or>
       ((\<forall>L \<in> set Ls. sorted (map MinTXID L)) \<longrightarrow> exhausted m' t ts Ls) \<and>
       cursors_inv m' t ts Ls cs' \<and> (\<forall>c \<in> set cs'. settled m' c \<and> candidate c = None))"
  using assms(1,2)
proof (induction t ts m infos cs arbitrary: infos' m' cs' rule: restore_loop.induct)
  case (1 t ts m infos cs)
  obtain cs1 r where s: "select_cursor m t ts 0 cs None = Inr (cs1, r)"
    using 1(3) by (subst (asm) restore_loop.simps) (auto split: sum.splits)
  note S = select_cursor_spec [OF s] and I = cursors_inv_select [OF 1(4) s]
  show ?case
  proof (cases r)
    case None
    then have x: "infos' = infos" "m' = m" "cs' = cs1"
      using 1(3) s by (subst (asm) restore_loop.simps, simp)+
    have "candidate (cs1 ! j) = None" if "j < length cs" for j
      using S None that by (cases "candidate (cs1 ! j)") auto
    then have c: "\<forall>c \<in> set cs1. settled m c \<and> candidate c = None"
      using I(2) S by (auto simp: in_set_conv_nth)
    show ?thesis
      using settled_exhausted [OF I(1) c] I(1) c x by (intro exI [of _ "[]"]) auto
  next
    case (Some x)
    then obtain i f where r: "r = Some (i, f)" by force
    have i: "i < length cs1" "candidate (cs1 ! i) = Some f" using S r by auto
    have f: "f \<in> set (concat Ls)" "in_target t ts f" "unat (MinTXID f) \<le> unat m + 1"
      using I(1) i unfolding cursors_inv_def cursor_inv_def by (metis UN_I nth_mem set_concat)+
    show ?thesis
    proof (cases "MaxTXID f \<le> m")
      case True
      have "restore_loop t ts m infos (clear_candidate i cs1) = Inr (infos', m', cs')"
        using 1(3) s r True by (subst (asm) restore_loop.simps) simp
      from 1(1) [OF s [unfolded r] refl refl refl True this cursors_inv_clear [OF I(1) i True order_refl]]
      show ?thesis .
    next
      case False
      then have lt: "m < MaxTXID f" by simp
      show ?thesis
      proof (cases "t \<noteq> 0 \<and> MaxTXID f \<ge> t")
        case True
        then have "infos' = infos @ [f]" "m' = MaxTXID f"
          using 1(3) s r False by (subst (asm) restore_loop.simps, simp)+
        then show ?thesis using f lt True by (intro exI [of _ "[f]"]) auto
      next
        case nt: False
        have "restore_loop t ts (MaxTXID f) (infos @ [f]) (clear_candidate i cs1) = Inr (infos', m', cs')"
          using 1(3) s r False nt by (subst (asm) restore_loop.simps) auto
        from 1(2) [OF s [unfolded r] refl refl refl False nt this
            cursors_inv_clear [OF I(1) i order_refl less_imp_le [OF lt]]]
        obtain ext where ext: "infos' = (infos @ [f]) @ ext" "contiguous (MaxTXID f) ext"
          "end_txid (MaxTXID f) ext = m'" "set ext \<subseteq> set (concat Ls)"
          "\<forall>f \<in> set ext. in_target t ts f"
          "(t \<noteq> 0 \<and> t \<le> m') \<or>
             ((\<forall>L \<in> set Ls. sorted (map MinTXID L)) \<longrightarrow> exhausted m' t ts Ls) \<and>
             cursors_inv m' t ts Ls cs' \<and> (\<forall>c \<in> set cs'. settled m' c \<and> candidate c = None)"
          by auto
        then show ?thesis using f lt by (intro exI [of _ "f # ext"]) auto
      qed
    qed
  qed
qed

lemma restore_loop_ok:
  assumes "cursors_inv m t ts Ls cs" "\<forall>c \<in> set cs. itr_err c = None"
  shows "\<exists>x. restore_loop t ts m infos cs = Inr x"
  using assms
proof (induction t ts m infos cs rule: restore_loop.induct)
  case (1 t ts m infos cs)
  obtain cs1 r where s: "select_cursor m t ts 0 cs None = Inr (cs1, r)"
    using select_cursor_ok [of cs Ls m t ts 0 None] 1(3,4) by (force simp: cursors_inv_def)
  note S = select_cursor_spec [OF s] and I = cursors_inv_select [OF 1(3) s]
  have e: "\<forall>c \<in> set cs1. itr_err c = None"
    using I(3) 1(4) by (metis (no_types, lifting) image_eqI image_iff list.set_map)
  show ?case
  proof (cases r)
    case None
    then show ?thesis using s by (subst restore_loop.simps) simp
  next
    case (Some x)
    then obtain i f where r: "r = Some (i, f)" by force
    have i: "i < length cs1" "candidate (cs1 ! i) = Some f" using S r by auto
    have e': "\<forall>c \<in> set (clear_candidate i cs1). itr_err c = None"
      using e i(1) set_update_subset_insert [of cs1 i] by (fastforce simp: clear_candidate_def)
    show ?thesis
      using 1(1) [OF s [unfolded r] refl refl refl] 1(2) [OF s [unfolded r] refl refl refl] r e'
        cursors_inv_clear [OF I(1) i, of m] cursors_inv_clear [OF I(1) i, of "MaxTXID f"] s
      by (subst restore_loop.simps) (auto simp: not_le intro: less_imp_le)
  qed
qed


section \<open>The plan\<close>

definition listing :: "ltx_lister \<Rightarrow> bool \<Rightarrow> int \<Rightarrow> file_info list" where
  "listing client um level = (case client level 0 um of Inr it \<Rightarrow> it_items it | Inl _ \<Rightarrow> [])"

definition plan_levels :: "int list" where
  "plan_levels = [8, 7, 6, 5, 4, 3, 2, 1, 0]"

definition level_files :: "ltx_lister \<Rightarrow> go_time \<Rightarrow> file_info list" where
  "level_files client ts = concat (map (listing client (\<not> time_IsZero ts)) plan_levels)"

text \<open>A replica whose listings succeed and come in the order of their first TXID, as the interface
  promises.\<close>

definition lister_ok :: "ltx_lister \<Rightarrow> bool" where
  "lister_ok client \<longleftrightarrow>
     (\<forall>um. \<forall>level \<in> set (9 # plan_levels). \<exists>it. client level 0 um = Inr it \<and> it_err it = None \<and>
        it_close it = None \<and> sorted (map MinTXID (it_items it)))"

lemma lister_okD:
  assumes "lister_ok client" "level \<in> set (9 # plan_levels)"
  shows "\<exists>it. client level 0 um = Inr it \<and> it_err it = None \<and> it_close it = None"
    "sorted (map MinTXID (listing client um level))"
proof -
  obtain it where "client level 0 um = Inr it \<and> it_err it = None \<and> it_close it = None \<and>
      sorted (map MinTXID (it_items it))"
    using assms unfolding lister_ok_def by blast
  then show "\<exists>it. client level 0 um = Inr it \<and> it_err it = None \<and> it_close it = None"
    "sorted (map MinTXID (listing client um level))"
    by (auto simp: listing_def)
qed

text \<open>What \<open>ltx.FileInfoSlice.MaxTXID\<close> returns on slices of increasing TXIDs.\<close>

definition slice_max_law :: "(file_info list \<Rightarrow> u64) \<Rightarrow> bool" where
  "slice_max_law mx \<longleftrightarrow>
     mx [] = 0 \<and>
     (\<forall>fs f. (\<forall>g \<in> set fs. MaxTXID g < MaxTXID f) \<longrightarrow> mx (fs @ [f]) = MaxTXID f)"

text \<open>The snapshot a plan starts with: the last one listed that is within the target.\<close>

definition plan_start :: "ltx_lister \<Rightarrow> u64 \<Rightarrow> go_time \<Rightarrow> file_info list" where
  "plan_start client t ts =
     (case filter (in_target t ts) (listing client (\<not> time_IsZero ts) SnapshotLevel) of
        [] \<Rightarrow> [] | S \<Rightarrow> [last S])"

lemma find_snapshot_last:
  "find_snapshot t ts items s =
     (case filter (in_target t ts) items of [] \<Rightarrow> s | S \<Rightarrow> Some (last S))"
  by (induction items arbitrary: s) (auto simp: in_target_def split: list.splits)

lemma plan_start_find:
  "(case find_snapshot t ts (listing client (\<not> time_IsZero ts) SnapshotLevel) None of
      Some f \<Rightarrow> [f] | None \<Rightarrow> []) = plan_start client t ts"
  by (simp add: find_snapshot_last plan_start_def split: list.splits)

lemma plan_start_cases:
  obtains "plan_start client t ts = []"
  | f where "plan_start client t ts = [f]" "in_target t ts f"
      "f \<in> set (listing client (\<not> time_IsZero ts) SnapshotLevel)"
proof (cases "filter (in_target t ts) (listing client (\<not> time_IsZero ts) SnapshotLevel)")
  case (Cons a S)
  then have "last (a # S) \<in> set (filter (in_target t ts) (listing client (\<not> time_IsZero ts) SnapshotLevel))"
    by (metis last_in_set list.distinct(1))
  then have l: "in_target t ts (last (a # S))"
    "last (a # S) \<in> set (listing client (\<not> time_IsZero ts) SnapshotLevel)" by auto
  have "plan_start client t ts = [last (a # S)]" by (simp only: plan_start_def Cons list.case)
  from this l show thesis by (rule that(2))
qed (use that(1) in \<open>simp add: plan_start_def\<close>)

lemma slice_max_last:
  assumes "slice_max_law mx" "contiguous m fs" "fs \<noteq> []"
  shows "mx fs = MaxTXID (last fs)"
proof -
  obtain gs f where f: "fs = gs @ [f]" using assms(3) by (metis rev_exhaust)
  have c: "contiguous m gs" "end_txid m gs < MaxTXID f" using assms(2) f by simp_all
  have "\<forall>g \<in> set gs. MaxTXID g \<le> end_txid m gs"
    using c(1) by (induction gs arbitrary: m) (auto intro: contiguous_mono)
  then have "\<forall>g \<in> set gs. MaxTXID g < MaxTXID f" using c(2) by (auto intro: le_less_trans)
  then show ?thesis using assms(1) f by (simp add: slice_max_law_def)
qed

lemma slice_max_plan:
  assumes "slice_max_law mx" "length start \<le> 1" "contiguous (end_txid 0 start) ext"
  shows "mx (start @ ext) = end_txid 0 (start @ ext)"
proof (cases "ext = []")
  case True
  then show ?thesis
    using assms(1,2) slice_max_law_def [of mx] by (cases start) (auto dest: spec [of _ "[]"])
next
  case False
  then obtain gs f where f: "ext = gs @ [f]" by (metis rev_exhaust)
  have "\<forall>g \<in> set gs. MaxTXID g \<le> end_txid m gs" if "contiguous m gs" for m
    using that by (induction gs arbitrary: m) (auto intro: contiguous_mono)
  then have "\<forall>g \<in> set (start @ gs). MaxTXID g < MaxTXID f"
    using assms(2,3) f contiguous_mono [of "end_txid 0 start" gs]
    by (cases start) (auto intro: le_less_trans)
  then show ?thesis
    using assms(1) f by (simp add: slice_max_law_def flip: append_assoc)
qed

lemma open_cursors_inv:
  "open_cursors client um levels = Inr cs \<Longrightarrow>
   cursors_inv m t ts (map (listing client um) levels) cs"
proof (induction levels arbitrary: cs)
  case (Cons l levels)
  then obtain it cs1 where it: "client l 0 um = Inr it" "open_cursors client um levels = Inr cs1"
    "cs = \<lparr>itr = it_items it, itr_err = it_err it, current = None, candidate = None,
        is_done = False\<rparr> # cs1"
    by (auto split: sum.splits simp: bindR_Inr_iff)
  show ?case
    using Cons.IH [OF it(2)]
    by (auto simp: cursors_inv_def it nth_Cons' cursor_inv_def listing_def less_Suc_eq_0_disj)
qed (simp add: cursors_inv_def)

lemma open_cursors_ok:
  assumes "lister_ok client" "set levels \<subseteq> set plan_levels"
  shows "\<exists>cs. open_cursors client um levels = Inr cs \<and> (\<forall>c \<in> set cs. itr_err c = None)"
  using assms(2)
proof (induction levels)
  case (Cons l levels)
  obtain it where "client l 0 um = Inr it" "it_err it = None"
    using assms(1) Cons.prems unfolding lister_ok_def by (metis insert_subset list.set_intros(2) list.simps(15))
  then show ?case using Cons by auto
qed simp


text \<open>The gap check: when it passes, the settled cursors have nothing left.\<close>

lemma gap_check_done:
  assumes "gap_check m cs = None" "\<forall>c \<in> set cs. settled m c"
  shows "\<forall>c \<in> set cs. itr c = [] \<and> current c = None"
  using assms
proof (induction cs)
  case (Cons c cs)
  have "is_done c \<and> itr c = [] \<and> current c = None"
    using Cons.prems by (auto simp: settled_def ensureCurrent_def split: if_splits)
  then show ?case
    using Cons by (simp add: ensureCurrent_def)
qed simp

lemma gap_check_covers:
  assumes "gap_check m cs = None" "cursors_inv m t ts Ls cs"
    and "\<forall>c \<in> set cs. settled m c \<and> candidate c = None"
    and "f \<in> set (concat Ls)" "in_target t ts f"
  shows "MaxTXID f \<le> m"
proof -
  from assms(4) obtain L where "L \<in> set Ls" "f \<in> set L" by auto
  then obtain j where j: "j < length cs" "f \<in> set (Ls ! j)"
    using assms(2) by (auto simp: cursors_inv_def in_set_conv_nth [of L Ls])
  let ?c = "cs ! j"
  have c: "candidate ?c = None" "itr ?c = []" "current ?c = None" "cursor_inv m t ts (Ls ! j) ?c"
    using gap_check_done [of m cs] assms j by (auto simp: cursors_inv_def)
  show ?thesis
    using c j(2) assms(5) by (auto simp: cursor_inv_def passed_def)
qed

lemma CalcRestorePlan_unfold:
  assumes it: "client SnapshotLevel 0 (\<not> time_IsZero ts) = Inr it" and "it_close it = None"
    and "t = 0 \<or> ts = 0"
  shows "CalcRestorePlan mx client t ts =
    (if t \<noteq> 0 \<and> mx (plan_start client t ts) \<ge> t then Inr (plan_start client t ts)
     else bindR (open_cursors client (\<not> time_IsZero ts) plan_levels) (\<lambda>cursors.
       bindR (restore_loop t ts (mx (plan_start client t ts)) (plan_start client t ts) cursors)
         (\<lambda>(infos, currentMax, cursors').
           case (if infos \<noteq> [] \<and> t = 0 \<and> time_IsZero ts then gap_check currentMax cursors' else None) of
             Some e \<Rightarrow> Inl e
           | None \<Rightarrow>
               if infos = [] then Inl ErrTxNotAvailable
               else if t \<noteq> 0 \<and> mx infos < t then Inl ErrTxNotAvailable
               else Inr infos)))"
proof -
  have st: "(case find_snapshot t ts (it_items it) None of Some f \<Rightarrow> [f] | None \<Rightarrow> []) =
      plan_start client t ts"
    using plan_start_find [of t ts client] it by (simp add: listing_def)
  show ?thesis
    unfolding CalcRestorePlan_def it bindR_simps st Let_def plan_levels_def assms(2)
    using assms(3) by (simp only: option.case) auto
qed

text \<open>The anatomy of a successful plan, on which the properties rest.\<close>

lemma CalcRestorePlan_anatomy:
  assumes c: "CalcRestorePlan mx client t ts = Inr plan" and mx: "slice_max_law mx"
  obtains ext where "plan = plan_start client t ts @ ext" "plan \<noteq> []"
    "contiguous (end_txid 0 (plan_start client t ts)) ext"
    "set ext \<subseteq> set (level_files client ts)" "\<forall>f \<in> set ext. in_target t ts f"
    "t = 0 \<or> ts = 0" "t \<noteq> 0 \<longrightarrow> MaxTXID (last plan) = t"
    "t = 0 \<and> lister_ok client \<longrightarrow>
       exhausted (end_txid 0 plan) t ts (map (listing client (\<not> time_IsZero ts)) plan_levels)"
    "t = 0 \<and> ts = 0 \<and> lister_ok client \<longrightarrow>
       (\<forall>f \<in> set (level_files client ts). MaxTXID f \<le> end_txid 0 plan)"
proof -
  let ?um = "\<not> time_IsZero ts" and ?start = "plan_start client t ts"
  let ?Ls = "map (listing client ?um) plan_levels"
  let ?m = "end_txid 0 ?start"
  have tz: "t = 0 \<or> ts = 0" using c by (auto simp: CalcRestorePlan_def split: if_splits)
  obtain it where it: "client SnapshotLevel 0 ?um = Inr it"
    using c by (auto simp: CalcRestorePlan_def bindR_Inr_iff split: if_splits)
  have cl: "it_close it = None"
    using c it by (cases "it_close it") (auto simp: CalcRestorePlan_def Let_def split: if_splits)
  note d = c [unfolded CalcRestorePlan_unfold [of client ts it t mx, OF it cl tz]]
  have len: "length ?start \<le> 1" by (rule plan_start_cases [of client t ts]) simp_all
  have mxs: "mx (?start @ ext) = end_txid 0 (?start @ ext)" if "contiguous ?m ext" for ext
    by (rule slice_max_plan [OF mx len that])
  have starget: "in_target t ts f" if "f \<in> set ?start" for f
    by (rule plan_start_cases [of client t ts]) (use that in auto)
  have mx0: "mx ?start = ?m" using mxs [of "[]"] by simp
  show thesis
  proof (cases "t \<noteq> 0 \<and> mx ?start \<ge> t")
    case True
    then have p: "plan = ?start"
      using d by simp
    have "?start \<noteq> []" using True mx by (auto simp: slice_max_law_def)
    then have "MaxTXID (last ?start) = t"
      using True mx0 end_txid_last [of ?start 0] starget [of "last ?start"]
      by (auto simp: in_target_def)
    then show ?thesis
      using True p tz \<open>?start \<noteq> []\<close> by (intro that [of "[]"]) auto
  next
    case False
    then obtain cs infos m' cs' where o: "open_cursors client ?um plan_levels = Inr cs"
      and r: "restore_loop t ts ?m ?start cs = Inr (infos, m', cs')"
      and g: "infos \<noteq> [] \<and> t = 0 \<and> time_IsZero ts \<Longrightarrow> gap_check m' cs' = None"
      and ne: "infos \<noteq> []" "\<not> (t \<noteq> 0 \<and> mx infos < t)" and p: "plan = infos"
      using d unfolding mx0 by (auto simp: bindR_Inr_iff split: option.splits if_splits)
    note i = open_cursors_inv [OF o, of ?m t ts]
    obtain ext where e: "infos = ?start @ ext" "contiguous ?m ext" "end_txid ?m ext = m'"
      "set ext \<subseteq> set (concat ?Ls)" "\<forall>f \<in> set ext. in_target t ts f"
      and x: "t \<noteq> 0 \<and> t \<le> m' \<or>
        ((\<forall>L \<in> set ?Ls. sorted (map MinTXID L)) \<longrightarrow> exhausted m' t ts ?Ls) \<and>
        cursors_inv m' t ts ?Ls cs' \<and> (\<forall>c \<in> set cs'. settled m' c \<and> candidate c = None)"
      using restore_loop_sound [OF r i] by blast
    have m': "end_txid 0 plan = m'" using e p by simp
    have tgt: "in_target t ts f" if "f \<in> set plan" for f
      using that e(1,5) starget p by auto
    have srt: "\<forall>L \<in> set ?Ls. sorted (map MinTXID L)" if "lister_ok client"
      using lister_okD(2) [OF that, of _ ?um] by auto
    have last: "MaxTXID (last plan) = t" if "t \<noteq> 0"
    proof -
      have "plan \<noteq> []" "\<not> mx plan < t" "mx plan = end_txid 0 plan"
        using that ne p mxs [OF e(2)] e(1) by simp_all
      moreover from this have "in_target t ts (last plan)" by (simp add: tgt)
      ultimately show ?thesis using that end_txid_last [of plan 0] by (simp add: in_target_def)
    qed
    have ex: "exhausted m' t ts ?Ls" if "t = 0" "lister_ok client" using x srt that by blast
    have all: "MaxTXID f \<le> m'"
      if t: "t = 0" "ts = 0" "lister_ok client" and f: "f \<in> set (level_files client ts)" for f
    proof -
      have f': "in_target t ts f" "f \<in> set (concat ?Ls)"
        using t f by (auto simp: in_target_def level_files_def)
      have "gap_check m' cs' = None" "\<not> (t \<noteq> 0 \<and> t \<le> m')" using g ne t by simp_all
      then show ?thesis using gap_check_covers [of m' cs' t ts ?Ls f] x f' by blast
    qed
    show ?thesis
      using e p ne tz last ex all m' by (intro that [of ext]) (auto simp: level_files_def)
  qed
qed


lemma CalcRestorePlan_sound':
  assumes "CalcRestorePlan mx client t ts = Inr plan" "slice_max_law mx"
  shows "plan \<noteq> [] \<and> (\<exists>ext. plan = plan_start client t ts @ ext \<and>
      contiguous (end_txid 0 (plan_start client t ts)) ext \<and>
      set ext \<subseteq> set (level_files client ts)) \<and>
    (\<forall>f \<in> set plan. in_target t ts f) \<and>
    (t \<noteq> 0 \<longrightarrow> ts = 0 \<and> MaxTXID (last plan) = t)"
proof -
  obtain ext where "plan = plan_start client t ts @ ext" "plan \<noteq> []"
    "contiguous (end_txid 0 (plan_start client t ts)) ext"
    "set ext \<subseteq> set (level_files client ts)" "\<forall>f \<in> set ext. in_target t ts f"
    "t = 0 \<or> ts = 0" "t \<noteq> 0 \<longrightarrow> MaxTXID (last plan) = t"
    by (rule CalcRestorePlan_anatomy [OF assms])
  moreover have "\<forall>f \<in> set (plan_start client t ts). in_target t ts f"
    by (rule plan_start_cases [of client t ts]) auto
  ultimately show ?thesis by auto
qed

text \<open>C5: A restore plan is sound, whatever the listings hold: it is a snapshot within the target,
  if one is listed, followed by files of the levels 0 to 8 that continue it without a gap, each
  reaching beyond the one before; every file is within the target; and a plan for a TXID ends
  exactly at it. An overlap or a gap never reaches the restorer.\<close>

theorem CalcRestorePlan_sound:
  assumes "CalcRestorePlan mx client t ts = Inr plan" "slice_max_law mx"
  shows "plan \<noteq> [] \<and> (\<exists>ext. plan = plan_start client t ts @ ext \<and>
      contiguous (end_txid 0 (plan_start client t ts)) ext \<and>
      set ext \<subseteq> set (level_files client ts)) \<and>
    (\<forall>f \<in> set plan. in_target t ts f) \<and>
    (t \<noteq> 0 \<longrightarrow> ts = 0 \<and> MaxTXID (last plan) = t)"
  using assms by (rule CalcRestorePlan_sound')

text \<open>A chain of eligible files cannot leave the reach of an exhausted plan.\<close>

lemma exhausted_chain:
  assumes "exhausted m t ts Ls" "set ext \<subseteq> set (concat Ls)" "\<forall>f \<in> set ext. in_target t ts f"
    and "contiguous s ext" "s \<le> m"
  shows "end_txid s ext \<le> m"
  using assms(2-)
proof (induction ext arbitrary: s)
  case (Cons f ext)
  have "unat (MinTXID f) \<le> unat m + 1"
    using Cons.prems by (simp add: word_le_nat_alt)
  then have "\<not> MinTXID f > 1 + m \<or> 1 + m = 0"
    using unatSuc [of m] by (cases "1 + m = 0") (auto simp: word_less_nat_alt)
  then have "\<not> MinTXID f > m + 1 \<or> m = - 1"
    by (simp add: add.commute add_eq_0_iff)
  then have "MaxTXID f \<le> m"
    using assms(1) Cons.prems by (auto simp: exhausted_def)
  with Cons show ?case by simp
qed simp

text \<open>C23: A plan reaches as far as the replica allows: when the listings come without errors and
  sorted by first TXID, no chain of files within the target that continues the plan's snapshot
  ends beyond the plan; and a plan for the newest state reaches the last TXID of every file of
  the levels 0 to 8, so a file that lies beyond a gap is an error and never dropped.\<close>

theorem CalcRestorePlan_maximal:
  assumes "CalcRestorePlan mx client t ts = Inr plan" "slice_max_law mx" "lister_ok client"
  shows "(\<forall>ext. set ext \<subseteq> set (level_files client ts) \<and> (\<forall>f \<in> set ext. in_target t ts f) \<and>
       contiguous (end_txid 0 (plan_start client t ts)) ext \<longrightarrow>
       end_txid (end_txid 0 (plan_start client t ts)) ext \<le> MaxTXID (last plan)) \<and>
    (t = 0 \<and> ts = 0 \<longrightarrow> (\<forall>f \<in> set (level_files client ts). MaxTXID f \<le> MaxTXID (last plan)))"
proof -
  let ?s = "end_txid 0 (plan_start client t ts)"
  let ?Ls = "map (listing client (\<not> time_IsZero ts)) plan_levels"
  obtain ext0 where p: "plan = plan_start client t ts @ ext0" "plan \<noteq> []"
    "contiguous ?s ext0" "set ext0 \<subseteq> set (level_files client ts)"
    "\<forall>f \<in> set ext0. in_target t ts f" "t = 0 \<or> ts = 0" "t \<noteq> 0 \<longrightarrow> MaxTXID (last plan) = t"
    "t = 0 \<and> lister_ok client \<longrightarrow> exhausted (end_txid 0 plan) t ts ?Ls"
    "t = 0 \<and> ts = 0 \<and> lister_ok client \<longrightarrow>
       (\<forall>f \<in> set (level_files client ts). MaxTXID f \<le> end_txid 0 plan)"
    by (rule CalcRestorePlan_anatomy [OF assms(1,2)])
  have e: "end_txid 0 plan = MaxTXID (last plan)" by (rule end_txid_last [OF p(2)])
  have s: "?s \<le> MaxTXID (last plan)"
    using contiguous_mono [OF p(3)] p(1) e by simp
  have "end_txid ?s ext \<le> MaxTXID (last plan)"
    if x: "set ext \<subseteq> set (level_files client ts)" "\<forall>f \<in> set ext. in_target t ts f" "contiguous ?s ext"
    for ext
  proof (cases "t = 0")
    case True
    then show ?thesis
      using exhausted_chain [OF p(8) [rule_format, OF conjI [OF True assms(3)]] _ x(2,3)] x(1) e s
      by (simp add: level_files_def)
  next
    case False
    then show ?thesis
      using x(2) [rule_format, of "last ext"] s end_txid_last [of ext ?s] p(7)
      by (cases "ext = []") (auto simp: in_target_def)
  qed
  then show ?thesis using p(9) assms(3) e by auto
qed


lemma CalcRestorePlan_outcome:
  assumes ok: "lister_ok client" and mx: "slice_max_law mx" and t: "t \<noteq> 0" "ts = 0"
  shows "CalcRestorePlan mx client t ts = Inl ErrTxNotAvailable \<or>
    (\<exists>plan. CalcRestorePlan mx client t ts = Inr plan)"
    and "CalcRestorePlan mx client t ts = Inl ErrTxNotAvailable \<Longrightarrow>
      end_txid 0 (plan_start client t ts) < t \<and>
      (\<exists>m. m < t \<and> end_txid 0 (plan_start client t ts) \<le> m \<and>
         exhausted m t ts (map (listing client (\<not> time_IsZero ts)) plan_levels))"
proof -
  let ?um = "\<not> time_IsZero ts" and ?start = "plan_start client t ts"
  let ?Ls = "map (listing client ?um) plan_levels"
  let ?m = "end_txid 0 ?start"
  obtain it where it: "client SnapshotLevel 0 ?um = Inr it" "it_close it = None"
    using lister_okD(1) [OF ok, of SnapshotLevel ?um] by (auto simp: SnapshotLevel_def)
  note U = CalcRestorePlan_unfold [of client ts it t mx, OF it, simplified t(2) simp_thms]
  have len: "length ?start \<le> 1" by (rule plan_start_cases [of client t ts]) simp_all
  have mxs: "mx (?start @ ext) = end_txid 0 (?start @ ext)" if "contiguous ?m ext" for ext
    by (rule slice_max_plan [OF mx len that])
  have mx0: "mx ?start = ?m" using mxs [of "[]"] by simp
  obtain cs where o: "open_cursors client ?um plan_levels = Inr cs" "\<forall>c \<in> set cs. itr_err c = None"
    using open_cursors_ok [OF ok, of plan_levels ?um] by blast
  note i = open_cursors_inv [OF o(1), of ?m t ts]
  obtain infos m' cs' where r: "restore_loop t ts ?m ?start cs = Inr (infos, m', cs')"
    using restore_loop_ok [OF i o(2), of ?start] by (metis prod_cases3)
  have srt: "\<forall>L \<in> set ?Ls. sorted (map MinTXID L)" using lister_okD(2) [OF ok, of _ ?um] by auto
  obtain ext where e: "infos = ?start @ ext" "contiguous ?m ext" "end_txid ?m ext = m'"
    "t \<le> m' \<or> exhausted m' t ts ?Ls"
    using restore_loop_sound [OF r i] srt t(1) by blast
  have mi: "mx infos = m'" using mxs [OF e(2)] e(1,3) by simp
  have C: "CalcRestorePlan mx client t ts =
      (if ?m \<ge> t then Inr ?start
       else if infos = [] \<or> m' < t then Inl ErrTxNotAvailable else Inr infos)"
    using t CalcRestorePlan_unfold [of client ts it t mx, OF it] o r mx0 mi by simp
  show "CalcRestorePlan mx client t ts = Inl ErrTxNotAvailable \<or>
      (\<exists>plan. CalcRestorePlan mx client t ts = Inr plan)"
    unfolding C by simp
  assume "CalcRestorePlan mx client t ts = Inl ErrTxNotAvailable"
  then have n: "\<not> t \<le> ?m" "infos = [] \<or> m' < t" unfolding C by (auto split: if_splits)
  then have "m' < t" using e(1,3) t(1) by (auto simp: word_gt_0)
  then have x: "exhausted m' t ts ?Ls" using e(4) by auto
  show "?m < t \<and> (\<exists>m. m < t \<and> ?m \<le> m \<and> exhausted m t ts ?Ls)"
    using \<open>m' < t\<close> n(1) x contiguous_mono [OF e(2)] e(3)
    by (intro conjI exI [of _ m']) auto
qed

lemma CalcRestorePlan_complete':
  assumes "lister_ok client" "slice_max_law mx" "t \<noteq> 0"
  shows "(if \<exists>ext. set ext \<subseteq> set (level_files client 0) \<and>
               contiguous (end_txid 0 (plan_start client t 0)) ext \<and>
               end_txid (end_txid 0 (plan_start client t 0)) ext = t
          then \<exists>plan. CalcRestorePlan mx client t 0 = Inr plan \<and> MaxTXID (last plan) = t
          else CalcRestorePlan mx client t 0 = Inl ErrTxNotAvailable)"
proof -
  let ?s = "end_txid 0 (plan_start client t 0)"
  note O = CalcRestorePlan_outcome [OF assms refl]
  have False if x: "set ext \<subseteq> set (level_files client 0)" "contiguous ?s ext" "end_txid ?s ext = t"
    and n: "CalcRestorePlan mx client t 0 = Inl ErrTxNotAvailable" for ext
  proof -
    obtain m where m: "m < t" "?s \<le> m"
      "exhausted m t 0 (map (listing client (\<not> time_IsZero 0)) plan_levels)"
      using O(2) [OF n] by blast
    have "MaxTXID f \<le> end_txid s ext" if "contiguous s ext" "f \<in> set ext" for s ext f
      using that by (induction ext arbitrary: s) (auto intro: contiguous_mono)
    then have "\<forall>f \<in> set ext. in_target t 0 f"
      using x by (fastforce simp: in_target_def not_less)
    with exhausted_chain [OF m(3) _ _ x(2) m(2)] x m(1) show False
      by (auto simp: level_files_def)
  qed
  moreover have "MaxTXID (last plan) = t \<and> (\<exists>ext. set ext \<subseteq> set (level_files client 0) \<and>
      contiguous ?s ext \<and> end_txid ?s ext = t)" if c: "CalcRestorePlan mx client t 0 = Inr plan" for plan
  proof -
    obtain ext where e: "plan = plan_start client t 0 @ ext" "contiguous ?s ext"
      "set ext \<subseteq> set (level_files client 0)" "plan \<noteq> []" "MaxTXID (last plan) = t"
      using CalcRestorePlan_sound' [OF c assms(2)] assms(3) by blast
    have "end_txid ?s ext = t" using e end_txid_last [of plan 0] by simp
    with e show ?thesis by blast
  qed
  ultimately show ?thesis
    using O(1) by (cases "CalcRestorePlan mx client t 0 = Inl ErrTxNotAvailable") fastforce+
qed

lemma CalcRestorePlan_found:
  assumes "lister_ok client" "slice_max_law mx" "t \<noteq> 0" "set ext \<subseteq> set (level_files client 0)"
    and "contiguous (end_txid 0 (plan_start client t 0)) ext"
    and "end_txid (end_txid 0 (plan_start client t 0)) ext = t"
  shows "\<exists>plan. CalcRestorePlan mx client t 0 = Inr plan \<and> MaxTXID (last plan) = t"
proof -
  have "\<exists>ext. set ext \<subseteq> set (level_files client 0) \<and>
      contiguous (end_txid 0 (plan_start client t 0)) ext \<and>
      end_txid (end_txid 0 (plan_start client t 0)) ext = t"
    using assms(4-6) by blast
  then show ?thesis
    using CalcRestorePlan_complete' [OF assms(1-3)] by (simp only: if_True)
qed

text \<open>C6: On error-free sorted listings a plan for a TXID is found exactly when some chain of
  files of the levels 0 to 8 leads from the chosen snapshot, or from nothing, to that TXID;
  otherwise the call fails with \<open>ErrTxNotAvailable\<close>.\<close>

theorem CalcRestorePlan_complete:
  assumes "lister_ok client" "slice_max_law mx" "t \<noteq> 0"
  shows "(if \<exists>ext. set ext \<subseteq> set (level_files client 0) \<and>
               contiguous (end_txid 0 (plan_start client t 0)) ext \<and>
               end_txid (end_txid 0 (plan_start client t 0)) ext = t
          then \<exists>plan. CalcRestorePlan mx client t 0 = Inr plan \<and> MaxTXID (last plan) = t
          else CalcRestorePlan mx client t 0 = Inl ErrTxNotAvailable)"
  using assms by (rule CalcRestorePlan_complete')

section \<open>Witnesses\<close>

text \<open>A replica with one snapshot up to 4 and, at level 1, the files 3-6 and 7-9.\<close>

definition ex_info :: "int \<Rightarrow> u64 \<Rightarrow> u64 \<Rightarrow> file_info" where
  "ex_info l a b = \<lparr>Level = l, MinTXID = a, MaxTXID = b, Size = 0, CreatedAt = 5\<rparr>"

definition ex_lister :: ltx_lister where
  "ex_lister l sk um = Inr \<lparr>it_items =
     (if l = 9 then [ex_info 9 1 4] else if l = 1 then [ex_info 1 3 6, ex_info 1 7 9] else []),
     it_err = None, it_close = None\<rparr>"

definition ex_max :: "file_info list \<Rightarrow> u64" where
  "ex_max fs = (if fs = [] then 0 else MaxTXID (last fs))"

lemma ex_lister_ok: "lister_ok ex_lister"
  by (simp add: lister_ok_def ex_lister_def ex_info_def)

lemma ex_max_law: "slice_max_law ex_max"
  by (simp add: slice_max_law_def ex_max_def)

lemma ex_start: "plan_start ex_lister 9 0 = [ex_info 9 1 4]" "plan_start ex_lister 0 0 = [ex_info 9 1 4]"
  by (simp_all add: plan_start_def listing_def ex_lister_def in_target_def SnapshotLevel_def ex_info_def)

lemma ex_levels: "level_files ex_lister 0 = [ex_info 1 3 6, ex_info 1 7 9]"
  by (simp add: level_files_def plan_levels_def listing_def ex_lister_def)

lemma ex_plan: "\<exists>plan. CalcRestorePlan ex_max ex_lister 9 0 = Inr plan"
proof -
  have "CalcRestorePlan ex_max ex_lister 9 0 \<noteq> Inl ErrTxNotAvailable"
  proof
    assume "CalcRestorePlan ex_max ex_lister 9 0 = Inl ErrTxNotAvailable"
    from CalcRestorePlan_outcome(2) [OF ex_lister_ok ex_max_law _ refl this]
    obtain m where m: "m < 9" "4 \<le> m"
      "exhausted m 9 0 (map (listing ex_lister (\<not> time_IsZero 0)) plan_levels)"
      by (auto simp: ex_start ex_info_def)
    have "set [ex_info 1 3 6, ex_info 1 7 9] \<subseteq>
        set (concat (map (listing ex_lister (\<not> time_IsZero 0)) plan_levels))"
      using ex_levels by (simp add: level_files_def)
    from exhausted_chain [OF m(3) this _ _ m(2)]
    have "end_txid 4 [ex_info 1 3 6, ex_info 1 7 9] \<le> m"
      by (simp add: ex_info_def in_target_def)
    then show False using m(1) by (simp add: ex_info_def)
  qed
  then show ?thesis
    using CalcRestorePlan_outcome(1) [OF ex_lister_ok ex_max_law, of 9 0] by auto
qed

theorem CalcRestorePlan_sound_witness:
  "\<exists>plan. CalcRestorePlan ex_max ex_lister 9 0 = Inr plan \<and>
     plan \<noteq> [] \<and> (\<exists>ext. plan = plan_start ex_lister 9 0 @ ext \<and>
      contiguous (end_txid 0 (plan_start ex_lister 9 0)) ext \<and>
      set ext \<subseteq> set (level_files ex_lister 0)) \<and>
     list_all (in_target 9 0) plan \<and> MaxTXID (last plan) = 9"
proof -
  obtain plan where p: "CalcRestorePlan ex_max ex_lister 9 0 = Inr plan" using ex_plan by blast
  note s = CalcRestorePlan_sound [OF p ex_max_law]
  have "list_all (in_target 9 0) plan" "MaxTXID (last plan) = 9"
    using s by (simp_all add: list_all_iff)
  with p s show ?thesis by blast
qed

theorem CalcRestorePlan_maximal_witness:
  "\<exists>plan. CalcRestorePlan ex_max ex_lister 9 0 = Inr plan \<and>
     end_txid 4 [ex_info 1 3 6, ex_info 1 7 9] \<le> MaxTXID (last plan)"
proof -
  obtain plan where p: "CalcRestorePlan ex_max ex_lister 9 0 = Inr plan" using ex_plan by blast
  have "end_txid (end_txid 0 (plan_start ex_lister 9 0)) [ex_info 1 3 6, ex_info 1 7 9]
      \<le> MaxTXID (last plan)"
    by (rule CalcRestorePlan_maximal [OF p ex_max_law ex_lister_ok, THEN conjunct1, rule_format])
      (simp add: ex_start ex_levels, simp add: ex_info_def in_target_def)
  with p show ?thesis by (auto simp: ex_start ex_info_def)
qed

theorem CalcRestorePlan_complete_witness:
  "\<exists>plan. CalcRestorePlan ex_max ex_lister 9 0 = Inr plan \<and> MaxTXID (last plan) = 9"
proof -
  have "set [ex_info 1 3 6, ex_info 1 7 9] \<subseteq> set (level_files ex_lister 0) \<and>
      contiguous (end_txid 0 (plan_start ex_lister 9 0)) [ex_info 1 3 6, ex_info 1 7 9] \<and>
      end_txid (end_txid 0 (plan_start ex_lister 9 0)) [ex_info 1 3 6, ex_info 1 7 9] = 9"
    unfolding ex_start ex_levels by (simp add: ex_info_def)
  then have "\<exists>ext. set ext \<subseteq> set (level_files ex_lister 0) \<and>
      contiguous (end_txid 0 (plan_start ex_lister 9 0)) ext \<and>
      end_txid (end_txid 0 (plan_start ex_lister 9 0)) ext = 9" by blast
  then show ?thesis
    using CalcRestorePlan_complete [OF ex_lister_ok ex_max_law, of 9] by simp
qed

end
