(* ===== verification/Compaction.thy ===== *)
theory Compaction
  imports Restore_Plan "HOL-Library.Product_Lexorder"
begin

text \<open>
  Compaction and retention: \<open>compactor.go\<close>, the retention functions \<open>db.go\<close> keeps of its
  own, the drivers in \<open>store.go\<close> and the level validation of \<open>replica.go\<close>.

  The replica is behind the interface \<open>ReplicaClient\<close>: the record \<open>client\<close> holds its
  operations as functions on a state \<open>'s\<close>. The record \<open>compactor\<close> is the configuration,
  \<open>cstate\<close> what an operation can change: the replica, the cache of the newest file per level,
  the local files deleted and the count of verification errors. Merging the source files is the
  work of package \<open>ltx\<close>, the parameter \<open>ltx_compact\<close>. The locale \<open>replica\<close> states what
  a client owes its users; the lemmas inside it show that compaction keeps a level contiguous and
  that retention deletes nothing a restore still needs.
\<close>

section \<open>Model\<close>

text \<open>A stream (an \<open>io.Reader\<close>): the bytes it delivers and the error it then reports, \<open>None\<close>
  for the end of the file.\<close>

type_synonym ltx_stream = "byte list \<times> go_error option"

record 's client =
  cl_LTXFiles :: "'s \<Rightarrow> ltx_lister"
  cl_OpenLTXFile :: "'s \<Rightarrow> int \<Rightarrow> u64 \<Rightarrow> u64 \<Rightarrow> go_error + byte list"
  cl_WriteLTXFile :: "'s \<Rightarrow> int \<Rightarrow> u64 \<Rightarrow> u64 \<Rightarrow> ltx_stream \<Rightarrow> (go_error + file_info) \<times> 's"
  cl_DeleteLTXFiles :: "'s \<Rightarrow> file_info list \<Rightarrow> go_error option \<times> 's"

record compactor =
  VerifyCompaction :: bool
  RetentionEnabled :: bool
  LocalFileOpener :: "(int \<Rightarrow> u64 \<Rightarrow> u64 \<Rightarrow> go_error + byte list) option"
  HasLocalDeleter :: bool
  HasCache :: bool

type_synonym file_key = "int \<times> u64 \<times> u64"

record 's cstate =
  rep :: 's
  info_cache :: "int \<rightharpoonup> file_info"
  localDeleted :: "file_key list"
  verifyErrors :: nat

definition zero_info :: file_info where
  "zero_info = \<lparr>Level = 0, MinTXID = 0, MaxTXID = 0, Size = 0, CreatedAt = 0\<rparr>"

subsection \<open>Compaction\<close>

definition max_info :: "file_info list \<Rightarrow> file_info" where
  "max_info items = fold (\<lambda>item info. if MaxTXID item > MaxTXID info then item else info) items zero_info"

definition set_cache :: "compactor \<Rightarrow> int \<Rightarrow> file_info \<Rightarrow> 's cstate \<Rightarrow> 's cstate" where
  "set_cache c level info st =
     (if HasCache c then st\<lparr>info_cache := (info_cache st)(level \<mapsto> info)\<rparr> else st)"

definition MaxLTXFileInfo ::
  "compactor \<Rightarrow> 's client \<Rightarrow> int \<Rightarrow> 's cstate \<Rightarrow> (go_error + file_info) \<times> 's cstate" where
  "MaxLTXFileInfo c cl level st =
     (case (if HasCache c then info_cache st level else None) of
        Some info \<Rightarrow> (Inr info, st)
      | None \<Rightarrow>
          (case cl_LTXFiles cl (rep st) level 0 False of
             Inl e \<Rightarrow> (Inl e, st)
           | Inr it \<Rightarrow>
               (let info = max_info (it_items it);
                    st' = (if MaxTXID info > 0 then set_cache c level info st else st)
                in (case it_close it of Some e \<Rightarrow> (Inl e, st') | None \<Rightarrow> (Inr info, st')))))"

text \<open>Collecting the sources: the TXID range and the contents, local files first.\<close>

fun open_sources ::
  "compactor \<Rightarrow> 's client \<Rightarrow> 's \<Rightarrow> int \<Rightarrow> file_info list \<Rightarrow> u64 \<Rightarrow> u64 \<Rightarrow> byte list list \<Rightarrow>
     go_error + u64 \<times> u64 \<times> byte list list" where
  "open_sources c cl s srcLevel [] minTXID maxTXID rdrs = Inr (minTXID, maxTXID, rdrs)"
| "open_sources c cl s srcLevel (info # items) minTXID maxTXID rdrs =
     (let minTXID' = (if minTXID = 0 \<or> MinTXID info < minTXID then MinTXID info else minTXID);
          maxTXID' = (if maxTXID = 0 \<or> MaxTXID info > maxTXID then MaxTXID info else maxTXID);
          remote = (case cl_OpenLTXFile cl s (Level info) (MinTXID info) (MaxTXID info) of
                      Inl e \<Rightarrow> Inl (Wrapf ''open ltx file'' e)
                    | Inr f \<Rightarrow> open_sources c cl s srcLevel items minTXID' maxTXID' (rdrs @ [f]))
      in (case LocalFileOpener c of
            None \<Rightarrow> remote
          | Some opener \<Rightarrow>
              (case opener srcLevel (MinTXID info) (MaxTXID info) of
                 Inr f \<Rightarrow> open_sources c cl s srcLevel items minTXID' maxTXID' (rdrs @ [f])
               | Inl e \<Rightarrow> if os_IsNotExist e then remote
                          else Inl (Wrapf ''open local ltx file'' e))))"

fun verify_loop :: "file_info option \<Rightarrow> file_info list \<Rightarrow> go_error option" where
  "verify_loop prev [] = None"
| "verify_loop None (info # items) = verify_loop (Some info) items"
| "verify_loop (Some prev) (info # items) =
     (if MinTXID info \<noteq> MaxTXID prev + 1
      then (if MinTXID info > MaxTXID prev + 1 then Some (Errorf ''TXID gap detected'')
            else Some (Errorf ''TXID overlap detected''))
      else verify_loop (Some info) items)"

definition VerifyLevelConsistency :: "'s client \<Rightarrow> int \<Rightarrow> 's \<Rightarrow> go_error option" where
  "VerifyLevelConsistency cl level s =
     (case cl_LTXFiles cl s level 0 False of
        Inl e \<Rightarrow> Some (Wrapf ''fetch ltx files'' e)
      | Inr it \<Rightarrow>
          (case verify_loop None (it_items it) of
             Some e \<Rightarrow> Some e
           | None \<Rightarrow> (case it_close it of
                        Some e \<Rightarrow> Some (Wrapf ''close iterator'' e) | None \<Rightarrow> None)))"

definition Compact ::
  "compactor \<Rightarrow> 's client \<Rightarrow> (byte list list \<Rightarrow> ltx_stream) \<Rightarrow> int \<Rightarrow> 's cstate \<Rightarrow>
     (go_error + file_info) \<times> 's cstate" where
  "Compact c cl ltx_compact dstLevel st =
     (case MaxLTXFileInfo c cl dstLevel st of
        (Inl e, st1) \<Rightarrow> (Inl (Wrapf ''cannot determine max ltx file for destination level'' e), st1)
      | (Inr prevMaxInfo, st1) \<Rightarrow>
          (let srcLevel = dstLevel - 1; seekTXID = MaxTXID prevMaxInfo + 1 in
           (case cl_LTXFiles cl (rep st1) srcLevel seekTXID False of
              Inl e \<Rightarrow> (Inl (Wrapf ''source ltx files'' e), st1)
            | Inr it \<Rightarrow>
                (case open_sources c cl (rep st1) srcLevel (it_items it) 0 0 [] of
                   Inl e \<Rightarrow> (Inl e, st1)
                 | Inr (minTXID, maxTXID, rdrs) \<Rightarrow>
                     if rdrs = [] then (Inl ErrNoCompaction, st1)
                     else (case cl_WriteLTXFile cl (rep st1) dstLevel minTXID maxTXID (ltx_compact rdrs) of
                        (Inl e, s2) \<Rightarrow> (Inl (Wrapf ''write ltx file'' e), st1\<lparr>rep := s2\<rparr>)
                      | (Inr info, s2) \<Rightarrow>
                          (let st2 = set_cache c dstLevel info (st1\<lparr>rep := s2\<rparr>);
                               st3 = (if VerifyCompaction c \<and>
                                         VerifyLevelConsistency cl dstLevel (rep st2) \<noteq> None
                                      then st2\<lparr>verifyErrors := verifyErrors st2 + 1\<rparr> else st2)
                           in (Inr info, st3)))))))"

subsection \<open>Retention\<close>

text \<open>
  Files are marked with their position in the listing, so that \<open>deleted[len(deleted)-1] ==
  lastInfo\<close>, a comparison of pointers, is a comparison of positions.
\<close>

type_synonym marked = "(nat \<times> file_info) list"

definition spare_last :: "marked \<Rightarrow> nat option \<Rightarrow> marked" where
  "spare_last deleted lastInfo =
     (if deleted \<noteq> [] \<and> lastInfo = Some (fst (last deleted)) then butlast deleted else deleted)"

fun snapshot_scan ::
  "go_time \<Rightarrow> nat \<Rightarrow> file_info list \<Rightarrow> marked \<Rightarrow> nat option \<Rightarrow> u64 \<Rightarrow> marked \<times> nat option \<times> u64" where
  "snapshot_scan ts i [] deleted lastInfo minTXID = (deleted, lastInfo, minTXID)"
| "snapshot_scan ts i (info # items) deleted lastInfo minTXID =
     (if CreatedAt info < ts
      then snapshot_scan ts (Suc i) items (deleted @ [(i, info)]) (Some i) minTXID
      else snapshot_scan ts (Suc i) items deleted (Some i)
             (if minTXID = 0 \<or> MaxTXID info < minTXID then MaxTXID info else minTXID))"

definition info_key :: "file_info \<Rightarrow> file_key" where
  "info_key f = (Level f, MinTXID f, MaxTXID f)"

text \<open>Remote deletion unless retention is disabled, then local deletion; local errors are only
  logged.\<close>

definition delete_marked ::
  "compactor \<Rightarrow> 's client \<Rightarrow> int \<Rightarrow> string \<Rightarrow> file_info list \<Rightarrow> 's cstate \<Rightarrow>
     go_error option \<times> 's cstate" where
  "delete_marked c cl level msg deleted st =
     (case (if RetentionEnabled c then cl_DeleteLTXFiles cl (rep st) deleted else (None, rep st)) of
        (Some e, s') \<Rightarrow> (Some (Wrapf msg e), st\<lparr>rep := s'\<rparr>)
      | (None, s') \<Rightarrow>
          (None, st\<lparr>rep := s',
             localDeleted := localDeleted st @
               (if HasLocalDeleter c then map (\<lambda>f. (level, MinTXID f, MaxTXID f)) deleted else [])\<rparr>))"

definition snapshot_retention ::
  "compactor \<Rightarrow> 's client \<Rightarrow> go_time \<Rightarrow> 's cstate \<Rightarrow> (go_error + u64) \<times> 's cstate" where
  "snapshot_retention c cl ts st =
     (case cl_LTXFiles cl (rep st) SnapshotLevel 0 False of
        Inl e \<Rightarrow> (Inl (Wrapf ''fetch ltx files'' e), st)
      | Inr it \<Rightarrow>
          (case snapshot_scan ts 0 (it_items it) [] None 0 of (deleted, lastInfo, minTXID) \<Rightarrow>
             (case delete_marked c cl SnapshotLevel ''remove ltx files''
                     (map snd (spare_last deleted lastInfo)) st of
                (Some e, st') \<Rightarrow> (Inl e, st')
              | (None, st') \<Rightarrow> (Inr minTXID, st'))))"

definition EnforceSnapshotRetention ::
  "compactor \<Rightarrow> 's client \<Rightarrow> go_time \<Rightarrow> int \<Rightarrow> 's cstate \<Rightarrow> (go_error + u64) \<times> 's cstate" where
  "EnforceSnapshotRetention c cl now retention st = snapshot_retention c cl (now - retention) st"

text \<open>The database's own version takes the timestamp and always cleans up local files.\<close>

definition DB_EnforceSnapshotRetention ::
  "compactor \<Rightarrow> 's client \<Rightarrow> go_time \<Rightarrow> 's cstate \<Rightarrow> (go_error + u64) \<times> 's cstate" where
  "DB_EnforceSnapshotRetention c cl ts st = snapshot_retention (c\<lparr>HasLocalDeleter := True\<rparr>) cl ts st"

fun txid_scan :: "u64 \<Rightarrow> nat \<Rightarrow> file_info list \<Rightarrow> marked \<Rightarrow> nat option \<Rightarrow> marked \<times> nat option" where
  "txid_scan txID i [] deleted lastInfo = (deleted, lastInfo)"
| "txid_scan txID i (info # items) deleted lastInfo =
     txid_scan txID (Suc i) items
       (if MaxTXID info < txID then deleted @ [(i, info)] else deleted) (Some i)"

definition EnforceRetentionByTXID ::
  "compactor \<Rightarrow> 's client \<Rightarrow> int \<Rightarrow> u64 \<Rightarrow> 's cstate \<Rightarrow> go_error option \<times> 's cstate" where
  "EnforceRetentionByTXID c cl level txID st =
     (case cl_LTXFiles cl (rep st) level 0 False of
        Inl e \<Rightarrow> (Some (Wrapf ''fetch ltx files'' e), st)
      | Inr it \<Rightarrow>
          (case txid_scan txID 0 (it_items it) [] None of (deleted, lastInfo) \<Rightarrow>
             delete_marked c cl level ''remove ltx files'' (map snd (spare_last deleted lastInfo)) st))"

text \<open>
  The scan of level 0 stops at the first file newer than the threshold. \<open>created\<close> is the file's
  creation time when the listing has none: the threshold for the compactor; for the database the
  time of its local file, if there is one.
\<close>

fun l0_scan ::
  "go_time \<Rightarrow> (file_info \<Rightarrow> go_time) \<Rightarrow> u64 \<Rightarrow> nat \<Rightarrow> file_info list \<Rightarrow> marked \<Rightarrow> nat option \<Rightarrow>
     marked \<times> nat option \<times> bool" where
  "l0_scan threshold created maxL1 i [] deleted lastInfo = (deleted, lastInfo, True)"
| "l0_scan threshold created maxL1 i (info # items) deleted lastInfo =
     (let createdAt = (if time_IsZero (CreatedAt info) then created info else CreatedAt info)
      in if createdAt > threshold then (deleted, Some i, False)
         else l0_scan threshold created maxL1 (Suc i) items
                (if MaxTXID info \<le> maxL1 then deleted @ [(i, info)] else deleted) (Some i))"

definition l0_retention ::
  "compactor \<Rightarrow> 's client \<Rightarrow> go_time \<Rightarrow> int \<Rightarrow> (file_info \<Rightarrow> go_time) \<Rightarrow> 's cstate \<Rightarrow>
     go_error option \<times> 's cstate" where
  "l0_retention c cl now retention created st =
     (if retention \<le> 0 then (None, st)
      else (case cl_LTXFiles cl (rep st) 1 0 False of
        Inl e \<Rightarrow> (Some (Wrapf ''fetch l1 files'' e), st)
      | Inr it1 \<Rightarrow>
          (let maxL1 = MaxTXID (max_info (it_items it1)) in
           (case it_close it1 of
              Some e \<Rightarrow> (Some (Wrapf ''close l1 iterator'' e), st)
            | None \<Rightarrow>
                if maxL1 = 0 then (None, st)
                else (case cl_LTXFiles cl (rep st) 0 0 False of
                   Inl e \<Rightarrow> (Some (Wrapf ''fetch l0 files'' e), st)
                 | Inr it \<Rightarrow>
                     (case l0_scan (now - retention) created maxL1 0 (it_items it) [] None of
                        (deleted0, lastInfo, processedAll) \<Rightarrow>
                          (let deleted = map snd (if processedAll then spare_last deleted0 lastInfo
                                                  else deleted0)
                           in if deleted = [] then (None, st)
                              else delete_marked c cl 0 ''remove expired l0 files'' deleted st)))))))"

definition EnforceL0Retention ::
  "compactor \<Rightarrow> 's client \<Rightarrow> go_time \<Rightarrow> int \<Rightarrow> 's cstate \<Rightarrow> go_error option \<times> 's cstate" where
  "EnforceL0Retention c cl now retention st =
     l0_retention c cl now retention (\<lambda>_. now - retention) st"

text \<open>\<open>localModTime\<close> is the modification time of the local copy of a level-0 file.\<close>

definition EnforceL0RetentionByTime ::
  "compactor \<Rightarrow> 's client \<Rightarrow> go_time \<Rightarrow> int \<Rightarrow> (u64 \<Rightarrow> u64 \<Rightarrow> go_time option) \<Rightarrow> 's cstate \<Rightarrow>
     go_error option \<times> 's cstate" where
  "EnforceL0RetentionByTime c cl now retention localModTime st =
     l0_retention (c\<lparr>HasLocalDeleter := True\<rparr>) cl now retention
       (\<lambda>f. case localModTime (MinTXID f) (MaxTXID f) of
              Some t \<Rightarrow> t | None \<Rightarrow> now - retention) st"

subsection \<open>Drivers and validation\<close>

text \<open>\<open>Store.CompactDB\<close>: the database's page size, its snapshot operation and the clock are
  parameters. The early exit compares with the destination's first TXID, as the code does.\<close>

definition CompactDB ::
  "compactor \<Rightarrow> 's client \<Rightarrow> (byte list list \<Rightarrow> ltx_stream) \<Rightarrow>
     ('s cstate \<Rightarrow> (go_error + file_info) \<times> 's cstate) \<Rightarrow> compaction_levels \<Rightarrow> go_time \<Rightarrow> int \<Rightarrow>
     compaction_level \<Rightarrow> 's cstate \<Rightarrow> (go_error + file_info) \<times> 's cstate" where
  "CompactDB c cl ltx_compact Snapshot levels now pageSize lvl st =
     (if pageSize = 0 then (Inl (DBNotReady ''page size not initialized''), st)
      else (let dstLevel = lvl_Level lvl; prevCompactionAt = PrevCompactionAt lvl now in
       (case MaxLTXFileInfo c cl dstLevel st of
          (Inl e, st1) \<Rightarrow> (Inl (Wrapf ''fetch dst level info'' e), st1)
        | (Inr dstInfo, st1) \<Rightarrow>
            if CreatedAt dstInfo > prevCompactionAt then (Inl ErrCompactionTooEarly, st1)
            else if dstLevel = SnapshotLevel then Snapshot st1
            else (case MaxLTXFileInfo c cl (PrevLevel levels dstLevel) st1 of
              (Inl e, st2) \<Rightarrow> (Inl (Wrapf ''fetch src level info'' e), st2)
            | (Inr srcInfo, st2) \<Rightarrow>
                if MaxTXID srcInfo \<le> MinTXID dstInfo then (Inl ErrNoCompaction, st2)
                else Compact c cl ltx_compact dstLevel st2))))"

fun retain_levels ::
  "compactor \<Rightarrow> 's client \<Rightarrow> u64 \<Rightarrow> compaction_levels \<Rightarrow> 's cstate \<Rightarrow> go_error option \<times> 's cstate" where
  "retain_levels c cl txID [] st = (None, st)"
| "retain_levels c cl txID (lvl # lvls) st =
     (if lvl_Level lvl = 0 then retain_levels c cl txID lvls st
      else (case EnforceRetentionByTXID c cl (lvl_Level lvl) txID st of
              (Some e, st') \<Rightarrow> (Some (Wrapf ''enforce level retention'' e), st')
            | (None, st') \<Rightarrow> retain_levels c cl txID lvls st'))"

definition Store_EnforceSnapshotRetention ::
  "compactor \<Rightarrow> 's client \<Rightarrow> compaction_levels \<Rightarrow> go_time \<Rightarrow> int \<Rightarrow> 's cstate \<Rightarrow>
     go_error option \<times> 's cstate" where
  "Store_EnforceSnapshotRetention c cl levels now snapshotRetention st =
     (case DB_EnforceSnapshotRetention c cl (now - snapshotRetention) st of
        (Inl e, st') \<Rightarrow> (Some (Wrapf ''enforce snapshot retention'' e), st')
      | (Inr minSnapshotTXID, st') \<Rightarrow> retain_levels c cl minSnapshotTXID levels st')"

datatype validation_type = Unsorted | Gap | Overlap

type_synonym validation_error = "validation_type \<times> file_info \<times> file_info"

fun validate_files ::
  "file_info option \<Rightarrow> file_info list \<Rightarrow> validation_error list \<Rightarrow> validation_error list" where
  "validate_files prev [] errs = errs"
| "validate_files None (info # items) errs = validate_files (Some info) items errs"
| "validate_files (Some prev) (info # items) errs =
     (if MinTXID info < MinTXID prev
      then validate_files (Some info) items (errs @ [(Unsorted, prev, info)])
      else if MinTXID info \<noteq> MaxTXID prev + 1
      then validate_files (Some info) items
             (errs @ [(if MinTXID info > MaxTXID prev + 1 then Gap else Overlap, prev, info)])
      else validate_files (Some info) items errs)"

definition ValidateLevel :: "'s client \<Rightarrow> int \<Rightarrow> 's \<Rightarrow> go_error + validation_error list" where
  "ValidateLevel cl level s =
     (case cl_LTXFiles cl s level 0 False of
        Inl e \<Rightarrow> Inl (Wrapf ''fetch ltx files'' e)
      | Inr it \<Rightarrow>
          (let errs = validate_files None (it_items it) []
           in (case it_close it of Some e \<Rightarrow> Inl (Wrapf ''close iterator'' e) | None \<Rightarrow> Inr errs)))"

section \<open>What the scans select\<close>

text \<open>The selected files, spared newest file included, are the matching files among all but the
  last one listed.\<close>

definition scan_inv :: "(file_info \<Rightarrow> bool) \<Rightarrow> file_info list \<Rightarrow> marked \<Rightarrow> nat option \<Rightarrow> bool" where
  "scan_inv P seen deleted lastInfo \<longleftrightarrow>
     map snd deleted = filter P seen \<and> (\<forall>x \<in> set deleted. fst x < length seen) \<and>
     (if seen = [] then lastInfo = None
      else lastInfo = Some (length seen - 1) \<and>
        (if P (last seen) then deleted \<noteq> [] \<and> fst (last deleted) = length seen - 1
         else \<forall>x \<in> set deleted. fst x < length seen - 1))"

lemma scan_inv_Nil: "scan_inv P [] [] None"
  by (simp add: scan_inv_def)

lemma scan_inv_step:
  assumes "scan_inv P seen deleted lastInfo"
  shows "scan_inv P (seen @ [x])
    (if P x then deleted @ [(length seen, x)] else deleted) (Some (length seen))"
  using assms by (auto simp: scan_inv_def less_SucI split: if_splits)

lemma scan_inv_spare:
  assumes "scan_inv P seen deleted lastInfo"
  shows "map snd (spare_last deleted lastInfo) = filter P (butlast seen)"
proof (cases "seen = []")
  case True
  then show ?thesis using assms by (simp add: scan_inv_def spare_last_def)
next
  case False
  then have s: "seen = butlast seen @ [last seen]" by simp
  have f: "map snd deleted = filter P (butlast seen) @ (if P (last seen) then [last seen] else [])"
  proof -
    have "map snd deleted = filter P seen" using assms by (simp add: scan_inv_def)
    also have "\<dots> = filter P (butlast seen @ [last seen])" using False by simp
    finally show ?thesis by (simp del: append_butlast_last_id)
  qed
  show ?thesis
  proof (cases "P (last seen)")
    case True
    then have "spare_last deleted lastInfo = butlast deleted"
      using assms False by (simp add: scan_inv_def spare_last_def)
    then show ?thesis using f True by (simp add: map_butlast)
  next
    case np: False
    then have "fst (last deleted) < length seen - 1" if "deleted \<noteq> []"
      using assms False that by (simp add: scan_inv_def)
    then have "spare_last deleted lastInfo = deleted"
      using assms False by (auto simp: scan_inv_def spare_last_def)
    then show ?thesis using f np by simp
  qed
qed

definition min_kept :: "go_time \<Rightarrow> file_info list \<Rightarrow> u64 \<Rightarrow> u64" where
  "min_kept ts items m0 =
     fold (\<lambda>f m. if m = 0 \<or> MaxTXID f < m then MaxTXID f else m)
       (filter (\<lambda>f. \<not> CreatedAt f < ts) items) m0"

lemma snapshot_scan_spec:
  assumes "scan_inv (\<lambda>f. CreatedAt f < ts) seen deleted lastInfo"
  shows "\<exists>d l. snapshot_scan ts (length seen) items deleted lastInfo m = (d, l, min_kept ts items m) \<and>
    scan_inv (\<lambda>f. CreatedAt f < ts) (seen @ items) d l"
  using assms
proof (induction items arbitrary: seen deleted lastInfo m)
  case (Cons x items)
  show ?case
    using Cons.IH [OF scan_inv_step [OF Cons.prems, of x]]
    by (cases "CreatedAt x < ts") (simp_all add: min_kept_def)
qed (simp add: min_kept_def)

lemma txid_scan_spec:
  assumes "scan_inv (\<lambda>f. MaxTXID f < t) seen deleted lastInfo"
  shows "\<exists>d l. txid_scan t (length seen) items deleted lastInfo = (d, l) \<and>
    scan_inv (\<lambda>f. MaxTXID f < t) (seen @ items) d l"
  using assms
proof (induction items arbitrary: seen deleted lastInfo)
  case (Cons x items)
  show ?case
    using Cons.IH [OF scan_inv_step [OF Cons.prems, of x]] by simp
qed simp

definition l0_old :: "go_time \<Rightarrow> (file_info \<Rightarrow> go_time) \<Rightarrow> file_info \<Rightarrow> bool" where
  "l0_old threshold created f \<longleftrightarrow>
     (if time_IsZero (CreatedAt f) then created f else CreatedAt f) \<le> threshold"

lemma l0_scan_spec:
  assumes "scan_inv (\<lambda>f. MaxTXID f \<le> maxL1) seen deleted lastInfo"
  shows "\<exists>d l b. l0_scan thr created maxL1 (length seen) items deleted lastInfo = (d, l, b) \<and>
    (b \<longleftrightarrow> list_all (l0_old thr created) items) \<and>
    map snd d = filter (\<lambda>f. MaxTXID f \<le> maxL1) (seen @ takeWhile (l0_old thr created) items) \<and>
    (b \<longrightarrow> scan_inv (\<lambda>f. MaxTXID f \<le> maxL1) (seen @ items) d l)"
  using assms
proof (induction items arbitrary: seen deleted lastInfo)
  case Nil
  then have "map snd deleted = filter (\<lambda>f. MaxTXID f \<le> maxL1) seen" by (simp add: scan_inv_def)
  with Nil show ?case by auto
next
  case (Cons x items)
  show ?case
  proof (cases "l0_old thr created x")
    case True
    then show ?thesis
      using Cons.IH [OF scan_inv_step [OF Cons.prems, of x]] by (auto simp: l0_old_def Let_def)
  next
    case False
    then show ?thesis using Cons.prems by (auto simp: l0_old_def Let_def scan_inv_def)
  qed
qed

lemma min_kept_le:
  assumes "f \<in> set items" "\<not> CreatedAt f < ts" "\<forall>g \<in> set items. MaxTXID g \<noteq> 0"
  shows "min_kept ts items 0 \<le> MaxTXID f \<and> min_kept ts items 0 \<noteq> 0"
proof -
  have "fold (\<lambda>f m. if m = 0 \<or> MaxTXID f < m then MaxTXID f else m) xs m \<noteq> 0 \<and>
      (m \<noteq> 0 \<longrightarrow> fold (\<lambda>f m. if m = 0 \<or> MaxTXID f < m then MaxTXID f else m) xs m \<le> m) \<and>
      (\<forall>g \<in> set xs. fold (\<lambda>f m. if m = 0 \<or> MaxTXID f < m then MaxTXID f else m) xs m \<le> MaxTXID g)"
    if "xs \<noteq> [] \<or> m \<noteq> 0" "\<forall>g \<in> set xs. MaxTXID g \<noteq> 0" for xs m
    using that
  proof (induction xs arbitrary: m)
    case (Cons x xs)
    let ?m = "if m = 0 \<or> MaxTXID x < m then MaxTXID x else m"
    have "?m \<noteq> 0" "m \<noteq> 0 \<longrightarrow> ?m \<le> m" "?m \<le> MaxTXID x" using Cons.prems by auto
    with Cons.IH [of ?m] Cons.prems show ?case by (auto intro: order_trans)
  qed simp
  from this [of "filter (\<lambda>f. \<not> CreatedAt f < ts) items" 0] assms show ?thesis
    by (auto simp: min_kept_def filter_empty_conv)
qed

section \<open>Consecutive levels\<close>

text \<open>Each file starts where the one before ends; \<open>spans\<close> says that TXIDs start at 1 and a file's
  range is not empty.\<close>

fun consecutive :: "file_info list \<Rightarrow> bool" where
  "consecutive [] = True"
| "consecutive [f] = True"
| "consecutive (f # g # fs) \<longleftrightarrow> MinTXID g = MaxTXID f + 1 \<and> consecutive (g # fs)"

definition spans :: "file_info list \<Rightarrow> bool" where
  "spans fs \<longleftrightarrow> (\<forall>f \<in> set fs. 1 \<le> MinTXID f \<and> MinTXID f \<le> MaxTXID f)"

lemma spans_simps [simp]:
  "spans []" "spans (f # fs) \<longleftrightarrow> 1 \<le> MinTXID f \<and> MinTXID f \<le> MaxTXID f \<and> spans fs"
  "spans (fs @ gs) \<longleftrightarrow> spans fs \<and> spans gs"
  by (auto simp: spans_def)

lemma consecutive_snoc [simp]:
  "consecutive (fs @ [g]) \<longleftrightarrow> consecutive fs \<and> (fs \<noteq> [] \<longrightarrow> MinTXID g = MaxTXID (last fs) + 1)"
  by (induction fs rule: consecutive.induct) auto

lemma verify_loop_Some: "verify_loop (Some p) fs = None \<longleftrightarrow> consecutive (p # fs)"
  by (induction fs arbitrary: p) auto

lemma verify_loop_None: "verify_loop None fs = None \<longleftrightarrow> consecutive fs"
  by (cases fs) (simp_all add: verify_loop_Some)

lemma max_info_snoc:
  "max_info (fs @ [f]) = (if MaxTXID f > MaxTXID (max_info fs) then f else max_info fs)"
  by (simp add: max_info_def)

lemma max_info_Nil [simp]: "max_info [] = zero_info"
  by (simp add: max_info_def)

lemma max_info_le: "MaxTXID (max_info xs) > e \<longleftrightarrow> (\<exists>x \<in> set xs. MaxTXID x > e)"
proof (induction xs rule: rev_induct)
  case Nil
  show ?case by (simp add: zero_info_def)
next
  case (snoc x xs)
  then show ?case by (auto simp: max_info_snoc)
qed

lemma max_info_consecutive:
  "consecutive fs \<Longrightarrow> spans fs \<Longrightarrow> fs \<noteq> [] \<Longrightarrow> max_info fs = last fs"
proof (induction fs rule: rev_induct)
  case (snoc f fs)
  have f: "1 \<le> MinTXID f" "MinTXID f \<le> MaxTXID f" using snoc.prems by simp_all
  show ?case
  proof (cases "fs = []")
    case True
    have "0 < MaxTXID f" using f by (simp add: word_gt_0) (metis word_le_0_iff zero_neq_one)
    then show ?thesis using True by (simp add: max_info_def zero_info_def)
  next
    case False
    then have "MaxTXID (last fs) < MaxTXID f"
      using snoc.prems f by (intro succ_le_imp_less) auto
    then show ?thesis using snoc False by (simp add: max_info_snoc)
  qed
qed simp

text \<open>The TXID range collected over consecutive sources runs from the first to the last.\<close>

lemma open_sources_range:
  assumes "open_sources c cl s l fs mn mx rdrs = Inr (a, b, rs)"
    and "consecutive fs" "spans fs" "fs \<noteq> []" "mn = 0 \<or> mn \<le> MinTXID (hd fs)"
    and "mx = 0 \<or> mx < MinTXID (hd fs)"
  shows "a = (if mn = 0 then MinTXID (hd fs) else mn) \<and> b = MaxTXID (last fs) \<and> rs \<noteq> []"
  using assms
proof (induction fs arbitrary: mn mx rdrs)
  case (Cons f fs)
  let ?mn = "if mn = 0 \<or> MinTXID f < mn then MinTXID f else mn"
  let ?mx = "if mx = 0 \<or> MaxTXID f > mx then MaxTXID f else mx"
  have f: "1 \<le> MinTXID f" "MinTXID f \<le> MaxTXID f" using Cons.prems(3) by simp_all
  have mn: "?mn = (if mn = 0 then MinTXID f else mn)" "?mn \<noteq> 0" "?mn \<le> MinTXID f"
    using Cons.prems(5) f by auto
  have mx: "?mx = MaxTXID f" using Cons.prems(6) f by auto
  obtain q where q: "open_sources c cl s l fs ?mn ?mx (rdrs @ [q]) = Inr (a, b, rs)"
    using Cons.prems(1) by (auto simp: Let_def split: option.splits sum.splits if_splits)
  show ?case
  proof (cases fs)
    case Nil
    then show ?thesis using q mn mx by auto
  next
    case (Cons g gs)
    have "MinTXID g = MaxTXID f + 1" "consecutive fs" "spans fs" "1 \<le> MinTXID g"
      using Cons.prems(2,3) Cons by simp_all
    moreover from this have "MaxTXID f < MinTXID g"
      by (intro succ_le_imp_less) auto
    moreover from this have "?mn \<le> MinTXID g" using mn(3) f by auto
    ultimately show ?thesis
      using Cons.IH [OF q] Cons mn mx by auto
  qed
qed simp

lemma consecutive_drop: "consecutive fs \<Longrightarrow> consecutive (drop k fs)"
proof (induction fs arbitrary: k rule: consecutive.induct)
  case (3 f g fs)
  then show ?case by (cases k) auto
qed (auto simp: drop_Cons split: nat.splits)

lemma consecutive_less:
  "consecutive (f # fs) \<Longrightarrow> spans (f # fs) \<Longrightarrow> g \<in> set fs \<Longrightarrow> MaxTXID f < MaxTXID g"
proof (induction fs arbitrary: f)
  case (Cons h fs)
  have "MaxTXID f < MinTXID h" using Cons.prems by (intro succ_le_imp_less) auto
  then have "MaxTXID f < MaxTXID h" using Cons.prems by auto
  then show ?case using Cons by (auto intro: less_trans)
qed simp

text \<open>On consecutive files a bound on the last TXID selects a prefix.\<close>

lemma filter_prefix:
  assumes "consecutive fs" "spans fs"
  shows "filter (\<lambda>f. MaxTXID f \<le> m) fs = takeWhile (\<lambda>f. MaxTXID f \<le> m) fs"
  using assms
proof (induction fs)
  case (Cons f fs)
  have "\<not> MaxTXID g \<le> m" if "\<not> MaxTXID f \<le> m" "g \<in> set fs" for g
    using consecutive_less [OF Cons.prems that(2)] that(1) by auto
  moreover have "consecutive fs" using consecutive_drop [OF Cons.prems(1), of 1] by simp
  ultimately show ?case using Cons by (auto simp: filter_empty_conv)
qed simp

lemma consecutive_take: "consecutive fs \<Longrightarrow> consecutive (take k fs)"
proof (induction fs arbitrary: k rule: consecutive.induct)
  case (3 f g fs)
  show ?case
  proof (cases k)
    case (Suc j)
    with 3 3(1) [of j] show ?thesis by (cases j) auto
  qed simp
qed (auto simp: take_Cons split: nat.splits)

section \<open>The contract of a replica client\<close>

definition txid_range :: "file_info \<Rightarrow> u64 \<times> u64" where
  "txid_range f = (MinTXID f, MaxTXID f)"

text \<open>
  \<open>files s level\<close> is the listing of a level in the state \<open>s\<close>: strictly sorted by first, then
  last TXID. A deletion removes the named files, all of them if it succeeds; a write adds one file,
  and when it fails it touches no file but the one it was to write.
\<close>

locale replica =
  fixes cl :: "'s client"
    and good :: "'s \<Rightarrow> bool"
    and files :: "'s \<Rightarrow> int \<Rightarrow> file_info list"
  assumes list_files: "good s \<Longrightarrow> \<exists>it. cl_LTXFiles cl s level seek um = Inr it \<and>
      it_items it = filter (\<lambda>f. seek \<le> MinTXID f) (files s level) \<and> it_err it = None \<and> it_close it = None"
    and files_level: "good s \<Longrightarrow> f \<in> set (files s level) \<Longrightarrow> Level f = level"
    and files_sorted: "good s \<Longrightarrow> sorted_wrt (<) (map txid_range (files s level))"
    and delete_files: "good s \<Longrightarrow> cl_DeleteLTXFiles cl s fs = (r, s') \<Longrightarrow> good s' \<and>
      (\<exists>D. D \<subseteq> info_key ` set fs \<and> (r = None \<longrightarrow> D = info_key ` set fs) \<and>
        (\<forall>level. files s' level = filter (\<lambda>f. info_key f \<notin> D) (files s level)))"
    and write_file: "good s \<Longrightarrow> cl_WriteLTXFile cl s level mn mx stream = (w, s') \<Longrightarrow> good s' \<and>
      (\<forall>l. {f \<in> set (files s' l). info_key f \<noteq> (level, mn, mx)} =
           {f \<in> set (files s l). info_key f \<noteq> (level, mn, mx)}) \<and>
      (\<forall>info. w = Inr info \<longrightarrow> info_key info = (level, mn, mx) \<and>
         {f \<in> set (files s' level). info_key f = (level, mn, mx)} = {info})"
begin

lemma list_all_files:
  assumes "good s"
  obtains it where "cl_LTXFiles cl s level 0 um = Inr it" "it_items it = files s level"
    "it_err it = None" "it_close it = None"
  using list_files [OF assms, of level 0 um] by auto

lemma listing_files: "good s \<Longrightarrow> listing (cl_LTXFiles cl s) um level = files s level"
  by (rule list_all_files [of s level um]) (simp_all add: listing_def)

lemma client_lister_ok:
  assumes "good s"
  shows "lister_ok (cl_LTXFiles cl s)"
  unfolding lister_ok_def
proof (intro allI ballI)
  fix um level
  obtain it where it: "cl_LTXFiles cl s level 0 um = Inr it" "it_items it = files s level"
    "it_err it = None" "it_close it = None" by (rule list_all_files [OF assms])
  have "sorted_wrt (\<lambda>a b. MinTXID a \<le> MinTXID b) (files s level)"
    using files_sorted [OF assms, of level] unfolding sorted_wrt_map
    by (rule sorted_wrt_mono_rel [rotated]) (auto simp: txid_range_def less_prod_def)
  then have "sorted (map MinTXID (files s level))"
    unfolding sorted_wrt_map .
  with it show "\<exists>it. cl_LTXFiles cl s level 0 um = Inr it \<and> it_err it = None \<and>
      it_close it = None \<and> sorted (map MinTXID (it_items it))" by auto
qed

lemma level_files_eq: "good s \<Longrightarrow> level_files (cl_LTXFiles cl s) ts = concat (map (files s) plan_levels)"
  unfolding level_files_def by (simp add: listing_files [THEN ext])

subsection \<open>Retention\<close>

text \<open>\<open>removed s s' K\<close>: from \<open>s\<close> to \<open>s'\<close> the replica lost some files with a key in \<open>K\<close>, and
  nothing else.\<close>

definition removed :: "'s \<Rightarrow> 's \<Rightarrow> file_key set \<Rightarrow> bool" where
  "removed s s' K \<longleftrightarrow> good s' \<and>
     (\<exists>D. D \<subseteq> K \<and> (\<forall>level. files s' level = filter (\<lambda>f. info_key f \<notin> D) (files s level)))"

lemma removed_refl: "good s \<Longrightarrow> removed s s K"
  by (auto simp: removed_def intro!: exI [of _ "{}"])

lemma removed_mono: "removed s s' K \<Longrightarrow> K \<subseteq> K' \<Longrightarrow> removed s s' K'"
  by (auto simp: removed_def)

lemma removed_good: "removed s s' K \<Longrightarrow> good s'"
  by (simp add: removed_def)

lemma removed_subset: "removed s s' K \<Longrightarrow> set (files s' level) \<subseteq> set (files s level)"
  by (auto simp: removed_def)

lemma removed_keeps:
  "removed s s' K \<Longrightarrow> f \<in> set (files s level) \<Longrightarrow> info_key f \<notin> K \<Longrightarrow> f \<in> set (files s' level)"
  by (auto simp: removed_def)

lemma removed_trans:
  assumes "removed s s1 K" "removed s1 s2 K"
  shows "removed s s2 K"
proof -
  obtain D1 D2 where D: "D1 \<subseteq> K" "D2 \<subseteq> K"
    "\<forall>level. files s1 level = filter (\<lambda>f. info_key f \<notin> D1) (files s level)"
    "\<forall>level. files s2 level = filter (\<lambda>f. info_key f \<notin> D2) (files s1 level)"
    using assms by (auto simp: removed_def)
  then have "\<forall>level. files s2 level = filter (\<lambda>f. info_key f \<notin> D1 \<union> D2) (files s level)"
    by (simp add: conj_commute)
  with D(1,2) show ?thesis
    using removed_good [OF assms(2)] by (auto simp: removed_def intro!: exI [of _ "D1 \<union> D2"])
qed

lemma removed_filter_last:
  assumes "removed s s' K" "filter P (files s level) = xs @ [f]" "info_key f \<notin> K"
  shows "\<exists>ys. filter P (files s' level) = ys @ [f]"
proof -
  obtain D where D: "D \<subseteq> K" "\<forall>level. files s' level = filter (\<lambda>f. info_key f \<notin> D) (files s level)"
    using assms(1) by (auto simp: removed_def)
  have "filter P (files s' level) = filter (\<lambda>f. info_key f \<notin> D) (filter P (files s level))"
    using D(2) by (simp add: conj_commute)
  then show ?thesis using assms(2,3) D(1) by auto
qed

lemma delete_marked_removed:
  assumes "good (rep st)" "delete_marked c cl level msg deleted st = (r, st')"
  shows "removed (rep st) (rep st') (info_key ` set deleted)"
proof (cases "RetentionEnabled c")
  case False
  then have "rep st' = rep st" using assms(2) by (auto simp: delete_marked_def)
  then show ?thesis using assms(1) by (simp add: removed_refl)
next
  case True
  obtain e s' where d: "cl_DeleteLTXFiles cl (rep st) deleted = (e, s')" by force
  then have "rep st' = s'" using assms(2) True by (auto simp: delete_marked_def split: option.splits)
  with delete_files [OF assms(1) d] show ?thesis by (auto simp: removed_def)
qed

definition expired :: "'s \<Rightarrow> go_time \<Rightarrow> file_info set" where
  "expired s ts = {f \<in> set (butlast (files s SnapshotLevel)). CreatedAt f < ts}"

lemma snapshot_retention_removed:
  assumes "good (rep st)" "snapshot_retention c cl ts st = (r, st')"
  shows "removed (rep st) (rep st') (info_key ` expired (rep st) ts)"
    "r = Inr m \<Longrightarrow> m = min_kept ts (files (rep st) SnapshotLevel) 0"
proof -
  let ?L = "files (rep st) SnapshotLevel"
  obtain it where it: "cl_LTXFiles cl (rep st) SnapshotLevel 0 False = Inr it" "it_items it = ?L"
    by (rule list_all_files [OF assms(1)])
  obtain d l where d: "snapshot_scan ts 0 ?L [] None 0 = (d, l, min_kept ts ?L 0)"
    "scan_inv (\<lambda>f. CreatedAt f < ts) ?L d l"
    using snapshot_scan_spec [OF scan_inv_Nil [of "\<lambda>f. CreatedAt f < ts"], of ?L 0] by auto
  obtain e st1 where e: "delete_marked c cl SnapshotLevel ''remove ltx files''
      (map snd (spare_last d l)) st = (e, st1)" by force
  have r: "st' = st1" "r = Inr m \<Longrightarrow> m = min_kept ts ?L 0"
    using assms(2) it d(1) e by (auto simp: snapshot_retention_def split: option.splits)
  have "set (map snd (spare_last d l)) = expired (rep st) ts"
    unfolding scan_inv_spare [OF d(2)] by (auto simp: expired_def)
  then show "removed (rep st) (rep st') (info_key ` expired (rep st) ts)"
    using delete_marked_removed [OF assms(1) e] r(1) by simp
  show "m = min_kept ts ?L 0" if "r = Inr m" by (rule r(2) [OF that])
qed

definition below :: "'s \<Rightarrow> int \<Rightarrow> u64 \<Rightarrow> file_info set" where
  "below s level t = {f \<in> set (butlast (files s level)). MaxTXID f < t}"

lemma EnforceRetentionByTXID_removed:
  assumes "good (rep st)" "EnforceRetentionByTXID c cl level t st = (r, st')"
  shows "removed (rep st) (rep st') (info_key ` below (rep st) level t)"
proof -
  let ?L = "files (rep st) level"
  obtain it where it: "cl_LTXFiles cl (rep st) level 0 False = Inr it" "it_items it = ?L"
    by (rule list_all_files [OF assms(1)])
  obtain d l where d: "txid_scan t 0 ?L [] None = (d, l)" "scan_inv (\<lambda>f. MaxTXID f < t) ?L d l"
    using txid_scan_spec [OF scan_inv_Nil [of "\<lambda>f. MaxTXID f < t"], of ?L] by auto
  have "delete_marked c cl level ''remove ltx files'' (map snd (spare_last d l)) st = (r, st')"
    using assms(2) it d(1) by (simp add: EnforceRetentionByTXID_def)
  moreover have "set (map snd (spare_last d l)) = below (rep st) level t"
    unfolding scan_inv_spare [OF d(2)] by (auto simp: below_def)
  ultimately show ?thesis using delete_marked_removed [OF assms(1)] by metis
qed

text \<open>The keys of files at the levels between 0 and the snapshots that end before \<open>t\<close>.\<close>

definition superseded :: "u64 \<Rightarrow> file_key set" where
  "superseded t = {(level, mn, mx). level \<noteq> 0 \<and> level \<noteq> SnapshotLevel \<and> mx < t}"

lemma retain_levels_removed:
  assumes "good (rep st)" "retain_levels c cl t levels st = (r, st')"
    and "\<forall>lvl \<in> set levels. lvl_Level lvl \<noteq> SnapshotLevel"
  shows "removed (rep st) (rep st') (superseded t)"
  using assms
proof (induction levels arbitrary: st)
  case Nil
  then show ?case by (simp add: removed_refl)
next
  case (Cons lvl levels)
  show ?case
  proof (cases "lvl_Level lvl = 0")
    case True
    then show ?thesis using Cons by simp
  next
    case False
    obtain e st1 where e: "EnforceRetentionByTXID c cl (lvl_Level lvl) t st = (e, st1)" by force
    have "info_key ` below (rep st) (lvl_Level lvl) t \<subseteq> superseded t"
      using False Cons.prems(3) files_level [OF Cons.prems(1)] in_set_butlastD
      by (force simp: below_def superseded_def info_key_def)
    then have 1: "removed (rep st) (rep st1) (superseded t)"
      using EnforceRetentionByTXID_removed [OF Cons.prems(1) e] by (rule removed_mono [rotated])
    show ?thesis
    proof (cases e)
      case None
      then have "retain_levels c cl t levels st1 = (r, st')"
        using Cons.prems(2) False e by simp
      with Cons.IH [OF removed_good [OF 1]] Cons.prems(3) 1 show ?thesis
        by (auto intro: removed_trans)
    next
      case (Some a)
      then have "st' = st1" using Cons.prems(2) False e by simp
      with 1 show ?thesis by simp
    qed
  qed
qed

text \<open>A level has no two files of the same TXID range.\<close>

lemma range_less:
  assumes "good s" "i < j" "j < length (files s level)"
  shows "txid_range (files s level ! i) < txid_range (files s level ! j)"
  using files_sorted [OF assms(1), of level] assms(2,3) by (simp add: sorted_wrt_iff_nth_less)

lemma same_key:
  assumes "good s" "f \<in> set (files s level)" "g \<in> set (files s level)" "info_key f = info_key g"
  shows "f = g"
proof -
  obtain i j where i: "i < length (files s level)" "files s level ! i = f"
    and j: "j < length (files s level)" "files s level ! j = g"
    using assms(2,3) by (auto simp: in_set_conv_nth)
  have "txid_range f = txid_range g" using assms(4) by (simp add: info_key_def txid_range_def)
  then have "i = j" using range_less [OF assms(1), of i j level] range_less [OF assms(1), of j i level] i j
    by (cases i j rule: linorder_cases) auto
  then show ?thesis using i j by simp
qed

lemma last_greatest:
  assumes "good s" "f \<in> set (files s level)" "f \<noteq> last (files s level)"
  shows "txid_range f < txid_range (last (files s level))"
proof -
  obtain i where i: "i < length (files s level)" "files s level ! i = f"
    using assms(2) by (auto simp: in_set_conv_nth)
  then have ne: "files s level \<noteq> []" by auto
  then have "i \<noteq> length (files s level) - 1" using assms(3) i by (auto simp: last_conv_nth)
  then have "i < length (files s level) - 1" using i by simp
  from range_less [OF assms(1) this, of level] i ne show ?thesis by (simp add: last_conv_nth)
qed

lemma last_not_butlast:
  assumes "good s" "f \<in> set (butlast (files s level))"
  shows "f \<noteq> last (files s level)"
proof -
  obtain i where i: "i < length (files s level) - 1" "files s level ! i = f"
    using assms(2) by (auto simp: in_set_conv_nth nth_butlast)
  then have "files s level \<noteq> []" by auto
  with range_less [OF assms(1) i(1), of level] i show ?thesis by (auto simp: last_conv_nth)
qed

lemma expired_spares:
  assumes "good s" "S \<in> set (files s SnapshotLevel)"
    and "\<not> CreatedAt S < ts \<or> S = last (files s SnapshotLevel)"
  shows "info_key S \<notin> info_key ` expired s ts"
proof
  assume "info_key S \<in> info_key ` expired s ts"
  then obtain g where g: "g \<in> set (butlast (files s SnapshotLevel))" "CreatedAt g < ts" "info_key S = info_key g"
    by (auto simp: expired_def)
  have "S = g" by (rule same_key [OF assms(1,2) in_set_butlastD [OF g(1)] g(3)])
  with last_not_butlast [OF assms(1) g(1)] g(2) assms(3) show False by simp
qed

lemma min_kept_bound:
  assumes "good s" "S \<in> set (files s SnapshotLevel)"
    and "\<not> CreatedAt S < ts \<or> S = last (files s SnapshotLevel)"
    and snaps: "\<forall>g \<in> set (files s SnapshotLevel). MinTXID g = 1 \<and> MaxTXID g \<noteq> 0"
  shows "min_kept ts (files s SnapshotLevel) 0 \<le> MaxTXID S"
proof (cases "\<exists>g \<in> set (files s SnapshotLevel). \<not> CreatedAt g < ts")
  case False
  then have "filter (\<lambda>f. \<not> CreatedAt f < ts) (files s SnapshotLevel) = []"
    by (auto simp: filter_empty_conv)
  then show ?thesis by (simp add: min_kept_def)
next
  case True
  then obtain g where g: "g \<in> set (files s SnapshotLevel)" "\<not> CreatedAt g < ts" by blast
  show ?thesis
  proof (cases "CreatedAt S < ts")
    case False
    with min_kept_le [OF assms(2)] snaps show ?thesis by blast
  next
    case old: True
    then have S: "S = last (files s SnapshotLevel)" using assms(3) by simp
    have "g \<noteq> S" using old g(2) by auto
    then have "txid_range g < txid_range S" using last_greatest [OF assms(1) g(1)] S by simp
    then have "MaxTXID g \<le> MaxTXID S"
      using snaps g(1) assms(2) by (auto simp: txid_range_def less_prod_def)
    moreover have "min_kept ts (files s SnapshotLevel) 0 \<le> MaxTXID g"
      using min_kept_le [OF g] snaps by blast
    ultimately show ?thesis by simp
  qed
qed

lemma contiguous_beyond: "contiguous m fs \<Longrightarrow> f \<in> set fs \<Longrightarrow> m < MaxTXID f"
  by (induction fs arbitrary: m) (auto intro: less_trans)

text \<open>A plan survives the loss of snapshots other than its own and of files its snapshot
  supersedes.\<close>

lemma removed_restorable:
  assumes g: "good s" and r: "removed s s' (info_key ` expired s ts \<union> superseded m)"
    and plan: "CalcRestorePlan mx (cl_LTXFiles cl s) t 0 = Inr plan" "slice_max_law mx" "t \<noteq> 0"
    and S: "plan_start (cl_LTXFiles cl s) t 0 = [S]" "info_key S \<notin> info_key ` expired s ts"
      "m \<le> MaxTXID S"
  shows "\<exists>plan'. CalcRestorePlan mx (cl_LTXFiles cl s') t 0 = Inr plan' \<and> MaxTXID (last plan') = t"
proof -
  let ?K = "info_key ` expired s ts \<union> superseded m"
  have g': "good s'" by (rule removed_good [OF r])
  obtain ext where e: "plan = S # ext" "contiguous (MaxTXID S) ext"
    "set ext \<subseteq> set (level_files (cl_LTXFiles cl s) 0)" "MaxTXID (last plan) = t"
    using CalcRestorePlan_sound' [OF plan(1,2)] plan(3) S(1) by auto
  have e9: "Level f = SnapshotLevel" if "f \<in> expired s ts" for f
    using that files_level [OF g, of f SnapshotLevel] in_set_butlastD by (fastforce simp: expired_def)
  have L: "Level f \<noteq> SnapshotLevel \<and> f \<in> set (files s (Level f)) \<and> Level f \<in> set plan_levels"
    if fe: "f \<in> set ext" for f
  proof -
    obtain l where "l \<in> set plan_levels" "f \<in> set (files s l)"
      using subsetD [OF e(3) fe] by (auto simp: level_files_eq [OF g])
    then show ?thesis
      using files_level [OF g, of f l] by (auto simp: plan_levels_def SnapshotLevel_def)
  qed
  have kept: "f \<in> set (files s' (Level f))" if f: "f \<in> set ext" for f
  proof (rule removed_keeps [OF r])
    show "f \<in> set (files s (Level f))" using L [OF f] by simp
    have "info_key f \<notin> superseded m"
      using contiguous_beyond [OF e(2) f] S(3) by (auto simp: superseded_def info_key_def)
    moreover have "info_key f \<notin> info_key ` expired s ts"
      using L [OF f] e9 by (auto simp: info_key_def)
    ultimately show "info_key f \<notin> ?K" by simp
  qed
  have ext': "set ext \<subseteq> set (level_files (cl_LTXFiles cl s') 0)"
    using kept L by (fastforce simp: level_files_eq [OF g'])
  have "S \<in> set (files s SnapshotLevel)"
    by (rule plan_start_cases [of "cl_LTXFiles cl s" t 0]) (use S(1) g in \<open>auto simp: listing_files\<close>)
  then have "info_key S \<notin> superseded m"
    using files_level [OF g, of S SnapshotLevel] by (auto simp: superseded_def info_key_def)
  then have SK: "info_key S \<notin> ?K" using S(2) by simp
  have "filter (in_target t 0) (files s SnapshotLevel) \<noteq> [] \<and>
      last (filter (in_target t 0) (files s SnapshotLevel)) = S"
    using S(1) by (auto simp: plan_start_def listing_files [OF g] split: list.splits)
  then have "filter (in_target t 0) (files s SnapshotLevel) =
      butlast (filter (in_target t 0) (files s SnapshotLevel)) @ [S]"
    by (metis append_butlast_last_id)
  from removed_filter_last [OF r this SK] obtain ys
    where "filter (in_target t 0) (files s' SnapshotLevel) = ys @ [S]" by blast
  then have start': "plan_start (cl_LTXFiles cl s') t 0 = [S]"
    by (cases ys) (simp_all add: plan_start_def listing_files [OF g'])
  have "end_txid (MaxTXID S) ext = t" using e(1,4) end_txid_last [of plan 0] by simp
  then show ?thesis
    using CalcRestorePlan_found [OF client_lister_ok [OF g'] plan(2,3) ext'] e(2) start' by simp
qed

lemma retention_restorable:
  assumes g: "good (rep st)" and lv: "\<forall>lvl \<in> set levels. lvl_Level lvl \<noteq> SnapshotLevel"
    and run: "Store_EnforceSnapshotRetention c cl levels now R st = (r, st')"
    and snaps: "\<forall>g \<in> set (files (rep st) SnapshotLevel). MinTXID g = 1 \<and> MaxTXID g \<noteq> 0"
    and plan: "CalcRestorePlan mx (cl_LTXFiles cl (rep st)) t 0 = Inr plan" "slice_max_law mx" "t \<noteq> 0"
    and S: "plan_start (cl_LTXFiles cl (rep st)) t 0 = [S]"
      "\<not> CreatedAt S < now - R \<or> S = last (files (rep st) SnapshotLevel)"
  shows "\<exists>plan'. CalcRestorePlan mx (cl_LTXFiles cl (rep st')) t 0 = Inr plan' \<and> MaxTXID (last plan') = t"
proof -
  let ?ts = "now - R" and ?m = "min_kept (now - R) (files (rep st) SnapshotLevel) 0"
  have SL: "S \<in> set (files (rep st) SnapshotLevel)"
    by (rule plan_start_cases [of "cl_LTXFiles cl (rep st)" t 0]) (use S(1) g in \<open>auto simp: listing_files\<close>)
  obtain q st1 where q: "DB_EnforceSnapshotRetention c cl ?ts st = (q, st1)" by force
  note R1 = snapshot_retention_removed [OF g q [unfolded DB_EnforceSnapshotRetention_def]]
  have "removed (rep st) (rep st') (info_key ` expired (rep st) ?ts \<union> superseded ?m)"
  proof (cases q)
    case (Inl e)
    then have "st' = st1" using run q by (simp add: Store_EnforceSnapshotRetention_def)
    then show ?thesis using R1(1) by (auto intro: removed_mono)
  next
    case (Inr m)
    then have "retain_levels c cl ?m levels st1 = (r, st')"
      using run q R1(2) [of m] by (simp add: Store_EnforceSnapshotRetention_def)
    from retain_levels_removed [OF removed_good [OF R1(1)] this lv] R1(1)
    show ?thesis by (blast intro: removed_trans removed_mono)
  qed
  from removed_restorable [OF g this plan S(1) expired_spares [OF g SL S(2)]
      min_kept_bound [OF g SL S(2) snaps]]
  show ?thesis .
qed

subsection \<open>Compaction\<close>

text \<open>The cache, where there is one, holds the newest file of the level.\<close>

definition cache_ok :: "compactor \<Rightarrow> int \<Rightarrow> 's cstate \<Rightarrow> bool" where
  "cache_ok c level st \<longleftrightarrow>
     (HasCache c \<longrightarrow> info_cache st level \<in> {None, Some (max_info (files (rep st) level))})"

lemma MaxLTXFileInfo_ok:
  assumes "good (rep st)" "cache_ok c level st"
  shows "\<exists>st1. MaxLTXFileInfo c cl level st = (Inr (max_info (files (rep st) level)), st1) \<and>
    rep st1 = rep st \<and> verifyErrors st1 = verifyErrors st"
proof -
  obtain it where it: "cl_LTXFiles cl (rep st) level 0 False = Inr it" "it_items it = files (rep st) level"
    "it_err it = None" "it_close it = None" by (rule list_all_files [OF assms(1)])
  then show ?thesis
    using assms(2) by (auto simp: MaxLTXFileInfo_def cache_ok_def set_cache_def Let_def)
qed

lemma files_inj: "good s \<Longrightarrow> inj_on txid_range (set (files s level))"
  using same_key [of s _ level] files_level [of s _ level]
  by (auto simp: inj_on_def info_key_def txid_range_def)

lemma write_appends:
  assumes "good s" "cl_WriteLTXFile cl s level mn mx stream = (Inr info, s')"
    and "\<forall>f \<in> set (files s level). txid_range f < (mn, mx)"
  shows "files s' level = files s level @ [info] \<and> MinTXID info = mn \<and> MaxTXID info = mx"
proof -
  have g': "good s'" and k: "info_key info = (level, mn, mx)"
    and other: "{f \<in> set (files s' level). info_key f \<noteq> (level, mn, mx)} =
        {f \<in> set (files s level). info_key f \<noteq> (level, mn, mx)}"
    and new: "{f \<in> set (files s' level). info_key f = (level, mn, mx)} = {info}"
    using write_file [OF assms(1,2)] by auto
  have i: "Level info = level" "txid_range info = (mn, mx)" "MinTXID info = mn" "MaxTXID info = mx"
    using k by (auto simp: info_key_def txid_range_def)
  have "info_key f \<noteq> (level, mn, mx)" if "f \<in> set (files s level)" for f
    using assms(3) that by (auto simp: info_key_def txid_range_def)
  then have set_eq: "set (files s' level) = insert info (set (files s level))"
    using other new by blast
  have srt: "sorted_wrt (<) (map txid_range (files s level @ [info]))"
    using files_sorted [OF assms(1), of level] assms(3) i by (auto simp: sorted_wrt_append)
  have "map txid_range (files s' level) = map txid_range (files s level @ [info])"
    by (rule strict_sorted_equal [OF srt files_sorted [OF g']]) (simp add: set_eq)
  moreover have "inj_on txid_range (set (files s' level) \<union> set (files s level @ [info]))"
    using files_inj [OF g', of level] set_eq by (simp add: Un_absorb2 subset_insertI)
  ultimately show ?thesis using inj_on_map_eq_map i by blast
qed

lemma level_below_last:
  assumes "good s" "consecutive (files s level)" "spans (files s level)"
    and "f \<in> set (files s level)"
  shows "MinTXID f \<le> MaxTXID (max_info (files s level))"
proof -
  have ne: "files s level \<noteq> []" using assms(4) by auto
  have m: "max_info (files s level) = last (files s level)"
    by (rule max_info_consecutive [OF assms(2,3) ne])
  have l: "MinTXID (last (files s level)) \<le> MaxTXID (last (files s level))"
    using assms(3) ne by (simp add: spans_def)
  show ?thesis
    using last_greatest [OF assms(1,4)] l m
    by (cases "f = last (files s level)") (auto simp: txid_range_def less_prod_def)
qed

lemma Compact_appends:
  fixes st :: "'s cstate" and level :: int
  defines "dst \<equiv> files (rep st) level"
  defines "src \<equiv> filter (\<lambda>f. MaxTXID (max_info dst) + 1 \<le> MinTXID f) (files (rep st) (level - 1))"
  assumes g: "good (rep st)" and cache: "cache_ok c level st"
    and d: "consecutive dst" "spans dst" and s: "consecutive src" "spans src"
    and link: "dst \<noteq> [] \<and> src \<noteq> [] \<longrightarrow> MinTXID (hd src) = MaxTXID (last dst) + 1"
    and run: "Compact c cl ltx_compact level st = (Inr info, st')"
  shows "src \<noteq> [] \<and> files (rep st') level = dst @ [info] \<and> consecutive (dst @ [info]) \<and>
    MinTXID info = MinTXID (hd src) \<and> MaxTXID info = MaxTXID (last src) \<and>
    verifyErrors st' = verifyErrors st"
proof -
  obtain st1 where m: "MaxLTXFileInfo c cl level st = (Inr (max_info dst), st1)"
    "rep st1 = rep st" "verifyErrors st1 = verifyErrors st"
    using MaxLTXFileInfo_ok [OF g cache] unfolding dst_def by blast
  obtain it where it: "cl_LTXFiles cl (rep st) (level - 1) (MaxTXID (max_info dst) + 1) False = Inr it"
    "it_items it = src"
    using list_files [OF g] unfolding src_def by blast
  obtain mn mx rdrs where o: "open_sources c cl (rep st) (level - 1) src 0 0 [] = Inr (mn, mx, rdrs)"
    "rdrs \<noteq> []"
    using run m it by (auto simp: Compact_def Let_def split: sum.splits if_splits)
  have ne: "src \<noteq> []" using o by auto
  have r: "mn = MinTXID (hd src)" "mx = MaxTXID (last src)"
    using open_sources_range [OF o(1) s ne] by auto
  obtain s2 where w: "cl_WriteLTXFile cl (rep st) level mn mx (ltx_compact rdrs) = (Inr info, s2)"
    using run m it o by (auto simp: Compact_def Let_def split: sum.splits prod.splits if_splits)
  have below: "\<forall>f \<in> set dst. txid_range f < (mn, mx)"
  proof
    fix f assume f: "f \<in> set dst"
    then have "dst \<noteq> []" by auto
    then have "mn = MaxTXID (max_info dst) + 1"
      using link ne r(1) max_info_consecutive [OF d] by simp
    moreover have "1 \<le> mn" using s(2) ne r(1) by (simp add: spans_def)
    ultimately have "MaxTXID (max_info dst) < mn" by (intro succ_le_imp_less) auto
    then have "MinTXID f < mn"
      using level_below_last [OF g d[unfolded dst_def], of f] f unfolding dst_def by (auto intro: le_less_trans)
    then show "txid_range f < (mn, mx)" by (simp add: txid_range_def less_prod_def)
  qed
  note a = write_appends [OF g w, folded dst_def, OF below]
  have c: "consecutive (dst @ [info])" using d(1) link ne a r by simp
  have g2: "good s2" using write_file [OF g w] by blast
  obtain it2 where it2: "cl_LTXFiles cl s2 level 0 False = Inr it2" "it_items it2 = dst @ [info]"
    "it_err it2 = None" "it_close it2 = None"
    using a by (metis list_all_files [OF g2])
  have v: "VerifyLevelConsistency cl level s2 = None"
    using it2 iffD2 [OF verify_loop_None c] by (simp add: VerifyLevelConsistency_def)
  have "rep st' = s2 \<and> verifyErrors st' = verifyErrors st"
    using run m it o w v by (auto simp: Compact_def Let_def set_cache_def split: if_splits)
  with ne a c r show ?thesis by simp
qed

subsection \<open>Level-0 retention\<close>

lemma delete_marked_all:
  assumes "good (rep st)" "delete_marked c cl level msg deleted st = (None, st')" "RetentionEnabled c"
  shows "files (rep st') l = filter (\<lambda>f. info_key f \<notin> info_key ` set deleted) (files (rep st) l)"
proof -
  obtain e s' where d: "cl_DeleteLTXFiles cl (rep st) deleted = (e, s')" by force
  then have "e = None" "rep st' = s'"
    using assms(2,3) by (auto simp: delete_marked_def split: option.splits)
  with delete_files [OF assms(1) d] show ?thesis by auto
qed

lemma remove_prefix:
  assumes "good s" "set deleted = set (take k (files s level))"
  shows "filter (\<lambda>f. info_key f \<notin> info_key ` set deleted) (files s level) = drop k (files s level)"
proof -
  let ?L = "files s level"
  have "info_key f \<notin> info_key ` set (take k ?L)" if f: "f \<in> set (drop k ?L)" for f
  proof
    assume "info_key f \<in> info_key ` set (take k ?L)"
    then obtain g where g: "g \<in> set (take k ?L)" "info_key f = info_key g" by blast
    have "f = g" using same_key [OF assms(1) _ _ g(2)] f g(1) by (meson in_set_dropD in_set_takeD)
    moreover have "distinct ?L"
      using files_sorted [OF assms(1), of level] by (metis distinct_map strict_sorted_iff)
    ultimately show False using f g(1) set_take_disj_set_drop_if_distinct [of ?L k k] by auto
  qed
  moreover have "info_key f \<in> info_key ` set (take k ?L)" if "f \<in> set (take k ?L)" for f
    using that by blast
  ultimately have "filter (\<lambda>f. info_key f \<notin> info_key ` set (take k ?L)) (take k ?L @ drop k ?L) = drop k ?L"
    by (simp only: filter_append) (simp add: filter_empty_conv filter_id_conv)
  then show ?thesis using assms(2) by (metis append_take_drop_id)
qed

lemma l0_retention_drops:
  fixes st :: "'s cstate"
  defines "L \<equiv> files (rep st) 0"
  defines "maxL1 \<equiv> MaxTXID (max_info (files (rep st) 1))"
  assumes g: "good (rep st)" and en: "RetentionEnabled c" and L: "consecutive L" "spans L"
    and run: "l0_retention c cl now R created st = (None, st')"
  shows "\<exists>k. files (rep st') 0 = drop k L \<and> consecutive (drop k L) \<and> (L \<noteq> [] \<longrightarrow> k < length L) \<and>
    (\<forall>f \<in> set (take k L). MaxTXID f \<le> maxL1 \<and> l0_old (now - R) created f)"
proof -
  obtain it1 where it1: "cl_LTXFiles cl (rep st) 1 0 False = Inr it1" "it_items it1 = files (rep st) 1"
    "it_close it1 = None" using list_all_files [OF g] by metis
  obtain it where it: "cl_LTXFiles cl (rep st) 0 0 False = Inr it" "it_items it = L"
    using list_all_files [OF g] unfolding L_def by metis
  have stay: ?thesis if "st' = st"
    using that L by (intro exI [of _ 0]) (auto simp: L_def)
  let ?P = "l0_old (now - R) created" and ?Q = "\<lambda>f. MaxTXID f \<le> maxL1"
  obtain d l b where d: "l0_scan (now - R) created maxL1 0 L [] None = (d, l, b)"
    "b \<longleftrightarrow> list_all ?P L" "map snd d = filter ?Q (takeWhile ?P L)" "b \<longrightarrow> scan_inv ?Q L d l"
    using l0_scan_spec [OF scan_inv_Nil [of ?Q], of "now - R" created L] by auto
  define n where "n = (if b then length L - 1 else length (takeWhile ?P L))"
  define del where "del = map snd (if b then spare_last d l else d)"
  have "n = length L - 1 \<and> b \<or> n = length (takeWhile ?P L) \<and> \<not> b" by (simp add: n_def)
  then have del: "del = filter ?Q (take n L)"
    using d(3) scan_inv_spare [of ?Q L d l] d(4) takeWhile_eq_take [of ?P L]
    by (auto simp: del_def butlast_conv_take)
  have tw: "take (length (takeWhile ?P L)) L = takeWhile ?P L"
    by (rule takeWhile_eq_take [symmetric])
  have n: "L \<noteq> [] \<longrightarrow> n < length L"
  proof (cases b)
    case True
    then show ?thesis by (simp add: n_def)
  next
    case False
    then have "\<not> (\<forall>f \<in> set L. ?P f)" using d(2) by (simp add: list_all_iff)
    then have "takeWhile ?P L \<noteq> L" unfolding takeWhile_eq_all_conv .
    then have "length (takeWhile ?P L) \<noteq> length L" using tw by (metis take_all order_refl)
    then show ?thesis using False length_takeWhile_le [of ?P L] by (simp add: n_def)
  qed
  have old: "\<forall>f \<in> set (take n L). ?P f"
  proof (cases b)
    case True
    then show ?thesis using d(2) by (auto simp: list_all_iff dest: in_set_takeD)
  next
    case False
    then show ?thesis using tw by (auto simp: n_def dest: set_takeWhileD)
  qed
  have sp: "spans (take n L)" using L(2) by (auto simp: spans_def dest: in_set_takeD)
  have "del = takeWhile ?Q (take n L)"
    unfolding del by (rule filter_prefix [OF consecutive_take [OF L(1)] sp])
  then obtain k where k: "del = take k L" "k \<le> n"
    by (metis takeWhile_eq_take take_take min.cobounded2)
  show ?thesis
  proof (cases "R \<le> 0 \<or> maxL1 = 0 \<or> del = []")
    case True
    then have "st' = st"
      using run it1 it d(1) by (auto simp: l0_retention_def Let_def maxL1_def del_def split: if_splits)
    then show ?thesis by (rule stay)
  next
    case False
    then have "delete_marked c cl 0 ''remove expired l0 files'' del st = (None, st')"
      using run it1 it d(1) by (simp add: l0_retention_def Let_def maxL1_def del_def)
    from delete_marked_all [OF g this en] k(1)
    have "files (rep st') 0 = drop k L"
      using remove_prefix [OF g, of del k 0] unfolding L_def by simp
    moreover have "set (take k L) = set (filter ?Q (take n L))" using k(1) del by metis
    then have "\<forall>f \<in> set (take k L). ?Q f \<and> ?P f" using old by simp
    ultimately show ?thesis
      using consecutive_drop [OF L(1), of k] k(2) n by (intro exI [of _ k]) auto
  qed
qed

end

end
