(* ===== verification/Resumable_Reader.thy ===== *)
theory Resumable_Reader
  imports Prelude
begin

text \<open>
  Streams from a storage backend: \<open>internal/resumable_reader.go\<close>,
  \<open>internal/limit_read_closer.go\<close> and \<open>OpenLTXFile\<close> of \<open>file/replica_client.go\<close>.

  An \<open>io.Reader\<close> is a function from the reader's state and the buffer length to the bytes
  read, the error and the next state. The backend behind a \<open>ResumableReader\<close> is a parameter:
  \<open>opn\<close> opens the file at an offset and changes the state of the world, \<open>rd\<close> reads from a
  connection. The locale \<open>storage\<close> states what a backend that serves ranges of one file owes
  the reader, and is interpreted on the file replica client. The lemmas show the reader's
  accounting, which needs no assumption on the backend, and where the bytes it returns come from.
\<close>

section \<open>Model\<close>

type_synonym 'rc io_read = "'rc \<Rightarrow> nat \<Rightarrow> byte list \<times> go_error option \<times> 'rc"

subsection \<open>Limited reader\<close>

record 'rc limited =
  lrc_R :: 'rc
  lrc_N :: int

definition LimitReadCloser :: "'rc \<Rightarrow> int \<Rightarrow> 'rc limited" where
  "LimitReadCloser r n = \<lparr>lrc_R = r, lrc_N = n\<rparr>"

definition LimitedReadCloser_Read :: "'rc io_read \<Rightarrow> 'rc limited io_read" where
  "LimitedReadCloser_Read rd l n =
     (if lrc_N l \<le> 0 then ([], Some EOF, l)
      else case rd (lrc_R l) (if int n > lrc_N l then nat (lrc_N l) else n) of
        (bs, err, R') \<Rightarrow> (bs, err, l\<lparr>lrc_R := R', lrc_N := lrc_N l - int (length bs)\<rparr>))"

subsection \<open>The file client's stream\<close>

record os_file =
  fcontent :: "byte list"
  fpos :: nat

definition os_file_Read :: "os_file io_read" where
  "os_file_Read f n =
     (let bs = sub (fpos f) n (fcontent f)
      in if n = 0 then ([], None, f)
         else if bs = [] then ([], Some EOF, f)
         else (bs, None, f\<lparr>fpos := fpos f + length bs\<rparr>))"

datatype file_rc = PlainFile os_file | LimitedFile "os_file limited"

fun file_rc_Read :: "file_rc io_read" where
  "file_rc_Read (PlainFile f) n =
     (case os_file_Read f n of (bs, err, f') \<Rightarrow> (bs, err, PlainFile f'))"
| "file_rc_Read (LimitedFile l) n =
     (case LimitedReadCloser_Read os_file_Read l n of (bs, err, l') \<Rightarrow> (bs, err, LimitedFile l'))"

text \<open>The world is what the path of the LTX file holds; the error carries the operation and path.\<close>

definition file_OpenLTXFile ::
  "(go_error \<Rightarrow> go_error) \<Rightarrow> byte list option \<Rightarrow> int \<Rightarrow> int \<Rightarrow> go_error + file_rc" where
  "file_OpenLTXFile newLTXError path offset sz =
     (case path of
        None \<Rightarrow> Inl (newLTXError ErrNotExist)
      | Some content \<Rightarrow>
          (let f = \<lparr>fcontent = content, fpos = (if offset > 0 then nat offset else 0)\<rparr>
           in if sz > 0 then Inr (LimitedFile (LimitReadCloser f sz))
              else Inr (PlainFile f)))"

subsection \<open>Resumable reader\<close>

record 'rc resumable =
  rr_size :: int
  rr_offset :: int
  rr_rc :: "'rc option"

type_synonym ('w, 'rc) opener = "'w \<Rightarrow> int \<Rightarrow> (go_error + 'rc) \<times> 'w"

definition NewResumableReader :: "int \<Rightarrow> 'rc \<Rightarrow> 'rc resumable" where
  "NewResumableReader sz rc = \<lparr>rr_size = sz, rr_offset = 0, rr_rc = Some rc\<rparr>"

definition resumableReaderMaxRetries :: nat where "resumableReaderMaxRetries = 3"

text \<open>Reopening: one byte before the current offset.\<close>

definition reopen ::
  "('w, 'rc) opener \<Rightarrow> 'rc resumable \<Rightarrow> 'w \<Rightarrow> (go_error + 'rc) \<times> 'w" where
  "reopen opn r w =
     (case rr_rc r of
        Some rc \<Rightarrow> (Inr rc, w)
      | None \<Rightarrow>
          (let resumeOffset = (if rr_offset r > 0 then rr_offset r - 1 else rr_offset r)
           in case opn w resumeOffset of
                (Inl e, w') \<Rightarrow> (Inl (Wrapf ''reopen ltx file at offset'' e), w')
              | (Inr rc, w') \<Rightarrow> (Inr rc, w')))"

text \<open>The attempt loop; the first argument counts the attempts left.\<close>

fun read_attempts ::
  "('w, 'rc) opener \<Rightarrow> 'rc io_read \<Rightarrow> nat \<Rightarrow> 'rc resumable \<Rightarrow> 'w \<Rightarrow> nat \<Rightarrow>
     byte list \<times> go_error option \<times> 'rc resumable \<times> 'w" where
  "read_attempts opn rd 0 r w n =
     ([], Some (Errorf ''max retries exceeded reading ltx file''), r, w)"
| "read_attempts opn rd (Suc k) r w n =
     (case reopen opn r w of
        (Inl e, w') \<Rightarrow> ([], Some e, r, w')
      | (Inr rc, w') \<Rightarrow>
          (case rd rc n of (bs, err, rc') \<Rightarrow>
             (let r' = r\<lparr>rr_rc := Some rc', rr_offset := rr_offset r + int (length bs)\<rparr>
              in case err of
                   None \<Rightarrow> (bs, None, r', w')
                 | Some e \<Rightarrow>
                     if e = EOF \<and> \<not> (rr_size r > 0 \<and> rr_offset r' < rr_size r)
                     then (bs, Some EOF, r', w')
                     else if bs \<noteq> [] then (bs, None, r'\<lparr>rr_rc := None\<rparr>, w')
                     else read_attempts opn rd k (r'\<lparr>rr_rc := None\<rparr>) w' n)))"

definition ResumableReader_Read ::
  "('w, 'rc) opener \<Rightarrow> 'rc io_read \<Rightarrow> 'rc resumable \<Rightarrow> 'w \<Rightarrow> nat \<Rightarrow>
     byte list \<times> go_error option \<times> 'rc resumable \<times> 'w" where
  "ResumableReader_Read opn rd r w n =
     read_attempts opn rd (resumableReaderMaxRetries + 1) r w n"

lemma ResumableReader_Read_attempts:
  "ResumableReader_Read opn rd r w n = read_attempts opn rd (Suc (Suc (Suc (Suc 0)))) r w n"
  by (simp add: ResumableReader_Read_def resumableReaderMaxRetries_def eval_nat_numeral)

text \<open>A caller: reads into buffers of the given sizes until the first error.\<close>

fun read_calls ::
  "('w, 'rc) opener \<Rightarrow> 'rc io_read \<Rightarrow> 'rc resumable \<Rightarrow> 'w \<Rightarrow> nat list \<Rightarrow>
     byte list \<times> go_error option \<times> 'rc resumable \<times> 'w" where
  "read_calls opn rd r w [] = ([], None, r, w)"
| "read_calls opn rd r w (n # ns) =
     (case ResumableReader_Read opn rd r w n of
        (bs, Some e, r', w') \<Rightarrow> (bs, Some e, r', w')
      | (bs, None, r', w') \<Rightarrow>
          (case read_calls opn rd r' w' ns of (bs', err, r'', w'') \<Rightarrow> (bs @ bs', err, r'', w'')))"

section \<open>Accounting\<close>

lemma read_attempts_accounting:
  assumes "read_attempts opn rd k r w n = (bs, err, r', w')"
  shows "rr_offset r' = rr_offset r + int (length bs) \<and> rr_size r' = rr_size r \<and>
    (err = Some EOF \<longrightarrow> rr_size r \<le> 0 \<or> rr_size r \<le> rr_offset r')"
  using assms
proof (induction k arbitrary: r w)
  case (Suc k)
  obtain o1 w1 where o: "reopen opn r w = (o1, w1)" by force
  show ?case
  proof (cases o1)
    case (Inl e)
    have "e \<noteq> EOF" using o Inl by (auto simp: reopen_def Let_def split: option.splits prod.splits sum.splits)
    then show ?thesis using Suc.prems o Inl by auto
  next
    case (Inr rc)
    obtain bs1 e1 rc1 where r1: "rd rc n = (bs1, e1, rc1)" by (metis prod_cases3)
    show ?thesis
      using Suc.prems o Inr r1
        Suc.IH [of "r\<lparr>rr_rc := None, rr_offset := rr_offset r + int (length bs1)\<rparr>" w1]
      by (auto simp: Let_def split: option.splits if_splits)
  qed
qed auto

text \<open>C25: Whatever the storage backend does, a caller never sees the end of a file of known size
  before that many bytes have been handed out, and the reader's offset counts exactly the bytes
  handed out.\<close>

theorem read_calls_accounting:
  assumes "read_calls opn rd r w ns = (bs, err, r', w')"
  shows "rr_offset r' = rr_offset r + int (length bs) \<and>
    (err = Some EOF \<and> 0 < rr_size r \<longrightarrow> rr_size r \<le> rr_offset r + int (length bs))"
proof -
  have "rr_offset r' = rr_offset r + int (length bs) \<and>
    (err = Some EOF \<and> 0 < rr_size r \<longrightarrow> rr_size r \<le> rr_offset r')"
    using assms
  proof (induction ns arbitrary: r w bs err r' w')
    case (Cons n ns)
    obtain b1 e1 r1 w1 where x: "ResumableReader_Read opn rd r w n = (b1, e1, r1, w1)"
      by (metis prod_cases4)
    note A = read_attempts_accounting [OF x [unfolded ResumableReader_Read_def]]
    obtain b2 e2 r2 w2 where y: "read_calls opn rd r1 w1 ns = (b2, e2, r2, w2)"
      by (metis prod_cases4)
    show ?case
      using Cons.prems A Cons.IH [OF y] by (cases e1) (auto simp: x y)
  qed auto
  then show ?thesis by auto
qed

text \<open>An honest two-byte file behind a connection that reports the end early, once.\<close>

definition flaky_open :: "(nat, nat \<times> bool) opener" where
  "flaky_open w off = (Inr (nat off, w = 0), Suc w)"

definition flaky_read :: "byte list \<Rightarrow> (nat \<times> bool) io_read" where
  "flaky_read f rc n =
     (let bs = sub (fst rc) (if snd rc then 1 else n) f
      in (bs, if snd rc \<or> bs = [] then Some EOF else None, (fst rc + length bs, False)))"

theorem read_calls_accounting_witness:
  "\<exists>bs r' w'. read_calls flaky_open (flaky_read [10, 11, 12])
       (NewResumableReader 3 (0, True)) 1 [2, 2, 2, 2] = (bs, Some EOF, r', w') \<and>
     rr_offset r' = int (length bs) \<and> 3 \<le> int (length bs)"
proof -
  obtain bs err r' w' where e: "read_calls flaky_open (flaky_read [10, 11, 12])
       (NewResumableReader 3 (0, True)) 1 [2, 2, 2, 2] = (bs, err, r', w')"
    by (metis prod_cases4)
  have "err = Some EOF"
    using e by (simp add: ResumableReader_Read_attempts NewResumableReader_def
        reopen_def flaky_open_def flaky_read_def sub_def eval_nat_numeral)
  with read_calls_accounting [OF e] e show ?thesis
    by (simp add: NewResumableReader_def)
qed

section \<open>Where the bytes come from\<close>

locale storage =
  fixes f :: "byte list"
    and ok :: "'rc \<Rightarrow> bool"
    and pos :: "'rc \<Rightarrow> nat"
    and opn :: "('w, 'rc) opener"
    and rd :: "'rc io_read"
  assumes open_pos: "opn w off = (Inr rc, w') \<Longrightarrow> 0 \<le> off \<Longrightarrow> ok rc \<and> pos rc = nat off"
    and read_bytes: "ok rc \<Longrightarrow> rd rc n = (bs, err, rc') \<Longrightarrow>
      ok rc' \<and> bs = sub (pos rc) (length bs) f \<and> pos rc' = pos rc + length bs"
begin

text \<open>The bytes delivered: a prefix of the file, or a prefix with the byte before the first
  reconnection point \<open>o\<close> delivered twice.\<close>

definition straight :: "byte list \<Rightarrow> bool" where
  "straight d \<longleftrightarrow> d = take (length d) f"

definition doubled :: "byte list \<Rightarrow> bool" where
  "doubled d \<longleftrightarrow> (\<exists>o1. 0 < o1 \<and> o1 \<le> length d \<and> o1 \<le> length f \<and>
     d = take o1 f @ sub (o1 - 1) (length d - o1) f)"

definition reader_inv :: "byte list \<Rightarrow> 'rc resumable \<Rightarrow> bool" where
  "reader_inv d r \<longleftrightarrow> rr_offset r = int (length d) \<and>
     (case rr_rc r of
        None \<Rightarrow> straight d \<or> doubled d
      | Some rc \<Rightarrow> ok rc \<and>
          (straight d \<and> pos rc = length d \<or> doubled d \<and> Suc (pos rc) = length d))"

lemma straight_step:
  assumes "straight d" "bs = sub (length d) (length bs) f"
  shows "straight (d @ bs)"
  using assms unfolding straight_def sub_def by (metis length_append take_add)

lemma doubled_step:
  assumes "doubled d" "bs = sub (length d - 1) (length bs) f"
  shows "doubled (d @ bs)"
proof -
  obtain o1 where o: "0 < o1" "o1 \<le> length d" "o1 \<le> length f"
    "d = take o1 f @ sub (o1 - 1) (length d - o1) f"
    using assms(1) unfolding doubled_def by blast
  have l: "length (d @ bs) - o1 = (length d - o1) + length bs"
    "(o1 - 1) + (length d - o1) = length d - 1" using o(1,2) by simp_all
  have "d @ bs = take o1 f @ sub (o1 - 1) (length (d @ bs) - o1) f"
    unfolding l(1) sub_add l(2) by (subst assms(2), subst o(4)) simp
  moreover have "o1 \<le> length (d @ bs)" using o(2) by simp
  ultimately show ?thesis
    unfolding doubled_def using o(1,3) by blast
qed

lemma reopen_inv:
  assumes "reader_inv d r" "reopen opn r w = (Inr rc, w')"
  shows "reader_inv d (r\<lparr>rr_rc := Some rc\<rparr>)"
proof (cases "rr_rc r")
  case None
  let ?off = "if rr_offset r > 0 then rr_offset r - 1 else rr_offset r"
  have off: "rr_offset r = int (length d)" using assms(1) by (simp add: reader_inv_def)
  have "opn w ?off = (Inr rc, w')"
    using assms(2) None by (auto simp: reopen_def Let_def split: prod.splits sum.splits)
  from open_pos [OF this] off have p: "ok rc" "pos rc = length d - 1" by auto
  have "doubled d" if "straight d" "d \<noteq> []"
  proof -
    have "length d \<le> length f" using that(1) by (metis straight_def length_take min.cobounded1)
    then show ?thesis
      using that unfolding doubled_def straight_def by (intro exI [of _ "length d"]) (simp add: sub_def)
  qed
  then show ?thesis
    using assms(1) None p by (cases "d = []") (auto simp: reader_inv_def doubled_def straight_def)
next
  case (Some rc')
  then show ?thesis using assms by (simp add: reopen_def reader_inv_def)
qed

lemma read_attempts_inv:
  assumes "reader_inv d r" "read_attempts opn rd k r w n = (bs, err, r', w')"
  shows "reader_inv (d @ bs) r'"
  using assms
proof (induction k arbitrary: r w)
  case (Suc k)
  obtain o1 w1 where o: "reopen opn r w = (o1, w1)" by force
  show ?case
  proof (cases o1)
    case (Inl e)
    then show ?thesis using Suc.prems o by auto
  next
    case (Inr rc)
    obtain bs1 e1 rc1 where r1: "rd rc n = (bs1, e1, rc1)" by (metis prod_cases3)
    have i: "reader_inv d (r\<lparr>rr_rc := Some rc\<rparr>)"
      using reopen_inv Suc.prems(1) o Inr by blast
    note R = read_bytes [OF _ r1]
    have p: "Suc (pos rc) = length d \<Longrightarrow> length d - 1 = pos rc" by simp
    let ?r = "r\<lparr>rr_rc := Some rc1, rr_offset := rr_offset r + int (length bs1)\<rparr>"
    have i1: "reader_inv (d @ bs1) ?r"
      using i R straight_step [of d bs1] doubled_step [of d bs1]
      by (auto simp: reader_inv_def p simp del: One_nat_def)
    have i2: "reader_inv (d @ bs1) (?r\<lparr>rr_rc := None\<rparr>)"
      using i1 by (auto simp: reader_inv_def)
    show ?thesis
      using Suc.prems(2) o Inr r1 i1 i2 Suc.IH [of "?r\<lparr>rr_rc := None\<rparr>" w1]
      by (auto simp: Let_def split: option.splits if_splits)
  qed
qed auto

lemma read_calls_inv:
  "reader_inv d r \<Longrightarrow> read_calls opn rd r w ns = (bs, err, r', w') \<Longrightarrow> reader_inv (d @ bs) r'"
proof (induction ns arbitrary: d r w bs err r' w')
  case (Cons n ns)
  obtain b1 e1 r1 w1 where x: "ResumableReader_Read opn rd r w n = (b1, e1, r1, w1)"
    by (metis prod_cases4)
  note A = read_attempts_inv [OF Cons.prems(1) x [unfolded ResumableReader_Read_def]]
  obtain b2 e2 r2 w2 where y: "read_calls opn rd r1 w1 ns = (b2, e2, r2, w2)"
    by (metis prod_cases4)
  show ?case
    using Cons.prems(2) A Cons.IH [OF A y] by (cases e1) (auto simp: x y)
qed auto

lemma delivered:
  assumes "ok rc" "pos rc = 0"
    and "read_calls opn rd (NewResumableReader sz rc) w ns = (bs, err, r', w')"
  shows "straight bs \<or> doubled bs"
proof -
  have "reader_inv [] (NewResumableReader sz rc)"
    using assms(1,2) by (simp add: reader_inv_def NewResumableReader_def straight_def)
  from read_calls_inv [OF this assms(3)] show ?thesis
    by (auto simp: reader_inv_def split: option.splits)
qed

end

subsection \<open>The file client as a storage\<close>

fun rc_file :: "file_rc \<Rightarrow> os_file" where
  "rc_file (PlainFile f) = f"
| "rc_file (LimitedFile l) = lrc_R l"

definition file_opener ::
  "(go_error \<Rightarrow> go_error) \<Rightarrow> byte list \<Rightarrow> ('w, file_rc) opener" where
  "file_opener mk content w off = (file_OpenLTXFile mk (Some content) off 0, w)"

lemma os_file_Read_bytes:
  "os_file_Read f n = (bs, err, f') \<Longrightarrow>
   fcontent f' = fcontent f \<and> bs = sub (fpos f) (length bs) (fcontent f) \<and>
   fpos f' = fpos f + length bs"
  using sub_self_length [of "fpos f" n "fcontent f"]
  by (auto simp: os_file_Read_def Let_def split: if_splits)

lemma file_rc_Read_bytes:
  "file_rc_Read rc n = (bs, err, rc') \<Longrightarrow>
   fcontent (rc_file rc') = fcontent (rc_file rc) \<and>
   bs = sub (fpos (rc_file rc)) (length bs) (fcontent (rc_file rc)) \<and>
   fpos (rc_file rc') = fpos (rc_file rc) + length bs"
  by (cases rc)
    (auto simp: LimitedReadCloser_Read_def split: prod.splits if_splits dest!: os_file_Read_bytes)

interpretation file_storage: storage content "\<lambda>rc. fcontent (rc_file rc) = content"
  "\<lambda>rc. fpos (rc_file rc)" "file_opener mk content" file_rc_Read for content mk
proof
  show "fcontent (rc_file rc) = content \<and> fpos (rc_file rc) = nat off"
    if "file_opener mk content w off = (Inr rc, w')" "0 \<le> off" for w w' :: 'a and off rc
    using that by (auto simp: file_opener_def file_OpenLTXFile_def Let_def)
  show "fcontent (rc_file rc') = content \<and> bs = sub (fpos (rc_file rc)) (length bs) content \<and>
      fpos (rc_file rc') = fpos (rc_file rc) + length bs"
    if "fcontent (rc_file rc) = content" "file_rc_Read rc n = (bs, err, rc')" for rc n bs err rc'
    using file_rc_Read_bytes [OF that(2)] that(1) by simp
qed

text \<open>The limited reader never hands out more than its limit, and its counter is exact.\<close>

lemma LimitedReadCloser_Read_bound:
  assumes "LimitedReadCloser_Read os_file_Read l n = (bs, err, l')" "0 \<le> lrc_N l"
  shows "int (length bs) \<le> lrc_N l \<and> length bs \<le> n \<and> lrc_N l' = lrc_N l - int (length bs)"
  using assms
  by (auto simp: LimitedReadCloser_Read_def os_file_Read_def Let_def split: if_splits)

section \<open>Reader properties\<close>

text \<open>C24: Over any backend that serves ranges of one file, however its connections break, a
  caller of a fresh reader receives a prefix of the file, or a prefix in which the one byte before
  the first reconnection point occurs twice, because the reader reopens one byte early and does
  not drop the overlap.\<close>

theorem read_calls_bytes:
  assumes "storage f ok pos opn rd" "ok rc" "pos rc = 0"
    and "read_calls opn rd (NewResumableReader sz rc) w ns = (bs, err, r', w')"
  shows "bs = take (length bs) f \<or>
    (\<exists>o1. 0 < o1 \<and> o1 \<le> length bs \<and> o1 \<le> length f \<and>
       bs = take o1 f @ sub (o1 - 1) (length bs - o1) f)"
  using storage.delivered [OF assms]
  by (simp add: storage.straight_def [OF assms(1)] storage.doubled_def [OF assms(1)])

theorem read_calls_bytes_witness:
  "\<exists>bs err r' w'. read_calls (file_opener id [7, 8, 9]) file_rc_Read
      (NewResumableReader 3 (PlainFile \<lparr>fcontent = [7, 8, 9], fpos = 0\<rparr>)) () [2, 2, 2] = (bs, err, r', w') \<and>
    (bs = take (length bs) [7, 8, 9] \<or>
      (\<exists>o1. 0 < o1 \<and> o1 \<le> length bs \<and> o1 \<le> length [7 :: byte, 8, 9] \<and>
         bs = take o1 [7, 8, 9] @ sub (o1 - 1) (length bs - o1) [7, 8, 9]))"
proof -
  obtain bs err r' w' where e: "read_calls (file_opener id [7, 8, 9]) file_rc_Read
      (NewResumableReader 3 (PlainFile \<lparr>fcontent = [7, 8, 9], fpos = 0\<rparr>)) () [2, 2, 2] = (bs, err, r', w')"
    by (metis prod_cases4)
  have "fcontent (rc_file (PlainFile \<lparr>fcontent = [7, 8, 9], fpos = 0\<rparr>)) = [7, 8, 9]"
    "fpos (rc_file (PlainFile \<lparr>fcontent = [7, 8, 9], fpos = 0\<rparr>)) = 0" by simp_all
  from read_calls_bytes [OF file_storage.storage_axioms this e] e show ?thesis by blast
qed

text \<open>The flaky backend honours the contract.\<close>

interpretation flaky_storage: storage f "\<lambda>_. True" fst flaky_open "flaky_read f" for f
proof
  show "True \<and> fst rc = nat off" if "flaky_open w off = (Inr rc, w')" for w w' off rc
    using that by (auto simp: flaky_open_def)
  show "True \<and> bs = sub (fst rc) (length bs) f \<and> fst rc' = fst rc + length bs"
    if "flaky_read f rc n = (bs, err, rc')" for rc n bs err rc'
    using that sub_self_length [of "fst rc" _ f] by (auto simp: flaky_read_def Let_def)
qed


text \<open>C28: Over the file replica client, a reader of a file of the given size delivers exactly the
  bytes asked for, in order, and reports the end only when the whole file has been delivered.\<close>

theorem file_client_transparent:
  assumes "\<forall>n \<in> set ns. 0 < n"
    and "read_calls (file_opener mk content) file_rc_Read
      (NewResumableReader (int (length content)) (PlainFile \<lparr>fcontent = content, fpos = 0\<rparr>)) () ns =
      (bs, err, r', w')"
  shows "bs = take (sum_list ns) content \<and> (err = None \<or> err = Some EOF \<and> bs = content)"
proof -
  define run where "run p = (\<lambda>ns. read_calls (file_opener mk content) file_rc_Read
      \<lparr>rr_size = int (length content), rr_offset = int p,
        rr_rc = Some (PlainFile \<lparr>fcontent = content, fpos = p\<rparr>)\<rparr> () ns)" for p
  have "\<exists>err r'. run p ns = (sub p (sum_list ns) content, err, r', ()) \<and>
      (err = None \<or> err = Some EOF \<and> length content \<le> p + sum_list ns)"
    if "\<forall>n \<in> set ns. 0 < n" "p \<le> length content" for p ns
    using that
  proof (induction ns arbitrary: p)
    case Nil
    then show ?case by (simp add: run_def)
  next
    case (Cons n ns)
    show ?case
    proof (cases "p = length content")
      case True
      then show ?thesis
        using Cons.prems(1) unfolding run_def
        by (simp add: ResumableReader_Read_attempts reopen_def
            os_file_Read_def sub_def)
    next
      case False
      let ?b = "sub p n content"
      have "?b \<noteq> []" "0 < n" using False Cons.prems by (auto simp: sub_def)
      then have "ResumableReader_Read (file_opener mk content) file_rc_Read
        \<lparr>rr_size = int (length content), rr_offset = int p,
          rr_rc = Some (PlainFile \<lparr>fcontent = content, fpos = p\<rparr>)\<rparr> () n =
        (?b, None, \<lparr>rr_size = int (length content), rr_offset = int (p + length ?b),
          rr_rc = Some (PlainFile \<lparr>fcontent = content, fpos = p + length ?b\<rparr>)\<rparr>, ())"
        by (simp add: ResumableReader_Read_attempts reopen_def
            os_file_Read_def Let_def del: length_sub)
      then have s: "run p (n # ns) = (case run (p + length ?b) ns of
          (bs', err, r'', w'') \<Rightarrow> (?b @ bs', err, r'', w''))"
        unfolding run_def by (simp del: length_sub)
      obtain err r' where IH: "run (p + length ?b) ns = (sub (p + length ?b) (sum_list ns) content, err, r', ())"
        "err = None \<or> err = Some EOF \<and> length content \<le> p + length ?b + sum_list ns"
        using Cons.IH [of "p + length ?b"] Cons.prems by fastforce
      have "?b @ sub (p + length ?b) (sum_list ns) content = sub p (n + sum_list ns) content"
        using sub_add [of p n "sum_list ns" content] by (cases "n \<le> length content - p") (simp_all add: sub_def)
      then show ?thesis using s IH by auto
    qed
  qed
  from this [of ns 0] assms show ?thesis
    by (auto simp: run_def NewResumableReader_def sub_def)
qed

theorem file_client_transparent_witness:
  "\<exists>bs err r' w'. read_calls (file_opener id [7, 8, 9]) file_rc_Read
      (NewResumableReader (int (length [7 :: byte, 8, 9]))
        (PlainFile \<lparr>fcontent = [7, 8, 9], fpos = 0\<rparr>)) () [2, 2] = (bs, err, r', w') \<and>
    bs = take (sum_list [2, 2]) [7, 8, 9] \<and> (err = None \<or> err = Some EOF \<and> bs = [7, 8, 9])"
proof -
  obtain bs err r' w' where e: "read_calls (file_opener id [7, 8, 9]) file_rc_Read
      (NewResumableReader (int (length [7 :: byte, 8, 9]))
        (PlainFile \<lparr>fcontent = [7, 8, 9], fpos = 0\<rparr>)) () [2, 2] = (bs, err, r', w')"
    by (metis prod_cases4)
  from file_client_transparent [OF _ e] e show ?thesis by auto
qed

end
