(* ===== verification/V3_Format.thy ===== *)
theory V3_Format
  imports Prelude
begin

text \<open>
  File names of the v0.3.x format, \<open>v3.go\<close>, and the fixed-width hexadecimal notation they
  use. Go's \<open>%0wx\<close> is \<open>fmt_hex\<close>: at least \<open>w\<close> characters, padded with zeros, with the
  sign counted in the width. The regular expressions of the parsers are conditions on the length,
  the digits and the fixed parts. The lemmas show that each parser is the exact inverse of its
  formatter on the indexes and offsets below \<open>2\<^sup>32\<close>, and rejects the names of all others.
\<close>

section \<open>Hexadecimal digits\<close>

definition hex_digits :: string where "hex_digits = ''0123456789abcdef''"

definition is_hex :: "char \<Rightarrow> bool" where "is_hex c \<longleftrightarrow> c \<in> set hex_digits"

definition hex_val :: "char \<Rightarrow> nat" where
  "hex_val c = length (takeWhile (\<lambda>d. d \<noteq> c) hex_digits)"

fun hex_fixed :: "nat \<Rightarrow> nat \<Rightarrow> string" where
  "hex_fixed 0 n = []"
| "hex_fixed (Suc w) n = hex_fixed w (n div 16) @ [hex_digits ! (n mod 16)]"

fun hex_len :: "nat \<Rightarrow> nat" where
  "hex_len n = (if n < 16 then 1 else Suc (hex_len (n div 16)))"

declare hex_len.simps [simp del]

definition fmt_hex :: "nat \<Rightarrow> int \<Rightarrow> string" where
  "fmt_hex w i =
     (if i < 0 then CHR ''-'' # hex_fixed (max (w - 1) (hex_len (nat (- i)))) (nat (- i))
      else hex_fixed (max w (hex_len (nat i))) (nat i))"

text \<open>\<open>strconv.ParseInt(s, 16, 64)\<close> on the at most 15 hexadecimal digits the program gives it.\<close>

definition parse_hex :: "string \<Rightarrow> nat" where
  "parse_hex s = foldl (\<lambda>a c. 16 * a + hex_val c) 0 s"

lemma length_hex_digits [simp]: "length hex_digits = 16"
  by (simp add: hex_digits_def)

lemma hex_val_nth: "n < 16 \<Longrightarrow> hex_val (hex_digits ! n) = n \<and> is_hex (hex_digits ! n)"
proof -
  have "list_all (\<lambda>n. hex_val (hex_digits ! n) = n \<and> is_hex (hex_digits ! n)) [0..<16]"
    by (simp add: hex_val_def hex_digits_def is_hex_def upt_rec)
  then show "n < 16 \<Longrightarrow> ?thesis" by (simp add: list_all_iff)
qed

lemma hex_val_hex: "is_hex c \<Longrightarrow> hex_val c < 16 \<and> hex_digits ! hex_val c = c"
  unfolding is_hex_def hex_val_def
  by (metis in_set_conv_nth hex_val_def hex_val_nth length_hex_digits)

lemma length_hex_fixed [simp]: "length (hex_fixed w n) = w"
  by (induction w arbitrary: n) auto

lemma hex_fixed_hex: "list_all is_hex (hex_fixed w n)"
  by (induction w arbitrary: n) (auto simp: hex_val_nth)

lemma parse_hex_snoc [simp]: "parse_hex (s @ [c]) = 16 * parse_hex s + hex_val c"
  by (simp add: parse_hex_def)

lemma parse_hex_fixed: "parse_hex (hex_fixed w n) = n mod 16 ^ w"
proof (induction w arbitrary: n)
  case (Suc w)
  have "n mod 16 ^ Suc w = 16 * (n div 16 mod 16 ^ w) + n mod 16"
    by (simp add: mod_mult2_eq)
  then show ?case by (simp add: Suc hex_val_nth)
qed (simp add: parse_hex_def)

lemma hex_fixed_parse: "list_all is_hex s \<Longrightarrow> hex_fixed (length s) (parse_hex s) = s"
  by (induction s rule: rev_induct) (auto simp: hex_val_hex)

lemma parse_hex_bound: "list_all is_hex s \<Longrightarrow> parse_hex s < 16 ^ length s"
proof (induction s rule: rev_induct)
  case (snoc c s)
  then have "parse_hex s + 1 \<le> 16 ^ length s" "hex_val c < 16" by (auto simp: hex_val_hex)
  then show ?case by simp
qed (simp add: parse_hex_def)

lemma hex_len_le: "0 < w \<Longrightarrow> hex_len n \<le> w \<longleftrightarrow> n < 16 ^ w"
proof (induction n arbitrary: w rule: hex_len.induct)
  case (1 n)
  obtain v where w: "w = Suc v" using 1(2) by (cases w) auto
  show ?case
  proof (cases "n < 16")
    case True
    moreover have "(16 :: nat) \<le> 16 ^ w" unfolding w by simp
    ultimately show ?thesis using 1(2) by (simp add: hex_len.simps [of n])
  next
    case False
    then have "hex_len n \<le> w \<longleftrightarrow> hex_len (n div 16) \<le> v" by (simp add: w hex_len.simps [of n])
    also have "\<dots> \<longleftrightarrow> n div 16 < 16 ^ v"
    proof (cases "v = 0")
      case True
      then show ?thesis using False by (simp add: hex_len.simps [of "n div 16"] div_greater_zero_iff)
    qed (use 1(1) False in simp)
    also have "\<dots> \<longleftrightarrow> n < 16 ^ w" by (simp add: w div_less_iff_less_mult mult.commute)
    finally show ?thesis .
  qed
qed

lemma minus_not_hex: "\<not> is_hex (CHR ''-'')"
  by (simp add: is_hex_def hex_digits_def)

text \<open>Eight hexadecimal digits are the notation of exactly the numbers below \<open>2\<^sup>32\<close>.\<close>

lemma fmt_hex_8:
  "length s = 8 \<and> list_all is_hex s \<and> int (parse_hex s) = i \<longleftrightarrow>
   0 \<le> i \<and> i < 2 ^ 32 \<and> s = fmt_hex 8 i"
proof -
  have p: "(16 :: nat) ^ 8 = 2 ^ 32" by simp
  show ?thesis
  proof
    assume a: "length s = 8 \<and> list_all is_hex s \<and> int (parse_hex s) = i"
    then have b: "parse_hex s < 2 ^ 32" using parse_hex_bound [of s] by simp
    then have "hex_len (parse_hex s) \<le> 8" using hex_len_le [of 8 "parse_hex s"] by simp
    then have "s = fmt_hex 8 i"
      using a hex_fixed_parse [of s] by (auto simp: fmt_hex_def max_absorb1)
    then show "0 \<le> i \<and> i < 2 ^ 32 \<and> s = fmt_hex 8 i" using a b by auto
  next
    assume a: "0 \<le> i \<and> i < 2 ^ 32 \<and> s = fmt_hex 8 i"
    then have n: "nat i < 2 ^ 32" by auto
    then have "hex_len (nat i) \<le> 8" using hex_len_le [of 8 "nat i"] by simp
    then have "s = hex_fixed 8 (nat i)" using a by (simp add: fmt_hex_def max_absorb1)
    then show "length s = 8 \<and> list_all is_hex s \<and> int (parse_hex s) = i"
      using a n parse_hex_fixed [of 8 "nat i"] by (simp add: hex_fixed_hex p del: hex_fixed.simps)
  qed
qed

section \<open>File names\<close>

definition FormatSnapshotFilenameV3 :: "int \<Rightarrow> string" where
  "FormatSnapshotFilenameV3 index = fmt_hex 8 index @ ''.snapshot.lz4''"

definition FormatWALSegmentFilenameV3 :: "int \<Rightarrow> int \<Rightarrow> string" where
  "FormatWALSegmentFilenameV3 index offset = fmt_hex 8 index @ ''_'' @ fmt_hex 8 offset @ ''.wal.lz4''"

definition snapshotRegexV3 :: "string \<Rightarrow> string option" where
  "snapshotRegexV3 s =
     (if length (take 8 s) = 8 \<and> list_all is_hex (take 8 s) \<and> drop 8 s = ''.snapshot.lz4''
      then Some (take 8 s) else None)"

definition walSegmentRegexV3 :: "string \<Rightarrow> (string \<times> string) option" where
  "walSegmentRegexV3 s =
     (if length (take 8 s) = 8 \<and> list_all is_hex (take 8 s) \<and> take 1 (drop 8 s) = ''_'' \<and>
         length (sub 9 8 s) = 8 \<and> list_all is_hex (sub 9 8 s) \<and> drop 17 s = ''.wal.lz4''
      then Some (take 8 s, sub 9 8 s) else None)"

definition ParseSnapshotFilenameV3 :: "string \<Rightarrow> go_error + int" where
  "ParseSnapshotFilenameV3 filename =
     (case snapshotRegexV3 filename of
        None \<Rightarrow> Inl (Errorf ''invalid v0.3.x snapshot filename'')
      | Some m1 \<Rightarrow> Inr (int (parse_hex m1)))"

definition ParseWALSegmentFilenameV3 :: "string \<Rightarrow> go_error + int \<times> int" where
  "ParseWALSegmentFilenameV3 filename =
     (case walSegmentRegexV3 filename of
        None \<Rightarrow> Inl (Errorf ''invalid v0.3.x WAL segment filename'')
      | Some (m1, m2) \<Rightarrow> Inr (int (parse_hex m1), int (parse_hex m2)))"

definition IsGenerationIDV3 :: "string \<Rightarrow> bool" where
  "IsGenerationIDV3 s \<longleftrightarrow> length s = 16 \<and> list_all is_hex s"

section \<open>Positions\<close>

record pos_v3 =
  pv_Generation :: string
  pv_Index :: int
  pv_Offset :: int

definition PosV3_IsZero :: "pos_v3 \<Rightarrow> bool" where
  "PosV3_IsZero p \<longleftrightarrow> p = \<lparr>pv_Generation = '''', pv_Index = 0, pv_Offset = 0\<rparr>"

definition PosV3_String :: "pos_v3 \<Rightarrow> string" where
  "PosV3_String p =
     (if PosV3_IsZero p then ''''
      else pv_Generation p @ ''/'' @ fmt_hex 8 (pv_Index p) @ '':'' @ fmt_hex 16 (pv_Offset p))"

section \<open>Parsing inverts formatting\<close>

lemma fmt_hex_8_length: "0 \<le> i \<Longrightarrow> i < 2 ^ 32 \<Longrightarrow> length (fmt_hex 8 i) = 8 \<and> list_all is_hex (fmt_hex 8 i)"
  using fmt_hex_8 [of "fmt_hex 8 i" i] by simp

lemma split_at: "take n s = a \<Longrightarrow> drop n s = b \<Longrightarrow> s = a @ b"
  using append_take_drop_id [of n s] by simp

lemma ParseSnapshot_iff:
  "ParseSnapshotFilenameV3 s = Inr i \<longleftrightarrow>
   0 \<le> i \<and> i < 2 ^ 32 \<and> s = FormatSnapshotFilenameV3 i"
proof -
  have "ParseSnapshotFilenameV3 s = Inr i \<longleftrightarrow>
      (length (take 8 s) = 8 \<and> list_all is_hex (take 8 s) \<and> int (parse_hex (take 8 s)) = i) \<and>
      drop 8 s = ''.snapshot.lz4''"
    by (auto simp: ParseSnapshotFilenameV3_def snapshotRegexV3_def)
  also have "\<dots> \<longleftrightarrow> (0 \<le> i \<and> i < 2 ^ 32 \<and> take 8 s = fmt_hex 8 i) \<and> drop 8 s = ''.snapshot.lz4''"
    by (simp only: fmt_hex_8)
  also have "\<dots> \<longleftrightarrow> 0 \<le> i \<and> i < 2 ^ 32 \<and> s = FormatSnapshotFilenameV3 i"
    (is "?A \<longleftrightarrow> ?B")
  proof
    assume ?A then show ?B unfolding FormatSnapshotFilenameV3_def by (intro conjI split_at) auto
  next
    assume ?B then show ?A using fmt_hex_8_length [of i] by (simp add: FormatSnapshotFilenameV3_def)
  qed
  finally show ?thesis .
qed

lemma ParseWALSegment_iff:
  "ParseWALSegmentFilenameV3 s = Inr (i, off) \<longleftrightarrow>
   0 \<le> i \<and> i < 2 ^ 32 \<and> 0 \<le> off \<and> off < 2 ^ 32 \<and> s = FormatWALSegmentFilenameV3 i off"
proof -
  have s: "s = take 8 s @ take 1 (drop 8 s) @ sub 9 8 s @ drop 17 s"
  proof (rule split_at [of 8])
    have "drop 8 s = take 1 (drop 8 s) @ drop 9 s" by (rule split_at [of 1]) simp_all
    also have "drop 9 s = sub 9 8 s @ drop 17 s" by (rule split_at [of 8]) (simp_all add: sub_def)
    finally show "drop 8 s = take 1 (drop 8 s) @ sub 9 8 s @ drop 17 s" .
  qed simp
  have "ParseWALSegmentFilenameV3 s = Inr (i, off) \<longleftrightarrow>
      (length (take 8 s) = 8 \<and> list_all is_hex (take 8 s) \<and> int (parse_hex (take 8 s)) = i) \<and>
      (length (sub 9 8 s) = 8 \<and> list_all is_hex (sub 9 8 s) \<and> int (parse_hex (sub 9 8 s)) = off) \<and>
      take 1 (drop 8 s) = ''_'' \<and> drop 17 s = ''.wal.lz4''"
    by (auto simp: ParseWALSegmentFilenameV3_def walSegmentRegexV3_def simp del: length_take length_sub)
  also have "\<dots> \<longleftrightarrow> (0 \<le> i \<and> i < 2 ^ 32 \<and> take 8 s = fmt_hex 8 i) \<and>
      (0 \<le> off \<and> off < 2 ^ 32 \<and> sub 9 8 s = fmt_hex 8 off) \<and>
      take 1 (drop 8 s) = ''_'' \<and> drop 17 s = ''.wal.lz4''"
    by (simp only: fmt_hex_8)
  also have "\<dots> \<longleftrightarrow> 0 \<le> i \<and> i < 2 ^ 32 \<and> 0 \<le> off \<and> off < 2 ^ 32 \<and> s = FormatWALSegmentFilenameV3 i off"
    (is "?A \<longleftrightarrow> ?B")
  proof
    assume ?A then show ?B using s by (auto simp: FormatWALSegmentFilenameV3_def)
  next
    assume ?B then show ?A
      using fmt_hex_8_length [of i] fmt_hex_8_length [of off]
      by (simp add: FormatWALSegmentFilenameV3_def sub_def)
  qed
  finally show ?thesis .
qed

lemma fmt_hex_inj:
  assumes "fmt_hex 8 i = fmt_hex 8 n" "0 \<le> n" "n < 2 ^ 32"
  shows "0 \<le> i \<and> i < 2 ^ 32"
proof -
  have l: "length (fmt_hex 8 i) = 8" "list_all is_hex (fmt_hex 8 i)"
    using fmt_hex_8_length [OF assms(2,3)] assms(1) by simp_all
  have i: "0 \<le> i"
    using l(2) minus_not_hex by (cases "i < 0") (auto simp: fmt_hex_def)
  then have "hex_len (nat i) \<le> 8" using l(1) by (simp add: fmt_hex_def)
  then have "nat i < 2 ^ 32" using hex_len_le [of 8 "nat i"] by simp
  then show ?thesis using i by auto
qed

lemma fmt_hex_no_underscore: "CHR ''_'' \<notin> set (fmt_hex w i)"
proof -
  have "CHR ''_'' \<notin> set (hex_fixed v n)" for v n
    using hex_fixed_hex [of v n] by (auto simp: list_all_iff is_hex_def hex_digits_def)
  then show ?thesis by (auto simp: fmt_hex_def)
qed

lemma FormatWAL_inj:
  assumes "FormatWALSegmentFilenameV3 i off = FormatWALSegmentFilenameV3 j off'"
  shows "fmt_hex 8 i = fmt_hex 8 j" "fmt_hex 8 off = fmt_hex 8 off'"
proof -
  have t: "takeWhile (\<lambda>c. c \<noteq> CHR ''_'') (FormatWALSegmentFilenameV3 i off) = fmt_hex 8 i" for i off
    unfolding FormatWALSegmentFilenameV3_def
    by (subst takeWhile_append2) (use fmt_hex_no_underscore in auto)
  show e: "fmt_hex 8 i = fmt_hex 8 j" using assms t by metis
  show "fmt_hex 8 off = fmt_hex 8 off'"
    using assms e by (simp add: FormatWALSegmentFilenameV3_def)
qed

text \<open>C35: A v0.3.x file name is parsed to exactly the index, and for a WAL segment the offset, it
  was formatted from, and no other name parses; an index or an offset of \<open>2\<^sup>32\<close> or more, or a
  negative one, formats to a name no parser accepts, so such a file is invisible to a restore.\<close>

theorem v3_filenames_roundtrip:
  "(ParseSnapshotFilenameV3 s = Inr i \<longleftrightarrow>
      0 \<le> i \<and> i < 2 ^ 32 \<and> s = FormatSnapshotFilenameV3 i) \<and>
   (ParseWALSegmentFilenameV3 s = Inr (j, off) \<longleftrightarrow>
      0 \<le> j \<and> j < 2 ^ 32 \<and> 0 \<le> off \<and> off < 2 ^ 32 \<and> s = FormatWALSegmentFilenameV3 j off) \<and>
   ((\<exists>n. ParseSnapshotFilenameV3 (FormatSnapshotFilenameV3 i) = Inr n) \<longleftrightarrow> 0 \<le> i \<and> i < 2 ^ 32) \<and>
   ((\<exists>p. ParseWALSegmentFilenameV3 (FormatWALSegmentFilenameV3 j off) = Inr p) \<longleftrightarrow>
      0 \<le> j \<and> j < 2 ^ 32 \<and> 0 \<le> off \<and> off < 2 ^ 32)"
proof (intro conjI)
  show "(\<exists>n. ParseSnapshotFilenameV3 (FormatSnapshotFilenameV3 i) = Inr n) \<longleftrightarrow> 0 \<le> i \<and> i < 2 ^ 32"
    using fmt_hex_inj [of i] by (auto simp: ParseSnapshot_iff FormatSnapshotFilenameV3_def)
  show "(\<exists>p. ParseWALSegmentFilenameV3 (FormatWALSegmentFilenameV3 j off) = Inr p) \<longleftrightarrow>
      0 \<le> j \<and> j < 2 ^ 32 \<and> 0 \<le> off \<and> off < 2 ^ 32"
  proof
    assume "\<exists>p. ParseWALSegmentFilenameV3 (FormatWALSegmentFilenameV3 j off) = Inr p"
    then obtain j' off' where p: "0 \<le> j'" "j' < 2 ^ 32" "0 \<le> off'" "off' < 2 ^ 32"
      "FormatWALSegmentFilenameV3 j off = FormatWALSegmentFilenameV3 j' off'"
      by (auto simp: ParseWALSegment_iff)
    show "0 \<le> j \<and> j < 2 ^ 32 \<and> 0 \<le> off \<and> off < 2 ^ 32"
      using fmt_hex_inj [OF FormatWAL_inj(1) [OF p(5)] p(1,2)]
        fmt_hex_inj [OF FormatWAL_inj(2) [OF p(5)] p(3,4)] by simp
  next
    assume "0 \<le> j \<and> j < 2 ^ 32 \<and> 0 \<le> off \<and> off < 2 ^ 32"
    then have "ParseWALSegmentFilenameV3 (FormatWALSegmentFilenameV3 j off) = Inr (j, off)"
      by (simp add: ParseWALSegment_iff)
    then show "\<exists>p. ParseWALSegmentFilenameV3 (FormatWALSegmentFilenameV3 j off) = Inr p" by blast
  qed
qed (simp_all only: ParseSnapshot_iff ParseWALSegment_iff)

end
