(* ===== verification/File_Replica.thy ===== *)
theory File_Replica
  imports Compaction Resumable_Reader V3_Format "HOL-Library.Multiset"
begin

text \<open>
  The file replica client, \<open>file/replica_client.go\<close>: listing, opening, writing and deleting LTX
  files in the level directories.

  A level directory is the association list of its entries in the order \<open>Readdir\<close> returns them; a
  missing directory is \<open>None\<close>. Every system call can fail: the record \<open>os_faults\<close> holds the error
  each would return. File names and the peeked header are the package \<open>ltx\<close>'s, fields of the record
  \<open>ltx_pkg\<close>, with \<open>pkg_ok\<close> their documented laws. The interpretation shows that the client honours
  the contract \<open>replica\<close>; a write appears in the listing all at once, or not at all.
\<close>

section \<open>Model\<close>

record fentry =
  fe_data :: "byte list"
  fe_mtime :: go_time

type_synonym dir = "(string \<times> fentry) list"
type_synonym level_fs = "int \<Rightarrow> dir option"

record os_faults =
  f_open :: "go_error option"
  f_readdir :: "go_error option"
  f_mkdir :: "go_error option"
  f_create :: "go_error option"
  f_copy :: "(nat \<times> go_error) option"
  f_sync :: "go_error option"
  f_stat :: "go_error option"
  f_close :: "go_error option"
  f_rename :: "go_error option"
  f_chtimes :: "go_error option"
  f_remove :: "string \<Rightarrow> go_error option"

record ltx_pkg =
  FormatFilename :: "u64 \<Rightarrow> u64 \<Rightarrow> string"
  ParseFilename :: "string \<Rightarrow> (u64 \<times> u64) option"
  SliceIterator :: "file_info list \<Rightarrow> file_info list"
  PeekHeader :: "ltx_stream \<Rightarrow> go_error + int"

definition slice_iter :: "ltx_pkg \<Rightarrow> file_info list \<Rightarrow> file_iter" where
  "slice_iter pkg infos = \<lparr>it_items = SliceIterator pkg infos, it_err = None, it_close = None\<rparr>"

definition entry_info :: "ltx_pkg \<Rightarrow> int \<Rightarrow> u64 \<Rightarrow> string \<times> fentry \<Rightarrow> file_info option" where
  "entry_info pkg level seek fi =
     (case ParseFilename pkg (fst fi) of
        None \<Rightarrow> None
      | Some (minTXID, maxTXID) \<Rightarrow>
          if minTXID < seek then None
          else Some \<lparr>Level = level, MinTXID = minTXID, MaxTXID = maxTXID,
                     Size = int (length (fe_data (snd fi))), CreatedAt = fe_mtime (snd fi)\<rparr>)"

definition file_LTXFiles :: "ltx_pkg \<Rightarrow> os_faults \<Rightarrow> level_fs \<Rightarrow> ltx_lister" where
  "file_LTXFiles pkg flt fs level seek useMetadata =
     (case fs level of
        None \<Rightarrow> Inr (slice_iter pkg [])
      | Some d \<Rightarrow>
          (case f_open flt of Some e \<Rightarrow> Inl e | None \<Rightarrow>
          (case f_readdir flt of Some e \<Rightarrow> Inl e | None \<Rightarrow>
             Inr (slice_iter pkg (List.map_filter (entry_info pkg level seek) d)))))"

definition dir_lookup :: "level_fs \<Rightarrow> int \<Rightarrow> string \<Rightarrow> fentry option" where
  "dir_lookup fs level name = (case fs level of None \<Rightarrow> None | Some d \<Rightarrow> map_of d name)"

definition on_dir :: "int \<Rightarrow> (dir \<Rightarrow> dir) \<Rightarrow> level_fs \<Rightarrow> level_fs" where
  "on_dir level f fs = fs(level := map_option f (fs level))"

definition mkdir_level :: "int \<Rightarrow> level_fs \<Rightarrow> level_fs" where
  "mkdir_level level fs = (if fs level = None then fs(level := Some []) else fs)"

text \<open>\<open>os.Rename\<close> replaces an existing target.\<close>

definition rename_entry :: "string \<Rightarrow> string \<Rightarrow> dir \<Rightarrow> dir" where
  "rename_entry src dst d =
     (case map_of d src of None \<Rightarrow> d | Some e \<Rightarrow> AList.delete src (AList.update dst e d))"

definition client_OpenLTXFile ::
  "ltx_pkg \<Rightarrow> (string \<Rightarrow> int \<Rightarrow> u64 \<Rightarrow> u64 \<Rightarrow> go_error \<Rightarrow> go_error) \<Rightarrow> level_fs \<Rightarrow> int \<Rightarrow> u64 \<Rightarrow> u64 \<Rightarrow>
     int \<Rightarrow> int \<Rightarrow> go_error + file_rc" where
  "client_OpenLTXFile pkg newLTXError fs level minTXID maxTXID offset sz =
     (let path = FormatFilename pkg minTXID maxTXID
      in file_OpenLTXFile (newLTXError path level minTXID maxTXID)
           (map_option fe_data (dir_lookup fs level path)) offset sz)"

definition time_UnixMilli :: "int \<Rightarrow> go_time" where
  "time_UnixMilli ms = ms * 1000000 + seconds 62135596800"

text \<open>The body of \<open>WriteLTXFile\<close> once the temporary file exists.\<close>

definition write_tmp ::
  "os_faults \<Rightarrow> go_time \<Rightarrow> go_time \<Rightarrow> int \<Rightarrow> u64 \<Rightarrow> u64 \<Rightarrow> string \<Rightarrow> string \<Rightarrow> ltx_stream \<Rightarrow> level_fs \<Rightarrow>
     (go_error + file_info) \<times> level_fs" where
  "write_tmp flt now timestamp level minTXID maxTXID filename tmpFilename rd fs =
     (case (case f_copy flt of Some (n, e) \<Rightarrow> (take n (fst rd), Some e) | None \<Rightarrow> rd) of (bs, copyErr) \<Rightarrow>
       (let fs1 = on_dir level (AList.update tmpFilename \<lparr>fe_data = bs, fe_mtime = now\<rparr>) fs in
        (case copyErr of Some e \<Rightarrow> (Inl e, fs1) | None \<Rightarrow>
        (case f_sync flt of Some e \<Rightarrow> (Inl e, fs1) | None \<Rightarrow>
        (case f_stat flt of Some e \<Rightarrow> (Inl e, fs1) | None \<Rightarrow>
          (let info = \<lparr>Level = level, MinTXID = minTXID, MaxTXID = maxTXID,
                       Size = int (length bs), CreatedAt = timestamp\<rparr> in
        (case f_close flt of Some e \<Rightarrow> (Inl e, fs1) | None \<Rightarrow>
        (case f_rename flt of Some e \<Rightarrow> (Inl e, fs1) | None \<Rightarrow>
          (let fs2 = on_dir level (rename_entry tmpFilename filename) fs1 in
        (case f_chtimes flt of Some e \<Rightarrow> (Inl e, fs2) | None \<Rightarrow>
          (Inr info, on_dir level (AList.map_entry filename (fe_mtime_update (\<lambda>_. timestamp))) fs2)))))))))))"

definition os_Remove :: "os_faults \<Rightarrow> int \<Rightarrow> string \<Rightarrow> level_fs \<Rightarrow> go_error option \<times> level_fs" where
  "os_Remove flt level name fs =
     (if dir_lookup fs level name = None then (Some ErrNotExist, fs)
      else (case f_remove flt name of
              Some e \<Rightarrow> (Some e, fs) | None \<Rightarrow> (None, on_dir level (AList.delete name) fs)))"

definition file_WriteLTXFile ::
  "ltx_pkg \<Rightarrow> os_faults \<Rightarrow> go_time \<Rightarrow> level_fs \<Rightarrow> int \<Rightarrow> u64 \<Rightarrow> u64 \<Rightarrow> ltx_stream \<Rightarrow>
     (go_error + file_info) \<times> level_fs" where
  "file_WriteLTXFile pkg flt now fs level minTXID maxTXID rd =
     (case PeekHeader pkg rd of
        Inl e \<Rightarrow> (Inl (Wrapf ''extract timestamp from LTX header'' e), fs)
      | Inr ms \<Rightarrow>
          (let timestamp = time_UnixMilli ms;
               filename = FormatFilename pkg minTXID maxTXID;
               tmpFilename = filename @ ''.tmp''
           in (case f_mkdir flt of Some e \<Rightarrow> (Inl e, fs) | None \<Rightarrow>
              (let fs1 = mkdir_level level fs in
              (case f_create flt of Some e \<Rightarrow> (Inl e, fs1) | None \<Rightarrow>
              (case write_tmp flt now timestamp level minTXID maxTXID filename tmpFilename rd fs1 of
                 (Inl e, fs2) \<Rightarrow> (Inl e, snd (os_Remove flt level tmpFilename fs2))
               | (Inr info, fs2) \<Rightarrow> (Inr info, fs2)))))))"

fun file_DeleteLTXFiles ::
  "ltx_pkg \<Rightarrow> os_faults \<Rightarrow> level_fs \<Rightarrow> file_info list \<Rightarrow> go_error option \<times> level_fs" where
  "file_DeleteLTXFiles pkg flt fs [] = (None, fs)"
| "file_DeleteLTXFiles pkg flt fs (info # a) =
     (case os_Remove flt (Level info) (FormatFilename pkg (MinTXID info) (MaxTXID info)) fs of
        (Some e, fs') \<Rightarrow> if \<not> os_IsNotExist e then (Some e, fs') else file_DeleteLTXFiles pkg flt fs' a
      | (None, fs') \<Rightarrow> file_DeleteLTXFiles pkg flt fs' a)"

text \<open>The client as the compactor sees it: files are opened whole.\<close>

definition file_client ::
  "ltx_pkg \<Rightarrow> os_faults \<Rightarrow> go_time \<Rightarrow> (string \<Rightarrow> int \<Rightarrow> u64 \<Rightarrow> u64 \<Rightarrow> go_error \<Rightarrow> go_error) \<Rightarrow>
     level_fs client" where
  "file_client pkg flt now newLTXError = \<lparr>
     cl_LTXFiles = file_LTXFiles pkg flt,
     cl_OpenLTXFile = (\<lambda>fs level mn mx.
       map_sum id (\<lambda>rc. fcontent (rc_file rc)) (client_OpenLTXFile pkg newLTXError fs level mn mx 0 0)),
     cl_WriteLTXFile = file_WriteLTXFile pkg flt now,
     cl_DeleteLTXFiles = file_DeleteLTXFiles pkg flt\<rparr>"

section \<open>Laws of the package and of the directories\<close>

definition pkg_ok :: "ltx_pkg \<Rightarrow> bool" where
  "pkg_ok pkg \<longleftrightarrow>
     (\<forall>name mn mx. ParseFilename pkg name = Some (mn, mx) \<longleftrightarrow> name = FormatFilename pkg mn mx) \<and>
     (\<forall>name. ParseFilename pkg (name @ ''.tmp'') = None) \<and>
     (\<forall>infos. mset (SliceIterator pkg infos) = mset infos \<and>
        sorted (map txid_range (SliceIterator pkg infos)))"

definition fs_ok :: "level_fs \<Rightarrow> bool" where
  "fs_ok fs \<longleftrightarrow> (\<forall>level d. fs level = Some d \<longrightarrow> distinct (map fst d))"

text \<open>Directories can be read, and a failing \<open>Remove\<close> reports \<open>ErrNotExist\<close> only for a file
  that does not exist.\<close>

definition client_ok :: "ltx_pkg \<Rightarrow> os_faults \<Rightarrow> level_fs \<Rightarrow> bool" where
  "client_ok pkg flt fs \<longleftrightarrow>
     pkg_ok pkg \<and> fs_ok fs \<and> f_open flt = None \<and> f_readdir flt = None \<and>
     (\<forall>name. f_remove flt name \<noteq> Some ErrNotExist)"

definition file_name :: "ltx_pkg \<Rightarrow> file_info \<Rightarrow> string" where
  "file_name pkg f = FormatFilename pkg (MinTXID f) (MaxTXID f)"

definition file_listing :: "ltx_pkg \<Rightarrow> level_fs \<Rightarrow> int \<Rightarrow> file_info list" where
  "file_listing pkg fs level =
     (case fs level of None \<Rightarrow> [] | Some d \<Rightarrow>
        sort_key txid_range (List.map_filter (entry_info pkg level 0) d))"

lemma pkg_parse: "pkg_ok pkg \<Longrightarrow> ParseFilename pkg name = Some (mn, mx) \<longleftrightarrow> name = FormatFilename pkg mn mx"
  by (simp add: pkg_ok_def)

lemma pkg_tmp: "pkg_ok pkg \<Longrightarrow> FormatFilename pkg mn mx \<noteq> name @ ''.tmp''"
  unfolding pkg_ok_def by (metis option.distinct(1))

lemma pkg_inj:
  "pkg_ok pkg \<Longrightarrow> FormatFilename pkg a b = FormatFilename pkg c d \<longleftrightarrow> a = c \<and> b = d"
  by (metis pkg_parse option.inject prod.inject)

text \<open>Sorting by a key that is unique has one result.\<close>

lemma sort_key_unique:
  assumes "mset ys = mset xs" "sorted (map k ys)" "distinct (map k xs)"
  shows "ys = sort_key k xs"
proof -
  have "sort (map k xs) = map k ys"
    by (rule properties_for_sort) (simp_all add: assms(1,2))
  moreover have "sort (map k xs) = map k (sort_key k xs)"
    by (rule properties_for_sort) simp_all
  ultimately have "map k ys = map k (sort_key k xs)" by simp
  moreover have "set ys = set xs" by (rule mset_eq_setD [OF assms(1)])
  then have "inj_on k (set ys \<union> set (sort_key k xs))" using assms(3) by (simp add: distinct_map)
  ultimately show ?thesis by (simp add: inj_on_map_eq_map)
qed

lemma entry_info_Some:
  "pkg_ok pkg \<Longrightarrow> entry_info pkg level seek fi = Some f \<longleftrightarrow>
   fst fi = file_name pkg f \<and> Level f = level \<and> seek \<le> MinTXID f \<and>
   Size f = int (length (fe_data (snd fi))) \<and> CreatedAt f = fe_mtime (snd fi)"
  by (cases f) (auto simp: entry_info_def file_name_def pkg_parse [symmetric] split: option.splits)

lemma entry_info_seek:
  "List.map_filter (entry_info pkg level seek) d =
   filter (\<lambda>f. seek \<le> MinTXID f) (List.map_filter (entry_info pkg level 0) d)"
  by (induction d) (auto simp: List.map_filter_simps entry_info_def split: option.splits)

lemma map_filter_in:
  "x \<in> set (List.map_filter f xs) \<longleftrightarrow> (\<exists>y \<in> set xs. f y = Some x)"
  by (induction xs) (auto simp: List.map_filter_simps split: option.splits)

lemma distinct_ranges:
  assumes "pkg_ok pkg" "distinct (map fst d)"
  shows "distinct (map txid_range (List.map_filter (entry_info pkg level seek) d))"
  using assms(2)
proof (induction d)
  case (Cons fi d)
  have "txid_range f \<noteq> txid_range g"
    if "entry_info pkg level seek fi = Some f" "gi \<in> set d" "entry_info pkg level seek gi = Some g" for f g gi
    using that Cons.prems
    by (auto simp: entry_info_Some [OF assms(1)] file_name_def txid_range_def image_iff)
  with Cons show ?case by (fastforce simp: List.map_filter_simps map_filter_in split: option.splits)
qed (simp add: List.map_filter_simps)

lemma file_LTXFiles_ok:
  assumes "client_ok pkg flt fs"
  shows "\<exists>it. file_LTXFiles pkg flt fs level seek um = Inr it \<and>
    it_items it = filter (\<lambda>f. seek \<le> MinTXID f) (file_listing pkg fs level) \<and>
    it_err it = None \<and> it_close it = None"
proof -
  have S: "SliceIterator pkg xs = sort_key txid_range xs" if "distinct (map txid_range xs)" for xs
    using assms that by (intro sort_key_unique) (auto simp: client_ok_def pkg_ok_def)
  show ?thesis
  proof (cases "fs level")
    case None
    then show ?thesis using S [of "[]"] by (simp add: file_LTXFiles_def slice_iter_def file_listing_def)
  next
    case (Some d)
    then have "distinct (map fst d)" using assms by (auto simp: client_ok_def fs_ok_def)
    then have "SliceIterator pkg (List.map_filter (entry_info pkg level seek) d) =
        sort_key txid_range (List.map_filter (entry_info pkg level seek) d)"
      using assms by (intro S distinct_ranges) (auto simp: client_ok_def)
    also have "\<dots> = filter (\<lambda>f. seek \<le> MinTXID f) (file_listing pkg fs level)"
      unfolding entry_info_seek [of pkg level seek d] filter_sort [symmetric]
      by (simp add: file_listing_def Some)
    finally show ?thesis
      using assms Some by (simp add: file_LTXFiles_def slice_iter_def client_ok_def)
  qed
qed

lemma listing_iff:
  assumes "client_ok pkg flt fs"
  shows "f \<in> set (file_listing pkg fs level) \<longleftrightarrow>
    Level f = level \<and> (\<exists>e. dir_lookup fs level (file_name pkg f) = Some e \<and>
      Size f = int (length (fe_data e)) \<and> CreatedAt f = fe_mtime e)"
proof (cases "fs level")
  case (Some d)
  then have "distinct (map fst d)" using assms by (auto simp: client_ok_def fs_ok_def)
  then have m: "dir_lookup fs level n = Some e \<longleftrightarrow> (n, e) \<in> set d" for n e
    using Some by (simp add: dir_lookup_def)
  have p: "pkg_ok pkg" using assms by (simp add: client_ok_def)
  have "f \<in> set (file_listing pkg fs level) \<longleftrightarrow> (\<exists>fi \<in> set d. entry_info pkg level 0 fi = Some f)"
    using Some by (simp add: file_listing_def map_filter_in)
  also have "\<dots> \<longleftrightarrow> Level f = level \<and> (\<exists>e. (file_name pkg f, e) \<in> set d \<and>
      Size f = int (length (fe_data e)) \<and> CreatedAt f = fe_mtime e)"
    by (auto simp: entry_info_Some [OF p] Bex_def)
  finally show ?thesis unfolding m .
qed (simp add: file_listing_def dir_lookup_def)

lemma listing_sorted:
  assumes "client_ok pkg flt fs"
  shows "sorted_wrt (<) (map txid_range (file_listing pkg fs level))"
proof (cases "fs level")
  case (Some d)
  then have "distinct (map fst d)" using assms by (auto simp: client_ok_def fs_ok_def)
  then have "distinct (map txid_range (List.map_filter (entry_info pkg level 0) d))"
    using assms by (intro distinct_ranges) (auto simp: client_ok_def)
  then show ?thesis
    using Some by (simp add: file_listing_def strict_sorted_iff distinct_map inj_on_def)
qed (simp add: file_listing_def)

section \<open>What the operations do to the directories\<close>

lemma on_dir_None [simp]: "on_dir level f fs l = None \<longleftrightarrow> fs l = None"
  by (simp add: on_dir_def)

lemma mkdir_level_simps [simp]:
  "dir_lookup (mkdir_level level fs) l n = dir_lookup fs l n" "mkdir_level level fs level \<noteq> None"
  by (auto simp: mkdir_level_def dir_lookup_def)

lemma fs_ok_on_dir:
  "fs_ok fs \<Longrightarrow> (\<And>d. distinct (map fst d) \<Longrightarrow> distinct (map fst (f d))) \<Longrightarrow> fs_ok (on_dir level f fs)"
  by (auto simp: fs_ok_def on_dir_def)

lemma fs_ok_mkdir: "fs_ok fs \<Longrightarrow> fs_ok (mkdir_level level fs)"
  by (auto simp: fs_ok_def mkdir_level_def)

lemma distinct_rename: "distinct (map fst d) \<Longrightarrow> distinct (map fst (rename_entry src dst d))"
  by (auto simp: rename_entry_def distinct_update distinct_delete split: option.splits)

lemma map_of_rename:
  "src \<noteq> dst \<Longrightarrow> map_of (rename_entry src dst d) n =
     (case map_of d src of None \<Rightarrow> map_of d n
      | Some e \<Rightarrow> if n = src then None else if n = dst then Some e else map_of d n)"
  by (simp add: rename_entry_def delete_conv' update_conv' split: option.splits)

lemma map_of_map_entry: "map_of (AList.map_entry k f d) n =
    (if n = k then map_option f (map_of d k) else map_of d n)"
  by (induction d) auto

lemma keys_map_entry: "map fst (AList.map_entry k f d) = map fst d"
  by (induction d) auto

text \<open>One lookup law per directory operation.\<close>

lemma lookup_update:
  "fs level \<noteq> None \<Longrightarrow> dir_lookup (on_dir level (AList.update k v) fs) l n =
     (if l = level \<and> n = k then Some v else dir_lookup fs l n)"
  by (auto simp: dir_lookup_def on_dir_def update_conv')

lemma lookup_delete:
  "dir_lookup (on_dir level (AList.delete k) fs) l n =
     (if l = level \<and> n = k then None else dir_lookup fs l n)"
  by (auto simp: dir_lookup_def on_dir_def delete_conv' split: option.splits)

lemma lookup_touch:
  "dir_lookup (on_dir level (AList.map_entry k g) fs) l n =
     (if l = level \<and> n = k then map_option g (dir_lookup fs l n) else dir_lookup fs l n)"
  by (auto simp: dir_lookup_def on_dir_def map_of_map_entry split: option.splits)

lemma lookup_rename:
  "src \<noteq> dst \<Longrightarrow> dir_lookup fs level src = Some e \<Longrightarrow>
   dir_lookup (on_dir level (rename_entry src dst) fs) l n =
     (if l = level \<and> n = src then None else if l = level \<and> n = dst then Some e else dir_lookup fs l n)"
  by (auto simp: dir_lookup_def on_dir_def map_of_rename split: option.splits)

lemmas lookups = lookup_update lookup_delete lookup_touch lookup_rename

lemma fs_ok_ops:
  assumes "fs_ok fs"
  shows "fs_ok (mkdir_level level fs)" "fs_ok (on_dir level (AList.update k v) fs)"
    "fs_ok (on_dir level (AList.delete k) fs)" "fs_ok (on_dir level (AList.map_entry k g) fs)"
    "fs_ok (on_dir level (rename_entry src dst) fs)"
  using assms
  by (auto intro!: fs_ok_mkdir fs_ok_on_dir distinct_rename
      simp: distinct_update distinct_delete keys_map_entry)

lemma os_Remove_spec:
  assumes "os_Remove flt level name fs = (r, fs')"
  shows "fs_ok fs \<Longrightarrow> fs_ok fs'"
    "dir_lookup fs' l n = (if l = level \<and> n = name \<and> r = None then None else dir_lookup fs l n)"
    "r = Some ErrNotExist \<Longrightarrow> f_remove flt name \<noteq> Some ErrNotExist \<Longrightarrow> dir_lookup fs level name = None"
proof -
  show "fs_ok fs'" if "fs_ok fs"
    using assms that by (auto simp: os_Remove_def fs_ok_ops split: if_splits option.splits)
  show "dir_lookup fs' l n = (if l = level \<and> n = name \<and> r = None then None else dir_lookup fs l n)"
    using assms by (cases "f_remove flt name") (auto simp: os_Remove_def lookups split: if_splits)
  show "dir_lookup fs level name = None"
    if "r = Some ErrNotExist" "f_remove flt name \<noteq> Some ErrNotExist"
    using assms that by (auto simp: os_Remove_def split: if_splits option.splits)
qed

lemma write_tmp_spec:
  assumes run: "write_tmp flt now ts level mn mx name tmp rd fs = (r, fs')"
    and d: "fs level \<noteq> None" and ne: "name \<noteq> tmp"
  shows "fs_ok fs \<Longrightarrow> fs_ok fs'"
    "n \<noteq> name \<and> n \<noteq> tmp \<or> l \<noteq> level \<Longrightarrow> dir_lookup fs' l n = dir_lookup fs l n"
    "r = Inr info \<Longrightarrow> info = \<lparr>Level = level, MinTXID = mn, MaxTXID = mx, Size = int (length (fst rd)),
        CreatedAt = ts\<rparr> \<and> snd rd = None \<and> dir_lookup fs' level tmp = None \<and>
        dir_lookup fs' level name = Some \<lparr>fe_data = fst rd, fe_mtime = ts\<rparr>"
    "r = Inl e \<Longrightarrow> dir_lookup fs' level name = dir_lookup fs level name \<or>
        f_chtimes flt = Some e \<and> snd rd = None \<and>
        dir_lookup fs' level name = Some \<lparr>fe_data = fst rd, fe_mtime = now\<rparr>"
proof -
  obtain d where d: "fs level = Some d" using d by blast
  obtain bs c where b: "(case f_copy flt of Some (n, e) \<Rightarrow> (take n (fst rd), Some e) | None \<Rightarrow> rd) = (bs, c)"
    by force
  then have c: "c = None \<Longrightarrow> bs = fst rd \<and> snd rd = None"
    by (cases rd) (auto split: option.splits)
  let ?fs1 = "on_dir level (AList.update tmp \<lparr>fe_data = bs, fe_mtime = now\<rparr>) fs"
  have l1: "dir_lookup ?fs1 l n = (if l = level \<and> n = tmp then Some \<lparr>fe_data = bs, fe_mtime = now\<rparr>
      else dir_lookup fs l n)" for l n using d by (simp add: lookup_update)
  have ln: "dir_lookup ?fs1 level tmp = Some \<lparr>fe_data = bs, fe_mtime = now\<rparr>" by (simp add: l1)
  note l2 = lookup_rename [OF ne [symmetric] ln]
  note defs = write_tmp_def b Let_def
  show "fs_ok fs'" if "fs_ok fs"
    using run that by (auto simp: defs fs_ok_ops split: option.splits)
  show "dir_lookup fs' l n = dir_lookup fs l n" if "n \<noteq> name \<and> n \<noteq> tmp \<or> l \<noteq> level"
    using run that by (auto simp: defs l1 l2 lookup_touch split: option.splits)
  show "info = \<lparr>Level = level, MinTXID = mn, MaxTXID = mx, Size = int (length (fst rd)),
        CreatedAt = ts\<rparr> \<and> snd rd = None \<and> dir_lookup fs' level tmp = None \<and>
        dir_lookup fs' level name = Some \<lparr>fe_data = fst rd, fe_mtime = ts\<rparr>" if "r = Inr info"
  proof -
    have "info = \<lparr>Level = level, MinTXID = mn, MaxTXID = mx, Size = int (length bs), CreatedAt = ts\<rparr> \<and>
        c = None \<and> dir_lookup fs' level tmp = None \<and>
        dir_lookup fs' level name = Some \<lparr>fe_data = bs, fe_mtime = ts\<rparr>"
      using run that ne by (auto simp: defs l1 l2 lookup_touch split: option.splits)
    then show ?thesis using c by simp
  qed
  show "dir_lookup fs' level name = dir_lookup fs level name \<or>
        f_chtimes flt = Some e \<and> snd rd = None \<and>
        dir_lookup fs' level name = Some \<lparr>fe_data = fst rd, fe_mtime = now\<rparr>" if "r = Inl e"
  proof -
    have "dir_lookup fs' level name = dir_lookup fs level name \<or> f_chtimes flt = Some e \<and> c = None \<and>
        dir_lookup fs' level name = Some \<lparr>fe_data = bs, fe_mtime = now\<rparr>"
      using run that ne by (auto simp: defs l1 l2 split: option.splits)
    then show ?thesis using c by auto
  qed
qed

lemma file_WriteLTXFile_spec:
  assumes pkg: "pkg_ok pkg" and run: "file_WriteLTXFile pkg flt now fs level mn mx rd = (r, fs')"
  defines "name \<equiv> FormatFilename pkg mn mx"
  shows "fs_ok fs \<Longrightarrow> fs_ok fs'"
    "n \<noteq> name \<and> n \<noteq> name @ ''.tmp'' \<or> l \<noteq> level \<Longrightarrow> dir_lookup fs' l n = dir_lookup fs l n"
    "r = Inr info \<Longrightarrow> Level info = level \<and> MinTXID info = mn \<and> MaxTXID info = mx \<and>
        Size info = int (length (fst rd)) \<and> snd rd = None \<and>
        dir_lookup fs' level (name @ ''.tmp'') = None \<and>
        dir_lookup fs' level name = Some \<lparr>fe_data = fst rd, fe_mtime = CreatedAt info\<rparr>"
    "r = Inl e \<Longrightarrow> dir_lookup fs' level name = dir_lookup fs level name \<or>
        f_chtimes flt = Some e \<and> snd rd = None \<and>
        dir_lookup fs' level name = Some \<lparr>fe_data = fst rd, fe_mtime = now\<rparr>"
proof -
  have ne: "name \<noteq> name @ ''.tmp''" by simp
  have "(fs_ok fs \<longrightarrow> fs_ok fs') \<and>
    (\<forall>n l. n \<noteq> name \<and> n \<noteq> name @ ''.tmp'' \<or> l \<noteq> level \<longrightarrow> dir_lookup fs' l n = dir_lookup fs l n) \<and>
    (\<forall>info. r = Inr info \<longrightarrow> Level info = level \<and> MinTXID info = mn \<and> MaxTXID info = mx \<and>
        Size info = int (length (fst rd)) \<and> snd rd = None \<and>
        dir_lookup fs' level (name @ ''.tmp'') = None \<and>
        dir_lookup fs' level name = Some \<lparr>fe_data = fst rd, fe_mtime = CreatedAt info\<rparr>) \<and>
    (\<forall>e. r = Inl e \<longrightarrow> dir_lookup fs' level name = dir_lookup fs level name \<or>
        f_chtimes flt = Some e \<and> snd rd = None \<and>
        dir_lookup fs' level name = Some \<lparr>fe_data = fst rd, fe_mtime = now\<rparr>)"
  proof (cases "\<exists>ms. PeekHeader pkg rd = Inr ms \<and> f_mkdir flt = None \<and> f_create flt = None")
    case False
    then show ?thesis
      using run by (auto simp: file_WriteLTXFile_def Let_def fs_ok_mkdir split: sum.splits option.splits)
  next
    case True
    then obtain ms where ms: "PeekHeader pkg rd = Inr ms" by blast
    obtain r2 fs2 where w: "write_tmp flt now (time_UnixMilli ms) level mn mx name (name @ ''.tmp'') rd
        (mkdir_level level fs) = (r2, fs2)" by force
    note W = write_tmp_spec [OF w mkdir_level_simps(2) ne]
    show ?thesis
    proof (cases r2)
      case (Inr info)
      then have "r = Inr info" "fs' = fs2"
        using run ms True w by (auto simp: file_WriteLTXFile_def Let_def name_def)
      then show ?thesis using W(1,2) W(3) [OF Inr] by (auto simp: fs_ok_mkdir)
    next
      case (Inl e)
      obtain q fs3 where q: "os_Remove flt level (name @ ''.tmp'') fs2 = (q, fs3)" by force
      have "r = Inl e" "fs' = fs3"
        using run ms True w Inl q by (auto simp: file_WriteLTXFile_def Let_def name_def)
      then show ?thesis
        using W(1,2) W(4) [OF Inl] os_Remove_spec(1,2) [OF q] ne by (auto simp: fs_ok_mkdir)
    qed
  qed
  then show "fs_ok fs \<Longrightarrow> fs_ok fs'"
    "n \<noteq> name \<and> n \<noteq> name @ ''.tmp'' \<or> l \<noteq> level \<Longrightarrow> dir_lookup fs' l n = dir_lookup fs l n"
    "r = Inr info \<Longrightarrow> Level info = level \<and> MinTXID info = mn \<and> MaxTXID info = mx \<and>
        Size info = int (length (fst rd)) \<and> snd rd = None \<and>
        dir_lookup fs' level (name @ ''.tmp'') = None \<and>
        dir_lookup fs' level name = Some \<lparr>fe_data = fst rd, fe_mtime = CreatedAt info\<rparr>"
    "r = Inl e \<Longrightarrow> dir_lookup fs' level name = dir_lookup fs level name \<or>
        f_chtimes flt = Some e \<and> snd rd = None \<and>
        dir_lookup fs' level name = Some \<lparr>fe_data = fst rd, fe_mtime = now\<rparr>"
    by blast+
qed

lemma file_DeleteLTXFiles_spec:
  assumes run: "file_DeleteLTXFiles pkg flt fs a = (r, fs')"
    and flt: "\<forall>name. f_remove flt name \<noteq> Some ErrNotExist"
  shows "fs_ok fs \<Longrightarrow> fs_ok fs'"
    "\<exists>D. D \<subseteq> info_key ` set a \<and> (r = None \<longrightarrow> D = info_key ` set a) \<and>
      (\<forall>l n. dir_lookup fs' l n =
         (if \<exists>(l', mn, mx) \<in> D. l = l' \<and> n = FormatFilename pkg mn mx then None else dir_lookup fs l n))"
proof -
  have "(fs_ok fs \<longrightarrow> fs_ok fs') \<and> (\<exists>D. D \<subseteq> info_key ` set a \<and> (r = None \<longrightarrow> D = info_key ` set a) \<and>
      (\<forall>l n. dir_lookup fs' l n =
         (if \<exists>(l', mn, mx) \<in> D. l = l' \<and> n = FormatFilename pkg mn mx then None else dir_lookup fs l n)))"
    using run
  proof (induction a arbitrary: fs)
    case Nil
    then show ?case by simp
  next
    case (Cons info a)
    let ?n = "FormatFilename pkg (MinTXID info) (MaxTXID info)"
    obtain q fs1 where q: "os_Remove flt (Level info) ?n fs = (q, fs1)" by force
    note R = os_Remove_spec [OF q]
    show ?case
    proof (cases "q = None \<or> q = Some ErrNotExist")
      case False
      then have "r = q" "fs' = fs1" using Cons.prems q by (auto simp: os_IsNotExist_def split: option.splits)
      then show ?thesis using R(1,2) False by (intro conjI exI [of _ "{}"]) auto
    next
      case True
      have gone: "dir_lookup fs1 l n =
          (if l = Level info \<and> n = ?n then None else dir_lookup fs l n)" for l n
        using R(2) [of l n] R(3) flt True by auto
      have "file_DeleteLTXFiles pkg flt fs1 a = (r, fs')"
        using Cons.prems q True by (auto simp: os_IsNotExist_def)
      from Cons.IH [OF this] obtain D where D: "fs_ok fs1 \<longrightarrow> fs_ok fs'" "D \<subseteq> info_key ` set a"
        "r = None \<longrightarrow> D = info_key ` set a"
        "\<forall>l n. dir_lookup fs' l n =
           (if \<exists>(l', mn, mx) \<in> D. l = l' \<and> n = FormatFilename pkg mn mx then None else dir_lookup fs1 l n)"
        by blast
      then have "\<forall>l n. dir_lookup fs' l n =
           (if \<exists>(l', mn, mx) \<in> insert (info_key info) D. l = l' \<and> n = FormatFilename pkg mn mx
            then None else dir_lookup fs l n)"
        by (auto simp: gone info_key_def)
      then show ?thesis using D(1-3) R(1) by (intro conjI exI [of _ "insert (info_key info) D"]) auto
    qed
  qed
  then show "fs_ok fs \<Longrightarrow> fs_ok fs'" "\<exists>D. D \<subseteq> info_key ` set a \<and> (r = None \<longrightarrow> D = info_key ` set a) \<and>
      (\<forall>l n. dir_lookup fs' l n =
         (if \<exists>(l', mn, mx) \<in> D. l = l' \<and> n = FormatFilename pkg mn mx then None else dir_lookup fs l n))"
    by blast+
qed

section \<open>The client honours the contract\<close>

lemma strict_key_equal:
  fixes k :: "'a \<Rightarrow> 'b :: linorder"
  assumes "sorted_wrt (<) (map k xs)" "sorted_wrt (<) (map k ys)" "set xs = set ys"
  shows "xs = ys"
proof -
  have "map k xs = map k ys"
    by (rule strict_sorted_equal [OF assms(2,1)]) (simp add: assms(3))
  moreover have "inj_on k (set xs)"
    using assms(1) by (metis distinct_map strict_sorted_iff)
  ultimately show ?thesis using assms(3) by (simp add: inj_on_map_eq_map)
qed

lemma listing_removed:
  assumes ok: "client_ok pkg flt fs" "client_ok pkg flt fs'"
    and l: "\<forall>l n. dir_lookup fs' l n =
         (if \<exists>(l', mn, mx) \<in> D. l = l' \<and> n = FormatFilename pkg mn mx then None else dir_lookup fs l n)"
  shows "file_listing pkg fs' level = filter (\<lambda>f. info_key f \<notin> D) (file_listing pkg fs level)"
proof (rule strict_key_equal [of txid_range])
  show "sorted_wrt (<) (map txid_range (file_listing pkg fs' level))" by (rule listing_sorted [OF ok(2)])
  show "sorted_wrt (<) (map txid_range (filter (\<lambda>f. info_key f \<notin> D) (file_listing pkg fs level)))"
    using listing_sorted [OF ok(1), of level] by (auto simp: sorted_wrt_map intro: sorted_wrt_filter)
  have pkg: "pkg_ok pkg" using ok(1) by (simp add: client_ok_def)
  have "dir_lookup fs' level (file_name pkg f) =
      (if (level, MinTXID f, MaxTXID f) \<in> D then None else dir_lookup fs level (file_name pkg f))" for f
    using l by (auto simp: file_name_def pkg_inj [OF pkg])
  then show "set (file_listing pkg fs' level) = set (filter (\<lambda>f. info_key f \<notin> D) (file_listing pkg fs level))"
    by (auto simp: listing_iff [OF ok(1)] listing_iff [OF ok(2)] info_key_def split: if_splits)
qed

interpretation file_replica: replica "file_client pkg flt now mk" "client_ok pkg flt" "file_listing pkg"
  for pkg flt now mk
proof
  fix s level seek um
  assume ok: "client_ok pkg flt s"
  show "\<exists>it. cl_LTXFiles (file_client pkg flt now mk) s level seek um = Inr it \<and>
      it_items it = filter (\<lambda>f. seek \<le> MinTXID f) (file_listing pkg s level) \<and>
      it_err it = None \<and> it_close it = None"
    using file_LTXFiles_ok [OF ok] by (simp add: file_client_def)
  show "Level f = level" if "f \<in> set (file_listing pkg s level)" for f
    using that by (simp add: listing_iff [OF ok])
  show "sorted_wrt (<) (map txid_range (file_listing pkg s level))" by (rule listing_sorted [OF ok])
next
  fix s fs r s'
  assume ok: "client_ok pkg flt s" and run: "cl_DeleteLTXFiles (file_client pkg flt now mk) s fs = (r, s')"
  have flt: "\<forall>name. f_remove flt name \<noteq> Some ErrNotExist" using ok by (simp add: client_ok_def)
  have run': "file_DeleteLTXFiles pkg flt s fs = (r, s')" using run by (simp add: file_client_def)
  have ok': "client_ok pkg flt s'"
    using file_DeleteLTXFiles_spec(1) [OF run' flt] ok by (simp add: client_ok_def)
  with file_DeleteLTXFiles_spec(2) [OF run' flt] listing_removed [OF ok ok']
  show "client_ok pkg flt s' \<and> (\<exists>D. D \<subseteq> info_key ` set fs \<and> (r = None \<longrightarrow> D = info_key ` set fs) \<and>
      (\<forall>level. file_listing pkg s' level = filter (\<lambda>f. info_key f \<notin> D) (file_listing pkg s level)))"
    by metis
next
  fix s level mn mx stream w s'
  assume ok: "client_ok pkg flt s"
    and run: "cl_WriteLTXFile (file_client pkg flt now mk) s level mn mx stream = (w, s')"
  have pkg: "pkg_ok pkg" using ok by (simp add: client_ok_def)
  have run': "file_WriteLTXFile pkg flt now s level mn mx stream = (w, s')"
    using run by (simp add: file_client_def)
  note W = file_WriteLTXFile_spec [OF pkg run']
  have ok': "client_ok pkg flt s'" using W(1) ok by (simp add: client_ok_def)
  have other: "dir_lookup s' l (file_name pkg f) = dir_lookup s l (file_name pkg f)"
    if "(l, MinTXID f, MaxTXID f) \<noteq> (level, mn, mx)" for l f
    using that pkg_tmp [OF pkg] by (intro W(2)) (auto simp: file_name_def pkg_inj [OF pkg])
  have new: "info_key info = (level, mn, mx) \<and>
      {f \<in> set (file_listing pkg s' level). info_key f = (level, mn, mx)} = {info}" if "w = Inr info" for info
    using W(3) [OF that]
    by (auto simp: listing_iff [OF ok'] info_key_def file_name_def intro: file_info.equality)
  show "client_ok pkg flt s' \<and>
      (\<forall>l. {f \<in> set (file_listing pkg s' l). info_key f \<noteq> (level, mn, mx)} =
           {f \<in> set (file_listing pkg s l). info_key f \<noteq> (level, mn, mx)}) \<and>
      (\<forall>info. w = Inr info \<longrightarrow> info_key info = (level, mn, mx) \<and>
         {f \<in> set (file_listing pkg s' level). info_key f = (level, mn, mx)} = {info})"
  proof (intro conjI allI impI)
    fix l
    show "{f \<in> set (file_listing pkg s' l). info_key f \<noteq> (level, mn, mx)} =
        {f \<in> set (file_listing pkg s l). info_key f \<noteq> (level, mn, mx)}"
      using other by (auto simp: listing_iff [OF ok] listing_iff [OF ok'] info_key_def)
  qed (use ok' new in auto)
qed

section \<open>A concrete package\<close>

text \<open>Sixteen hexadecimal digits per TXID, and listings sorted by TXID range.\<close>

definition ltx_name :: "u64 \<Rightarrow> u64 \<Rightarrow> string" where
  "ltx_name mn mx = hex_fixed 16 (unat mn) @ ''-'' @ hex_fixed 16 (unat mx) @ ''.ltx''"

definition ltx_parse :: "string \<Rightarrow> (u64 \<times> u64) option" where
  "ltx_parse s =
     (let mn = word_of_nat (parse_hex (take 16 s)); mx = word_of_nat (parse_hex (sub 17 16 s))
      in if s = ltx_name mn mx then Some (mn, mx) else None)"

definition ex_pkg :: ltx_pkg where
  "ex_pkg = \<lparr>FormatFilename = ltx_name, ParseFilename = ltx_parse,
     SliceIterator = sort_key txid_range,
     PeekHeader = (\<lambda>rd. if fst rd = [] then Inl EOF else Inr 0)\<rparr>"

definition no_faults :: os_faults where
  "no_faults = \<lparr>f_open = None, f_readdir = None, f_mkdir = None, f_create = None, f_copy = None,
     f_sync = None, f_stat = None, f_close = None, f_rename = None, f_chtimes = None,
     f_remove = (\<lambda>_. None)\<rparr>"

lemma parse_ltx_name: "ltx_parse (ltx_name mn mx) = Some (mn, mx)"
proof -
  have "parse_hex (hex_fixed 16 (unat w)) = unat w" for w :: u64
  proof -
    have "unat w < 2 ^ LENGTH(64)" by (rule unsigned_less)
    then show ?thesis unfolding parse_hex_fixed by (intro mod_less) simp
  qed
  moreover have "take 16 (ltx_name mn mx) = hex_fixed 16 (unat mn)"
    "sub 17 16 (ltx_name mn mx) = hex_fixed 16 (unat mx)"
    by (simp_all add: ltx_name_def sub_def del: hex_fixed.simps)
  ultimately show ?thesis by (simp add: ltx_parse_def del: hex_fixed.simps)
qed

lemma last_ltx_name: "last (ltx_name mn mx) = CHR ''x''"
  by (simp add: ltx_name_def del: hex_fixed.simps)

lemma ex_pkg_ok: "pkg_ok ex_pkg"
proof -
  have "ltx_parse name = Some (mn, mx) \<longleftrightarrow> name = ltx_name mn mx" for name mn mx
    by (auto simp: parse_ltx_name) (auto simp: ltx_parse_def Let_def split: if_splits)
  moreover have "ltx_parse (name @ ''.tmp'') = None" for name
  proof -
    have "name @ ''.tmp'' \<noteq> ltx_name mn mx" for mn mx
    proof
      assume "name @ ''.tmp'' = ltx_name mn mx"
      from arg_cong [OF this, of last] show False by (simp add: last_ltx_name)
    qed
    then show ?thesis by (simp add: ltx_parse_def Let_def)
  qed
  ultimately show ?thesis by (simp add: pkg_ok_def ex_pkg_def)
qed

lemma ex_client_ok: "fs_ok fs \<Longrightarrow> client_ok ex_pkg no_faults fs"
  by (simp add: client_ok_def ex_pkg_ok no_faults_def)

section \<open>Writes are atomic\<close>

text \<open>C16: Writing an LTX file is all or nothing for every reader of the replica, whichever system
  call fails and however the source stream breaks: no other file changes; on success the file has
  exactly the stream's bytes under the header's timestamp, opens to them, and no temporary file is
  left; on failure the file is what it was before, except when only the last call, setting the
  modification time, failed, and then it is complete.\<close>

theorem WriteLTXFile_atomic:
  assumes "client_ok pkg flt fs" "file_WriteLTXFile pkg flt now fs level mn mx rd = (r, fs')"
  shows "client_ok pkg flt fs' \<and>
    (\<forall>l a b. (l, a, b) \<noteq> (level, mn, mx) \<longrightarrow>
       dir_lookup fs' l (FormatFilename pkg a b) = dir_lookup fs l (FormatFilename pkg a b)) \<and>
    (case r of
       Inr info \<Rightarrow> snd rd = None \<and> info \<in> set (file_listing pkg fs' level) \<and>
         info_key info = (level, mn, mx) \<and> Size info = int (length (fst rd)) \<and>
         client_OpenLTXFile pkg mk fs' level mn mx 0 0 = Inr (PlainFile \<lparr>fcontent = fst rd, fpos = 0\<rparr>) \<and>
         dir_lookup fs' level (FormatFilename pkg mn mx @ ''.tmp'') = None
     | Inl e \<Rightarrow> dir_lookup fs' level (FormatFilename pkg mn mx) = dir_lookup fs level (FormatFilename pkg mn mx) \<or>
         f_chtimes flt = Some e \<and> snd rd = None \<and>
         dir_lookup fs' level (FormatFilename pkg mn mx) = Some \<lparr>fe_data = fst rd, fe_mtime = now\<rparr>)"
proof -
  have pkg: "pkg_ok pkg" using assms(1) by (simp add: client_ok_def)
  note W = file_WriteLTXFile_spec [OF pkg assms(2)]
  have ok': "client_ok pkg flt fs'" using W(1) assms(1) by (simp add: client_ok_def)
  have "dir_lookup fs' l (FormatFilename pkg a b) = dir_lookup fs l (FormatFilename pkg a b)"
    if "(l, a, b) \<noteq> (level, mn, mx)" for l a b
    using that pkg_tmp [OF pkg] by (intro W(2)) (auto simp: pkg_inj [OF pkg])
  moreover have "case r of
       Inr info \<Rightarrow> snd rd = None \<and> info \<in> set (file_listing pkg fs' level) \<and>
         info_key info = (level, mn, mx) \<and> Size info = int (length (fst rd)) \<and>
         client_OpenLTXFile pkg mk fs' level mn mx 0 0 = Inr (PlainFile \<lparr>fcontent = fst rd, fpos = 0\<rparr>) \<and>
         dir_lookup fs' level (FormatFilename pkg mn mx @ ''.tmp'') = None
     | Inl e \<Rightarrow> dir_lookup fs' level (FormatFilename pkg mn mx) = dir_lookup fs level (FormatFilename pkg mn mx) \<or>
         f_chtimes flt = Some e \<and> snd rd = None \<and>
         dir_lookup fs' level (FormatFilename pkg mn mx) = Some \<lparr>fe_data = fst rd, fe_mtime = now\<rparr>"
  proof (cases r)
    case (Inl e)
    then show ?thesis using W(4) [OF Inl] by simp
  next
    case (Inr info)
    then show ?thesis
      using W(3) [OF Inr]
      by (simp add: listing_iff [OF ok'] info_key_def file_name_def client_OpenLTXFile_def
          file_OpenLTXFile_def)
  qed
  ultimately show ?thesis using ok' by blast
qed

theorem WriteLTXFile_atomic_witness:
  "\<exists>fs'. file_WriteLTXFile ex_pkg (no_faults\<lparr>f_rename := Some ErrBusy\<rparr>) 9 (\<lambda>_. None) 0 3 4 ([7, 8], None) =
      (Inl ErrBusy, fs') \<and> dir_lookup fs' 0 (ltx_name 3 4) = None"
proof -
  let ?flt = "no_faults\<lparr>f_rename := Some ErrBusy\<rparr>"
  have ok: "client_ok ex_pkg ?flt (\<lambda>_. None)"
    by (simp add: client_ok_def ex_pkg_ok no_faults_def fs_ok_def)
  obtain r fs' where w: "file_WriteLTXFile ex_pkg ?flt 9 (\<lambda>_. None) 0 3 4 ([7, 8], None) = (r, fs')"
    by force
  then have r: "r = Inl ErrBusy"
    by (auto simp: file_WriteLTXFile_def ex_pkg_def no_faults_def write_tmp_def Let_def)
  have "dir_lookup fs' 0 (ltx_name 3 4) = dir_lookup (\<lambda>_. None) 0 (ltx_name 3 4)"
    using WriteLTXFile_atomic [OF ok w] r by (simp add: ex_pkg_def no_faults_def)
  with w r show ?thesis by (simp add: dir_lookup_def)
qed

end
