(* ===== verification/Replica_Safety.thy ===== *)
theory Replica_Safety
  imports File_Replica
begin

text \<open>
  What compaction and retention owe the restorer, on the file replica: the lemmas of the locale
  \<open>replica\<close> through the interpretation \<open>file_replica\<close>. Retention by snapshots never destroys the
  last way to a transaction it should keep, level-0 retention leaves a contiguous level that still
  starts within level 1, compaction extends a contiguous level by one file, and the two checks of a
  level, the compactor's and the validator's, agree with the definition of a contiguous level.
\<close>

lemma levels_below_snapshot:
  assumes "levels_Validate levels = None"
  shows "\<forall>lvl \<in> set levels. lvl_Level lvl \<noteq> SnapshotLevel"
proof
  fix lvl assume "lvl \<in> set levels"
  then obtain j where "j < length levels" "levels ! j = lvl" by (auto simp: in_set_conv_nth)
  moreover have "validate_loop 0 levels = None"
    using assms by (auto simp: levels_Validate_def split: if_splits)
  ultimately have "level_at (int j) lvl" by (auto simp: validate_loop_None)
  then show "lvl_Level lvl \<noteq> SnapshotLevel" by (auto simp: level_at_def SnapshotLevel_def)
qed

lemma file_client_lists [simp]: "cl_LTXFiles (file_client pkg flt clk mk) = file_LTXFiles pkg flt"
  by (simp add: file_client_def)

section \<open>An example replica\<close>

text \<open>Snapshots up to 4 (old) and up to 6, level 1 with 5-6 and 7-9, level 0 with 8, 9 and 10.\<close>

definition ex_entry :: "u64 \<Rightarrow> u64 \<Rightarrow> go_time \<Rightarrow> string \<times> fentry" where
  "ex_entry a b t = (ltx_name a b, \<lparr>fe_data = [1, 2], fe_mtime = t\<rparr>)"

definition ex_fs :: level_fs where
  "ex_fs level =
     (if level = 9 then Some [ex_entry 1 6 50, ex_entry 1 4 5]
      else if level = 1 then Some [ex_entry 7 9 30, ex_entry 5 6 20]
      else if level = 0 then Some [ex_entry 8 8 10, ex_entry 10 10 90, ex_entry 9 9 20]
      else None)"

definition ex_state :: "level_fs cstate" where
  "ex_state = \<lparr>rep = ex_fs, info_cache = Map.empty, localDeleted = [], verifyErrors = 0\<rparr>"

definition ex_compactor :: compactor where
  "ex_compactor = \<lparr>VerifyCompaction = True, RetentionEnabled = True, LocalFileOpener = None,
     HasLocalDeleter = False, HasCache = True\<rparr>"

definition ex_file :: "int \<Rightarrow> u64 \<Rightarrow> u64 \<Rightarrow> go_time \<Rightarrow> file_info" where
  "ex_file l a b t = \<lparr>Level = l, MinTXID = a, MaxTXID = b, Size = 2, CreatedAt = t\<rparr>"

lemma ex_fs_ok: "client_ok ex_pkg no_faults ex_fs"
proof (rule ex_client_ok)
  have inj: "ltx_name a b = ltx_name c d \<longleftrightarrow> a = c \<and> b = d" for a b c d
    using pkg_inj [OF ex_pkg_ok, of a b c d] by (simp add: ex_pkg_def)
  show "fs_ok ex_fs" by (auto simp: fs_ok_def ex_fs_def ex_entry_def inj split: if_splits)
qed

lemma ex_listing:
  "file_listing ex_pkg ex_fs 9 = [ex_file 9 1 4 5, ex_file 9 1 6 50]"
  "file_listing ex_pkg ex_fs 1 = [ex_file 1 5 6 20, ex_file 1 7 9 30]"
  "file_listing ex_pkg ex_fs 0 = [ex_file 0 8 8 10, ex_file 0 9 9 20, ex_file 0 10 10 90]"
  "level \<notin> {0, 1, 9} \<Longrightarrow> file_listing ex_pkg ex_fs level = []"
  by (simp_all add: file_listing_def ex_fs_def ex_entry_def List.map_filter_simps entry_info_def
      ex_pkg_def parse_ltx_name txid_range_def less_eq_prod_def ex_file_def)

section \<open>Retention\<close>

text \<open>C8: Retention keeps every transaction restorable that it should: whatever transaction a plan
  reached before, starting from a snapshot that is newer than the retention period or the newest
  one, a plan reaches it after \<open>Store.EnforceSnapshotRetention\<close> has run, also when a deletion
  failed part-way and the run returned an error.\<close>

theorem retention_keeps_restorable:
  assumes "client_ok pkg flt (rep st)" "levels_Validate levels = None"
    and "Store_EnforceSnapshotRetention c (file_client pkg flt clk mk) levels now R st = (r, st')"
    and "\<forall>g \<in> set (file_listing pkg (rep st) SnapshotLevel). MinTXID g = 1 \<and> MaxTXID g \<noteq> 0"
    and "CalcRestorePlan mx (file_LTXFiles pkg flt (rep st)) t 0 = Inr plan" "slice_max_law mx" "t \<noteq> 0"
    and "plan_start (file_LTXFiles pkg flt (rep st)) t 0 = [S]"
    and "\<not> CreatedAt S < now - R \<or> S = last (file_listing pkg (rep st) SnapshotLevel)"
  shows "\<exists>plan'. CalcRestorePlan mx (file_LTXFiles pkg flt (rep st')) t 0 = Inr plan' \<and>
    MaxTXID (last plan') = t"
  using file_replica.retention_restorable [OF assms(1) levels_below_snapshot [OF assms(2)] assms(3,4)]
    assms(5-9) by simp

lemma ex_plan_9:
  "\<exists>plan. CalcRestorePlan ex_max (file_LTXFiles ex_pkg no_faults ex_fs) 9 0 = Inr plan"
  "plan_start (file_LTXFiles ex_pkg no_faults ex_fs) 9 0 = [ex_file 9 1 6 50]"
proof -
  let ?cl = "file_LTXFiles ex_pkg no_faults ex_fs"
  note L = file_replica.listing_files [OF ex_fs_ok, simplified]
  show p: "plan_start ?cl 9 0 = [ex_file 9 1 6 50]"
    by (simp add: plan_start_def L SnapshotLevel_def ex_listing in_target_def ex_file_def)
  have "set [ex_file 1 7 9 30] \<subseteq> set (level_files ?cl 0)"
    using ex_listing by (simp add: level_files_def L plan_levels_def)
  then show "\<exists>plan. CalcRestorePlan ex_max ?cl 9 0 = Inr plan"
    using CalcRestorePlan_found [OF file_replica.client_lister_ok [OF ex_fs_ok, simplified] ex_max_law,
        of 9 "[ex_file 1 7 9 30]"] p
    by (auto simp: ex_file_def)
qed

theorem retention_keeps_restorable_witness:
  "\<exists>plan'. CalcRestorePlan ex_max (file_LTXFiles ex_pkg no_faults
      (rep (snd (Store_EnforceSnapshotRetention ex_compactor (file_client ex_pkg no_faults 0 (\<lambda>_ _ _ _ e. e))
         DefaultCompactionLevels 100 60 ex_state)))) 9 0 = Inr plan' \<and> MaxTXID (last plan') = 9"
proof -
  obtain r st' where run: "Store_EnforceSnapshotRetention ex_compactor
      (file_client ex_pkg no_faults 0 (\<lambda>_ _ _ _ e. e)) DefaultCompactionLevels 100 60 ex_state = (r, st')"
    by force
  obtain plan where plan: "CalcRestorePlan ex_max (file_LTXFiles ex_pkg no_faults ex_fs) 9 0 = Inr plan"
    using ex_plan_9(1) by blast
  have "levels_Validate DefaultCompactionLevels = None"
    by (simp add: levels_Validate_def DefaultCompactionLevels_def SnapshotLevel_def seconds_def)
  then show ?thesis
    using retention_keeps_restorable [OF _ _ run, of ex_max 9 plan "ex_file 9 1 6 50"]
      ex_fs_ok plan ex_plan_9(2) ex_max_law run
    by (simp add: ex_state_def SnapshotLevel_def ex_listing) (simp add: ex_file_def)
qed

text \<open>C22: Level-0 retention leaves the level contiguous: on a contiguous level a successful run of
  the compactor's or of the database's version removes a prefix of it, of files older than the
  retention period whose transactions level 1 already covers, and never the whole level.\<close>

theorem l0_retention_contiguous:
  fixes st :: "level_fs cstate" and pkg :: ltx_pkg
  assumes "client_ok pkg flt (rep st)" "RetentionEnabled c"
    and "consecutive (file_listing pkg (rep st) 0)" "spans (file_listing pkg (rep st) 0)"
    and "EnforceL0Retention c (file_client pkg flt clk mk) now R st = (None, st') \<or>
      EnforceL0RetentionByTime c (file_client pkg flt clk mk) now R local st = (None, st')"
  shows "\<exists>k. file_listing pkg (rep st') 0 = drop k (file_listing pkg (rep st) 0) \<and>
    consecutive (file_listing pkg (rep st') 0) \<and>
    (file_listing pkg (rep st) 0 = [] \<or> file_listing pkg (rep st') 0 \<noteq> []) \<and>
    (\<forall>f \<in> set (take k (file_listing pkg (rep st) 0)).
       MaxTXID f \<le> MaxTXID (max_info (file_listing pkg (rep st) 1)) \<and>
       (time_IsZero (CreatedAt f) \<or> CreatedAt f \<le> now - R))"
proof -
  have zero: "l0_old (now - R) created f \<Longrightarrow> time_IsZero (CreatedAt f) \<or> CreatedAt f \<le> now - R" for created f
    by (auto simp: l0_old_def split: if_splits)
  obtain c' created where c': "RetentionEnabled c'"
    "l0_retention c' (file_client pkg flt clk mk) now R created st = (None, st')"
    using assms(5) unfolding EnforceL0Retention_def EnforceL0RetentionByTime_def
  proof (elim disjE)
    assume "l0_retention c (file_client pkg flt clk mk) now R (\<lambda>_. now - R) st = (None, st')"
    then show thesis by (rule that [OF assms(2)])
  next
    assume "l0_retention (c\<lparr>HasLocalDeleter := True\<rparr>) (file_client pkg flt clk mk) now R
      (\<lambda>f. case local (MinTXID f) (MaxTXID f) of Some t \<Rightarrow> t | None \<Rightarrow> now - R) st = (None, st')"
    then show thesis by (rule that [rotated]) (simp add: assms(2))
  qed
  from file_replica.l0_retention_drops [OF assms(1) c'(1) assms(3,4) c'(2)] zero
  show ?thesis by fastforce
qed

lemma no_faults_delete: "\<exists>fs'. file_DeleteLTXFiles pkg no_faults fs a = (None, fs')"
  by (induction a arbitrary: fs) (auto simp: os_Remove_def no_faults_def os_IsNotExist_def)

theorem l0_retention_contiguous_witness:
  "\<exists>st' k. EnforceL0Retention ex_compactor (file_client ex_pkg no_faults 0 (\<lambda>_ _ _ _ e. e)) 100 60 ex_state
      = (None, st') \<and>
    file_listing ex_pkg (rep st') 0 = drop k [ex_file 0 8 8 10, ex_file 0 9 9 20, ex_file 0 10 10 90]"
proof -
  let ?cl = "file_client ex_pkg no_faults 0 (\<lambda>_ _ _ _ e. e)"
  obtain r st' where run: "EnforceL0Retention ex_compactor ?cl 100 60 ex_state = (r, st')" by force
  have d: "cl_DeleteLTXFiles ?cl fs a \<noteq> (Some e, s)" for fs a e s
    using no_faults_delete [of ex_pkg fs a] by (auto simp: file_client_def)
  obtain it where it: "file_LTXFiles ex_pkg no_faults ex_fs 1 0 False = Inr it" "it_close it = None"
    using file_LTXFiles_ok [OF ex_fs_ok, of 1 0 False] by auto
  obtain it0 where it0: "file_LTXFiles ex_pkg no_faults ex_fs 0 0 False = Inr it0" "it_close it0 = None"
    using file_LTXFiles_ok [OF ex_fs_ok, of 0 0 False] by auto
  have "r = None"
    using run d it it0
    by (auto simp: EnforceL0Retention_def l0_retention_def ex_state_def delete_marked_def
        ex_compactor_def Let_def split: prod.splits option.splits if_splits)
  moreover have "consecutive (file_listing ex_pkg ex_fs 0)" "spans (file_listing ex_pkg ex_fs 0)"
    by (simp_all add: ex_listing ex_file_def)
  ultimately show ?thesis
    using run
      l0_retention_contiguous [of ex_pkg no_faults ex_state ex_compactor 0 "\<lambda>_ _ _ _ e. e" 100 60 st']
      ex_fs_ok by (auto simp: ex_state_def ex_compactor_def ex_listing)
qed

text \<open>C11: Compaction extends a level by one file: on a destination without gaps, whose cached newest
  file is right, and new source files that follow it without gaps, a successful compaction appends
  exactly one file, spanning the source files from the first TXID to the last; the level stays
  contiguous and the verification after the write counts no error.\<close>

theorem Compact_extends_level:
  fixes st :: "level_fs cstate" and pkg :: ltx_pkg
  assumes "client_ok pkg flt (rep st)"
    and "HasCache c \<longrightarrow> info_cache st level \<in> {None, Some (max_info (file_listing pkg (rep st) level))}"
    and "consecutive (file_listing pkg (rep st) level)" "spans (file_listing pkg (rep st) level)"
    and "src = filter (\<lambda>f. MaxTXID (max_info (file_listing pkg (rep st) level)) + 1 \<le> MinTXID f)
      (file_listing pkg (rep st) (level - 1))"
    and "consecutive src" "spans src"
    and "file_listing pkg (rep st) level = [] \<or> src = [] \<or>
      MinTXID (hd src) = MaxTXID (last (file_listing pkg (rep st) level)) + 1"
    and "Compact c (file_client pkg flt clk mk) ltx_compact level st = (Inr info, st')"
  shows "src \<noteq> [] \<and> file_listing pkg (rep st') level = file_listing pkg (rep st) level @ [info] \<and>
    consecutive (file_listing pkg (rep st') level) \<and>
    MinTXID info = MinTXID (hd src) \<and> MaxTXID info = MaxTXID (last src) \<and>
    verifyErrors st' = verifyErrors st"
proof -
  have "file_replica.cache_ok pkg c level st"
    using assms(2) by (simp add: file_replica.cache_ok_def)
  from file_replica.Compact_appends [OF assms(1) this assms(3,4) assms(6,7) [unfolded assms(5)] _ assms(9)]
    assms(5,8) show ?thesis by auto
qed

theorem Compact_extends_level_witness:
  "\<exists>info st'. Compact ex_compactor (file_client ex_pkg no_faults 0 (\<lambda>_ _ _ _ e. e))
      (\<lambda>rdrs. (concat rdrs, None)) 2 ex_state = (Inr info, st') \<and>
    file_listing ex_pkg (rep st') 2 = [info] \<and> MinTXID info = 5 \<and> MaxTXID info = 9"
proof -
  let ?cl = "file_client ex_pkg no_faults 0 (\<lambda>_ _ _ _ e. e)" and ?lc = "\<lambda>rdrs. (concat rdrs, None)"
  obtain r st' where run: "Compact ex_compactor ?cl ?lc 2 ex_state = (r, st')" by force
  obtain it where it: "file_LTXFiles ex_pkg no_faults ex_fs 2 0 False = Inr it" "it_items it = []"
    "it_close it = None"
    using file_LTXFiles_ok [OF ex_fs_ok, of 2 0 False] ex_listing(4) [of 2] by auto
  obtain it1 where it1: "file_LTXFiles ex_pkg no_faults ex_fs 1 1 False = Inr it1"
    "it_items it1 = [ex_file 1 5 6 20, ex_file 1 7 9 30]"
    using file_LTXFiles_ok [OF ex_fs_ok, of 1 1 False] ex_listing(2) by (auto simp: ex_file_def)
  have o: "cl_OpenLTXFile ?cl ex_fs 1 5 6 = Inr [1, 2]" "cl_OpenLTXFile ?cl ex_fs 1 7 9 = Inr [1, 2]"
    using pkg_inj [OF ex_pkg_ok, of 5 6 7 9]
    by (simp_all add: file_client_def client_OpenLTXFile_def file_OpenLTXFile_def dir_lookup_def
        ex_fs_def ex_entry_def ex_pkg_def)
  have "\<exists>info s2. cl_WriteLTXFile ?cl ex_fs 2 5 9 ([1, 2, 1, 2], None) = (Inr info, s2)"
    by (simp add: file_client_def file_WriteLTXFile_def write_tmp_def ex_pkg_def no_faults_def Let_def)
  then obtain info where r: "r = Inr info"
    using run it it1 o
    by (auto simp: Compact_def MaxLTXFileInfo_def ex_compactor_def ex_state_def ex_file_def
        zero_info_def Let_def)
  have e: "file_listing ex_pkg (rep ex_state) 2 = []" "file_listing ex_pkg (rep ex_state) (2 - 1) =
      [ex_file 1 5 6 20, ex_file 1 7 9 30]" "client_ok ex_pkg no_faults (rep ex_state)"
    by (simp_all add: ex_state_def ex_listing ex_fs_ok)
  from Compact_extends_level [OF e(3) _ _ _ refl _ _ _ run [unfolded r]]
  show ?thesis using run r
    by (simp add: e) (simp add: ex_state_def ex_listing ex_file_def zero_info_def)
qed

text \<open>The compactor's check of a level and the validator agree with the definition of a
  contiguous level: the check passes exactly when each file starts one past the end of the one
  before; the validator reports nothing exactly when, in addition, the first TXIDs do not decrease;
  and it never reports more than one error per pair of neighbours.\<close>

lemma level_checks_agree:
  assumes "cl_LTXFiles cl s level 0 False = Inr it" "it_close it = None"
  shows "(VerifyLevelConsistency cl level s = None \<longleftrightarrow> consecutive (it_items it)) \<and>
    (\<exists>errs. ValidateLevel cl level s = Inr errs \<and> length errs \<le> length (it_items it) - 1 \<and>
       (errs = [] \<longleftrightarrow> consecutive (it_items it) \<and> sorted (map MinTXID (it_items it))))"
proof -
  have V: "length (validate_files (Some p) fs errs) \<le> length errs + length fs \<and>
      (validate_files (Some p) fs errs = [] \<longleftrightarrow>
         errs = [] \<and> consecutive (p # fs) \<and> sorted (map MinTXID (p # fs)))" for p fs errs
  proof (induction fs arbitrary: p errs)
    case (Cons f fs)
    show ?case
      using Cons.IH [of f errs] Cons.IH [of f "errs @ [(Unsorted, p, f)]"]
        Cons.IH [of f "errs @ [(if MinTXID f > MaxTXID p + 1 then Gap else Overlap, p, f)]"]
      by (auto simp: not_less intro: order_trans)
  qed simp
  have "VerifyLevelConsistency cl level s = verify_loop None (it_items it)"
    using assms by (simp add: VerifyLevelConsistency_def split: option.splits)
  moreover have "ValidateLevel cl level s = Inr (validate_files None (it_items it) [])"
    using assms by (simp add: ValidateLevel_def)
  moreover have "length (validate_files None fs []) \<le> length fs - 1 \<and>
      (validate_files None fs [] = [] \<longleftrightarrow> consecutive fs \<and> sorted (map MinTXID fs))" for fs
    using V [of "hd fs" "tl fs" "[]"] by (cases fs) auto
  ultimately show ?thesis by (simp add: verify_loop_None)
qed

end
