(* ===== verification/Wal_Sync.thy ===== *)
theory Wal_Sync
  imports Wal_Reader Ltx_Files
begin

text \<open>
  The sync loop of a database, \<open>db.go\<close>: the check that the WAL still continues where the last LTX
  file ended (\<open>verify\<close>, \<open>lastPageMatch\<close>, \<open>detectFullCheckpoint\<close>), the copy of the new pages into
  the next level-0 LTX file (\<open>sync\<close>, \<open>writeLTXFromDB\<close>, \<open>writeLTXFromWAL\<close>), and the checkpoint
  thresholds and sequence.

  The state \<open>db\<close> holds what these functions read and write: the database and WAL files, the local
  level-0 directory, the cached position, and the three fields that survive a sync. An LTX file is
  its decoded header and pages, the error its decoder would end with, and the error of a header
  that does not decode; encoding it is the work of the package \<open>ltx\<close>. Loops over a WAL spend fuel,
  at most one unit per frame.
\<close>

section \<open>State\<close>

record ltx_header =
  hPageSize :: u32
  hCommit :: u32
  hMinTXID :: u64
  hMaxTXID :: u64
  hTimestamp :: go_time
  hWALOffset :: int
  hWALSize :: int
  hWALSalt1 :: u32
  hWALSalt2 :: u32

record ltx_file =
  lheader :: ltx_header
  lpages :: "(u32 \<times> byte list) list"
  lpages_err :: "go_error option"

record db =
  db_file :: "byte list"
  db_wal :: "byte list option"
  db_pageSize :: nat
  db_l0 :: "((u64 \<times> u64) \<times> (go_error + ltx_file)) list"
  db_pos :: "u64 option"
  l0_cache :: "file_info option"
  syncedToWALEnd :: bool
  lastSyncedWALOffset :: int
  syncedSinceCheckpoint :: bool

record sync_info =
  si_offset :: int
  si_salt1 :: u32
  si_salt2 :: u32
  si_snapshotting :: bool
  si_reason :: string

text \<open>The package's parts: how an error is wrapped with the file's name, the page the database never
  stores, and the encoded size.\<close>

record ltx_ops =
  NewLTXError :: "string \<Rightarrow> u64 \<Rightarrow> u64 \<Rightarrow> go_error \<Rightarrow> go_error"
  LockPgno :: "u32 \<Rightarrow> u32"
  EncodedSize :: "ltx_file \<Rightarrow> int"

datatype sync_op = OpStatDb | OpMkdir | OpCreateTmp | OpEncode | OpFsync | OpClose | OpRename

section \<open>Position\<close>

fun max_ltx :: "((u64 \<times> u64) \<times> 'a) list \<Rightarrow> u64 \<times> u64 \<Rightarrow> u64 \<times> u64" where
  "max_ltx [] acc = acc"
| "max_ltx (((mn, mx), _) # ents) acc = max_ltx ents (if mx > snd acc then (mn, mx) else acc)"

definition db_MaxLTX :: "db \<Rightarrow> u64 \<times> u64" where
  "db_MaxLTX st = max_ltx (db_l0 st) (0, 0)"

definition db_Pos :: "ltx_ops \<Rightarrow> db \<Rightarrow> (go_error + u64) \<times> db" where
  "db_Pos ops st =
     (case db_pos st of
        Some p \<Rightarrow> (Inr p, st)
      | None \<Rightarrow>
          (case db_MaxLTX st of (minTXID, maxTXID) \<Rightarrow>
             if minTXID = 0 then (Inr 0, st)
             else (case map_of (db_l0 st) (minTXID, maxTXID) of
                None \<Rightarrow> (Inl (NewLTXError ops ''open'' minTXID maxTXID ErrNotExist), st)
              | Some (Inl e) \<Rightarrow>
                  (Inl (NewLTXError ops ''verify'' minTXID maxTXID (Wrap2 ErrLTXCorrupted e)), st)
              | Some (Inr f) \<Rightarrow>
                  (case lpages_err f of
                     Some e \<Rightarrow> (Inl (NewLTXError ops ''verify'' minTXID maxTXID (Wrap2 ErrLTXCorrupted e)), st)
                   | None \<Rightarrow> (Inr (hMaxTXID (lheader f)), st\<lparr>db_pos := Some (hMaxTXID (lheader f))\<rparr>)))))"

section \<open>Reading the WAL file\<close>

definition readWALHeader :: "byte list option \<Rightarrow> go_error + byte list" where
  "readWALHeader w =
     (case w of
        None \<Rightarrow> Inl ErrNotExist
      | Some bs \<Rightarrow> if bs = [] then Inl EOF
                   else if length bs < 32 then Inl ErrUnexpectedEOF else Inr (take 32 bs))"

definition readWALFileAt :: "byte list option \<Rightarrow> int \<Rightarrow> int \<Rightarrow> go_error + byte list" where
  "readWALFileAt w off n =
     (case w of
        None \<Rightarrow> Inl ErrNotExist
      | Some bs \<Rightarrow>
          (case file_ReadAt bs (nat n) off of
             (got, Some e) \<Rightarrow> Inl e
           | (got, None) \<Rightarrow> if int (length got) < n then Inl ErrUnexpectedEOF else Inr got))"

definition walFileSize :: "db \<Rightarrow> int" where
  "walFileSize st = (case db_wal st of None \<Rightarrow> 0 | Some bs \<Rightarrow> int (length bs))"

definition calcWALSize :: "u32 \<Rightarrow> u32 \<Rightarrow> int" where
  "calcWALSize pageSz pageN = WALHeaderSize + uint (24 + pageSz) * uint pageN"

section \<open>Verify\<close>

definition lastPageMatch :: "db \<Rightarrow> ltx_file \<Rightarrow> int \<Rightarrow> int \<Rightarrow> go_error + bool" where
  "lastPageMatch st dec prevWALOffset frameSz =
     (if prevWALOffset \<le> WALHeaderSize then Inr False
      else (case readWALFileAt (db_wal st) prevWALOffset frameSz of
        Inl e \<Rightarrow> Inl (Wrapf ''cannot read last synced wal page'' e)
      | Inr frame \<Rightarrow>
          (let pgno = be32 frame; data = drop 24 frame
           in if be32 (drop 8 frame) \<noteq> hWALSalt1 (lheader dec) \<or>
                 be32 (drop 12 frame) \<noteq> hWALSalt2 (lheader dec) then Inr False
              else if (pgno, data) \<in> set (lpages dec) then Inr True
              else (case lpages_err dec of
                 None \<Rightarrow> Inr False
               | Some e \<Rightarrow> if errors_Is e EOF then Inr False else Inl (Wrapf ''decode ltx page'' e)))))"

definition detectFullCheckpoint ::
  "nat \<Rightarrow> db \<Rightarrow> (u32 \<times> u32) list \<Rightarrow> (go_error + bool) run" where
  "detectFullCheckpoint fuel st knownSalts =
     (case db_wal st of
        None \<Rightarrow> Done (Inl (Wrapf ''open wal file'' ErrNotExist))
      | Some w \<Rightarrow>
          (let lastKnownSalt = (if knownSalts = [] then (0, 0) else last knownSalts) in
           (case NewWALReader (file_ReadAt w) of
              Inl e \<Rightarrow> Done (Inl (Wrapf ''new wal reader'' e))
            | Inr rd \<Rightarrow>
                (case FrameSaltsUntil fuel (file_ReadAt w) rd lastKnownSalt of
                   Done (Inl e) \<Rightarrow> Done (Inl (Wrapf ''frame salts until'' e))
                 | Done (Inr m) \<Rightarrow> Done (Inr (m - set knownSalts \<noteq> {}))
                 | Panicked \<Rightarrow> Panicked | OutOfFuel \<Rightarrow> OutOfFuel))))"

definition zero_info_sync :: sync_info where
  "zero_info_sync = \<lparr>si_offset = 0, si_salt1 = 0, si_salt2 = 0, si_snapshotting = True, si_reason = ''''\<rparr>"

text \<open>From the comparison of the WAL headers on.\<close>

definition verify_header ::
  "nat \<Rightarrow> db \<Rightarrow> ltx_file \<Rightarrow> int \<Rightarrow> sync_info \<Rightarrow> (go_error + sync_info) run" where
  "verify_header fuel st dec frameSz info =
     (case readWALHeader (db_wal st) of
        Inl e \<Rightarrow> Done (Inl (Wrapf ''cannot read wal header'' e))
      | Inr hdr0 \<Rightarrow>
          (let salt1 = be32 (drop 16 hdr0); salt2 = be32 (drop 20 hdr0);
               saltMatch = (salt1 = hWALSalt1 (lheader dec) \<and> salt2 = hWALSalt2 (lheader dec));
               prevWALOffset = si_offset info - frameSz
           in if si_offset info = WALHeaderSize \<or> prevWALOffset = WALHeaderSize
              then (if saltMatch then Done (Inr (info\<lparr>si_snapshotting := False\<rparr>))
                    else Done (Inr (info\<lparr>si_reason := ''wal header salt reset, snapshotting''\<rparr>)))
              else if prevWALOffset < WALHeaderSize
              then Done (Inl (Errorf ''prev WAL offset is less than the header size''))
              else (case lastPageMatch st dec prevWALOffset frameSz of
                 Inl e \<Rightarrow> Done (Inl (Wrapf ''last page match'' e))
               | Inr False \<Rightarrow>
                   Done (Inr (info\<lparr>si_reason := ''last page does not exist in last ltx file''\<rparr>))
               | Inr True \<Rightarrow>
                   if saltMatch then Done (Inr (info\<lparr>si_snapshotting := False\<rparr>))
                   else (let info1 = info\<lparr>si_offset := WALHeaderSize, si_salt1 := salt1, si_salt2 := salt2\<rparr> in
                     (case detectFullCheckpoint fuel st
                             [(salt1, salt2), (hWALSalt1 (lheader dec), hWALSalt2 (lheader dec))] of
                        Done (Inl e) \<Rightarrow> Done (Inl (Wrapf ''detect full checkpoint'' e))
                      | Done (Inr True) \<Rightarrow>
                          Done (Inr (info1\<lparr>si_reason := ''full or restart checkpoint detected, snapshotting''\<rparr>))
                      | Done (Inr False) \<Rightarrow> Done (Inr (info1\<lparr>si_snapshotting := False\<rparr>))
                      | Panicked \<Rightarrow> Panicked | OutOfFuel \<Rightarrow> OutOfFuel)))))"

definition db_verify :: "nat \<Rightarrow> ltx_ops \<Rightarrow> db \<Rightarrow> ((go_error + sync_info) \<times> db) run" where
  "db_verify fuel ops st =
     (let frameSz = int (db_pageSize st) + WALFrameHeaderSize in
      (case db_Pos ops st of
         (Inl e, st1) \<Rightarrow> Done (Inl (Wrapf ''pos'' e), st1)
       | (Inr pos, st1) \<Rightarrow>
           if pos = 0 then Done (Inr (zero_info_sync\<lparr>si_offset := WALHeaderSize\<rparr>), st1)
           else (case map_of (db_l0 st1) (pos, pos) of
              None \<Rightarrow> Done (Inl (NewLTXError ops ''open'' pos pos ErrNotExist), st1)
            | Some (Inl e) \<Rightarrow>
                Done (Inl (NewLTXError ops ''decode'' pos pos (Wrap2 ErrLTXCorrupted e)), st1)
            | Some (Inr dec) \<Rightarrow>
                (let info = zero_info_sync\<lparr>si_offset := hWALOffset (lheader dec) + hWALSize (lheader dec),
                       si_salt1 := hWALSalt1 (lheader dec), si_salt2 := hWALSalt2 (lheader dec)\<rparr> in
                 (case db_wal st1 of
                    None \<Rightarrow> Done (Inl (Wrapf ''open wal file'' ErrNotExist), st1)
                  | Some w \<Rightarrow>
                      if si_offset info > int (length w)
                      then (if syncedToWALEnd st1
                            then (let st2 = st1\<lparr>syncedToWALEnd := False\<rparr> in
                              (case readWALHeader (db_wal st2) of
                                 Inl e \<Rightarrow> Done (Inl (Wrapf ''read wal header after expected truncation'' e), st2)
                               | Inr hdr \<Rightarrow>
                                   Done (Inr (info\<lparr>si_offset := WALHeaderSize, si_salt1 := be32 (drop 16 hdr),
                                     si_salt2 := be32 (drop 20 hdr), si_snapshotting := False\<rparr>), st2)))
                            else Done (Inr (info\<lparr>si_reason := ''wal truncated by another process''\<rparr>), st1))
                      else if si_offset info = int (length w)
                      then Done (Inr (info\<lparr>si_snapshotting := False\<rparr>), st1)
                      else (case verify_header fuel st1 dec frameSz info of
                              Done r \<Rightarrow> Done (r, st1)
                            | Panicked \<Rightarrow> Panicked | OutOfFuel \<Rightarrow> OutOfFuel))))))"

section \<open>Sync\<close>

definition read_full :: "byte list \<Rightarrow> int \<Rightarrow> nat \<Rightarrow> go_error + byte list" where
  "read_full f off n =
     (case file_ReadAt f n off of
        (got, Some e) \<Rightarrow> Inl e
      | (got, None) \<Rightarrow> if length got \<noteq> n then Inl (Errorf ''short read page'') else Inr got)"

text \<open>Encoding a page appends it to the LTX file; \<open>flt OpEncode\<close> is an error of the encoder or of
  the file under it.\<close>

definition encode_page ::
  "(sync_op \<Rightarrow> go_error option) \<Rightarrow> (u32 \<times> byte list) list \<Rightarrow> u32 \<Rightarrow> byte list \<Rightarrow>
     go_error + (u32 \<times> byte list) list" where
  "encode_page flt pages pgno data =
     (case flt OpEncode of
        Some e \<Rightarrow> Inl (Wrapf ''encode ltx frame'' e) | None \<Rightarrow> Inr (pages @ [(pgno, data)]))"

fun writeLTXFromWAL ::
  "(sync_op \<Rightarrow> go_error option) \<Rightarrow> nat \<Rightarrow> byte list \<Rightarrow> page_map \<Rightarrow> u32 list \<Rightarrow>
     (u32 \<times> byte list) list \<Rightarrow> go_error + (u32 \<times> byte list) list" where
  "writeLTXFromWAL flt ps w pageMap [] pages = Inr pages"
| "writeLTXFromWAL flt ps w pageMap (pgno # pgnos) pages =
     bindR (wrapR ''read page'' (read_full w (the (map_of pageMap pgno) + WALFrameHeaderSize) ps))
       (\<lambda>data. bindR (encode_page flt pages pgno data)
          (\<lambda>pages'. writeLTXFromWAL flt ps w pageMap pgnos pages'))"

fun writeLTXFromDB ::
  "(sync_op \<Rightarrow> go_error option) \<Rightarrow> u32 \<Rightarrow> nat \<Rightarrow> byte list \<Rightarrow> byte list \<Rightarrow> page_map \<Rightarrow> u32 list \<Rightarrow>
     (u32 \<times> byte list) list \<Rightarrow> go_error + (u32 \<times> byte list) list" where
  "writeLTXFromDB flt lockPgno ps f w pageMap [] pages = Inr pages"
| "writeLTXFromDB flt lockPgno ps f w pageMap (pgno # pgnos) pages =
     (if pgno = lockPgno then writeLTXFromDB flt lockPgno ps f w pageMap pgnos pages
      else bindR (case map_of pageMap pgno of
             Some offset \<Rightarrow> wrapR ''read page'' (read_full w (offset + WALFrameHeaderSize) ps)
           | None \<Rightarrow> wrapR ''read database page'' (read_full f (int (unat pgno - 1) * int ps) ps))
         (\<lambda>data. bindR (encode_page flt pages pgno data)
            (\<lambda>pages'. writeLTXFromDB flt lockPgno ps f w pageMap pgnos pages')))"

text \<open>The page numbers a snapshot visits: from 1 to the size of the database, which SQLite keeps below
  \<open>2 ^ 32 - 1\<close> (there the loop's 32-bit counter would wrap before it passes the bound).\<close>

definition pgnos_upto :: "u32 \<Rightarrow> u32 list" where
  "pgnos_upto commit = map word_of_nat [1 ..< unat commit + 1]"

text \<open>The reader \<open>sync\<close> works with, and the offset it continues from: a mismatch of the previous
  frame restarts at the beginning of the WAL.\<close>

definition sync_reader ::
  "byte list \<Rightarrow> sync_info \<Rightarrow> (go_error + wal_reader \<times> sync_info) run" where
  "sync_reader w info =
     (if si_offset info = WALHeaderSize
      then Done (case NewWALReader (file_ReadAt w) of
                   Inl e \<Rightarrow> Inl (Wrapf ''new wal reader'' e) | Inr rd \<Rightarrow> Inr (rd, info))
      else (case NewWALReaderWithOffset (file_ReadAt w) (si_offset info) (si_salt1 info) (si_salt2 info) of
         Done (Inl (PrevFrameMismatch e)) \<Rightarrow>
           Done (case NewWALReader (file_ReadAt w) of
                   Inl e \<Rightarrow> Inl (Errorf ''new wal reader, after reset'')
                 | Inr rd \<Rightarrow> Inr (rd, info\<lparr>si_offset := WALHeaderSize\<rparr>))
       | Done (Inl e) \<Rightarrow> Done (Inl (Wrapf ''new wal reader with offset'' e))
       | Done (Inr rd) \<Rightarrow> Done (Inr (rd, info))
       | Panicked \<Rightarrow> Panicked | OutOfFuel \<Rightarrow> OutOfFuel))"

text \<open>Writing the temporary file and renaming it: the directory changes with the rename only.\<close>

definition publish_ltx ::
  "(sync_op \<Rightarrow> go_error option) \<Rightarrow> ltx_ops \<Rightarrow> go_time \<Rightarrow> ltx_file \<Rightarrow> int \<Rightarrow> db \<Rightarrow>
     (go_error + bool) \<times> db" where
  "publish_ltx flt ops now f finalOffset st =
     (let txID = hMinTXID (lheader f) in
      (case flt OpEncode of Some e \<Rightarrow> (Inl (Wrapf ''close ltx encoder'' e), st) | None \<Rightarrow>
      (case flt OpFsync of Some e \<Rightarrow> (Inl (Wrapf ''sync ltx file'' e), st) | None \<Rightarrow>
      (case flt OpClose of Some e \<Rightarrow> (Inl (Wrapf ''close ltx file'' e), st) | None \<Rightarrow>
      (case flt OpRename of
         Some e \<Rightarrow> (Inl (Wrapf ''rename ltx file'' e), st\<lparr>l0_cache := None, db_pos := None\<rparr>)
       | None \<Rightarrow>
          (Inr True, st\<lparr>db_l0 := AList.update (txID, txID) (Inr f) (db_l0 st),
             l0_cache := Some \<lparr>Level = 0, MinTXID = txID, MaxTXID = txID, Size = EncodedSize ops f,
               CreatedAt = now\<rparr>,
             db_pos := Some txID,
             lastSyncedWALOffset := finalOffset,
             syncedToWALEnd := (finalOffset = walFileSize st)\<rparr>))))))"

definition db_sync ::
  "nat \<Rightarrow> (sync_op \<Rightarrow> go_error option) \<Rightarrow> ltx_ops \<Rightarrow> go_time \<Rightarrow> sync_info \<Rightarrow> db \<Rightarrow>
     ((go_error + bool) \<times> db) run" where
  "db_sync fuel flt ops now info0 st0 =
     (case db_Pos ops st0 of
        (Inl e, st) \<Rightarrow> Done (Inl (Wrapf ''pos'' e), st)
      | (Inr pos, st) \<Rightarrow>
          (let txID = pos + 1; ps = db_pageSize st in
           (case flt OpStatDb of Some e \<Rightarrow> Done (Inl e, st) | None \<Rightarrow>
           if ps = 0 then Panicked else
           (let dbCommit = (word_of_nat (length (db_file st) div ps) :: u32) in
           (case db_wal st of None \<Rightarrow> Done (Inl ErrNotExist, st) | Some w \<Rightarrow>
           (case sync_reader w info0 of
              Panicked \<Rightarrow> Panicked | OutOfFuel \<Rightarrow> OutOfFuel
            | Done (Inl e) \<Rightarrow> Done (Inl e, st)
            | Done (Inr (rd, info)) \<Rightarrow>
           (case PageMap fuel (file_ReadAt w) rd of
              Panicked \<Rightarrow> Panicked | OutOfFuel \<Rightarrow> OutOfFuel
            | Done (Inl e, _) \<Rightarrow> Done (Inl (Wrapf ''page map'' e), st)
            | Done (Inr (pageMap, maxOffset, walCommit), _) \<Rightarrow>
               (let commit = (if walCommit > 0 then walCommit else dbCommit);
                    sz = (if maxOffset > 0 then maxOffset - si_offset info else 0)
                in if sz < 0 then Panicked
                   else if \<not> si_snapshotting info \<and> sz = 0 then Done (Inr False, st)
                   else (case flt OpMkdir of Some e \<Rightarrow> Done (Inl e, st) | None \<Rightarrow>
                   (case flt OpCreateTmp of Some e \<Rightarrow> Done (Inl (Wrapf ''open temp ltx file'' e), st) | None \<Rightarrow>
                   (case (if si_snapshotting info
                          then wrapR ''write ltx from db'' (writeLTXFromDB flt (LockPgno ops (word_of_nat ps)) ps
                                 (db_file st) w pageMap (pgnos_upto commit) [])
                          else wrapR ''write ltx from wal'' (writeLTXFromWAL flt ps w pageMap
                                 (sort (map fst pageMap)) [])) of
                      Inl e \<Rightarrow> Done (Inl e, st)
                    | Inr pages \<Rightarrow>
                        Done (publish_ltx flt ops now
                          \<lparr>lheader = \<lparr>hPageSize = word_of_nat ps, hCommit = commit, hMinTXID = txID,
                             hMaxTXID = txID, hTimestamp = now, hWALOffset = si_offset info, hWALSize = sz,
                             hWALSalt1 = salt1 rd, hWALSalt2 = salt2 rd\<rparr>,
                           lpages = pages, lpages_err = None\<rparr>
                          (si_offset info + sz) st))))))))))))"

definition verifyAndSync ::
  "nat \<Rightarrow> (sync_op \<Rightarrow> go_error option) \<Rightarrow> ltx_ops \<Rightarrow> go_time \<Rightarrow> db \<Rightarrow>
     ((go_error + int \<times> int \<times> bool) \<times> db) run" where
  "verifyAndSync fuel flt ops now st =
     (let origWALSize = (if lastSyncedWALOffset st = 0 then walFileSize st else lastSyncedWALOffset st) in
      (case db_verify fuel ops st of
         Panicked \<Rightarrow> Panicked | OutOfFuel \<Rightarrow> OutOfFuel
       | Done (Inl e, st1) \<Rightarrow> Done (Inl (Wrapf ''cannot verify wal state'' e), st1)
       | Done (Inr info, st1) \<Rightarrow>
           (case db_sync fuel flt ops now info st1 of
              Panicked \<Rightarrow> Panicked | OutOfFuel \<Rightarrow> OutOfFuel
            | Done (Inl e, st2) \<Rightarrow> Done (Inl (Wrapf ''sync'' e), st2)
            | Done (Inr synced, st2) \<Rightarrow>
                Done (Inr (origWALSize, lastSyncedWALOffset st2, synced), st2))))"

section \<open>Checkpoints\<close>

text \<open>What the sync loop asks of SQLite: the checkpoint pragma, the write to \<open>_litestream_seq\<close>, the
  transaction that takes the write lock, its rollback, and giving up and taking the read lock. They
  act on the database and WAL files.\<close>

record sqlite =
  sql_checkpoint :: "string \<Rightarrow> db \<Rightarrow> go_error option \<times> db"
  sql_seq :: "db \<Rightarrow> go_error option \<times> db"
  sql_begin :: "db \<Rightarrow> go_error option"
  sql_lock :: "db \<Rightarrow> go_error option"
  sql_rollback :: "db \<Rightarrow> go_error option"
  sql_release :: "db \<Rightarrow> go_error option"
  sql_acquire :: "db \<Rightarrow> go_error option"

definition execCheckpoint :: "sqlite \<Rightarrow> string \<Rightarrow> db \<Rightarrow> go_error option \<times> db" where
  "execCheckpoint sql mode st =
     (case sql_release sql st of
        Some e \<Rightarrow> (Some (Wrapf ''release read lock'' e), st)
      | None \<Rightarrow>
          (case sql_checkpoint sql mode st of
             (Some e, st') \<Rightarrow> (Some e, st')
           | (None, st') \<Rightarrow>
               (case sql_acquire sql st' of
                  Some e \<Rightarrow> (Some (Wrapf ''reacquire read lock'' e), st') | None \<Rightarrow> (None, st'))))"

text \<open>After the checkpoint: leave if the WAL was not restarted, otherwise copy what came after it
  under the write lock.\<close>

definition after_checkpoint ::
  "nat \<Rightarrow> (sync_op \<Rightarrow> go_error option) \<Rightarrow> ltx_ops \<Rightarrow> sqlite \<Rightarrow> go_time \<Rightarrow> byte list \<Rightarrow> db \<Rightarrow>
     (go_error option \<times> db) run" where
  "after_checkpoint fuel flt ops sql now hdr st =
     (case readWALHeader (db_wal st) of
        Inl e \<Rightarrow> Done (Some e, st)
      | Inr other \<Rightarrow>
          if hdr = other then Done (None, st\<lparr>syncedSinceCheckpoint := False\<rparr>)
          else (case sql_begin sql st of Some e \<Rightarrow> Done (Some (Wrapf ''begin'' e), st) | None \<Rightarrow>
          (case sql_lock sql st of Some e \<Rightarrow> Done (Some (Wrapf ''_litestream_lock'' e), st) | None \<Rightarrow>
          (case verifyAndSync fuel flt ops now st of
             Panicked \<Rightarrow> Panicked | OutOfFuel \<Rightarrow> OutOfFuel
           | Done (Inl e, st') \<Rightarrow> Done (Some (Wrapf ''cannot copy wal after checkpoint'' e), st')
           | Done (Inr _, st') \<Rightarrow>
               (case sql_rollback sql st' of
                  Some e \<Rightarrow> Done (Some (Wrapf ''rollback post-checkpoint tx'' e), st')
                | None \<Rightarrow> Done (None, st'\<lparr>syncedSinceCheckpoint := False\<rparr>))))))"

text \<open>\<open>chkMuFree\<close> is the outcome of \<open>TryLock\<close>; a snapshot holds the lock.\<close>

definition db_checkpoint ::
  "nat \<Rightarrow> (sync_op \<Rightarrow> go_error option) \<Rightarrow> ltx_ops \<Rightarrow> sqlite \<Rightarrow> go_time \<Rightarrow> bool \<Rightarrow> string \<Rightarrow> db \<Rightarrow>
     (go_error option \<times> db) run" where
  "db_checkpoint fuel flt ops sql now chkMuFree mode st =
     (if \<not> chkMuFree then Done (None, st)
      else (case readWALHeader (db_wal st) of
        Inl e \<Rightarrow> Done (Some e, st)
      | Inr hdr \<Rightarrow>
          (case verifyAndSync fuel flt ops now st of
             Panicked \<Rightarrow> Panicked | OutOfFuel \<Rightarrow> OutOfFuel
           | Done (Inl e, st1) \<Rightarrow> Done (Some (Wrapf ''cannot copy wal before checkpoint'' e), st1)
           | Done (Inr _, st1) \<Rightarrow>
               (case execCheckpoint sql mode st1 of
                  (Some e, st2) \<Rightarrow> Done (Some e, st2)
                | (None, st2) \<Rightarrow>
                    (case sql_seq sql st2 of
                       (Some e, st3) \<Rightarrow> Done (Some e, st3)
                     | (None, st3) \<Rightarrow> after_checkpoint fuel flt ops sql now hdr st3)))))"

record checkpoint_config =
  TruncatePageN :: int
  MinCheckpointPageN :: int
  CheckpointInterval :: int

text \<open>The mode the thresholds ask for, in the code's order of priority. \<open>mtime\<close> is the modification
  time of the database file, or the error of its \<open>Stat\<close>; the page counts are converted to
  \<open>uint32\<close>.\<close>

definition checkpoint_mode ::
  "checkpoint_config \<Rightarrow> go_time \<Rightarrow> go_error + go_time \<Rightarrow> int \<Rightarrow> int \<Rightarrow> db \<Rightarrow> go_error + string option" where
  "checkpoint_mode cfg now mtime origWALSize newWALSize st =
     (let ps = (word_of_nat (db_pageSize st) :: u32) in
      if db_pageSize st = 0 then Inr None
      else if TruncatePageN cfg > 0 \<and> origWALSize \<ge> calcWALSize ps (word_of_int (TruncatePageN cfg))
      then Inr (Some ''TRUNCATE'')
      else if newWALSize \<ge> calcWALSize ps (word_of_int (MinCheckpointPageN cfg)) then Inr (Some ''PASSIVE'')
      else if CheckpointInterval cfg > 0 \<and> syncedSinceCheckpoint st
      then (case mtime of
              Inl e \<Rightarrow> Inl (Wrapf ''stat database'' e)
            | Inr t \<Rightarrow> if now - t > CheckpointInterval cfg \<and> newWALSize > calcWALSize ps 1
                       then Inr (Some ''PASSIVE'') else Inr None)
      else Inr None)"

text \<open>A busy database is not an error of a passive checkpoint. \<open>isSQLiteBusyError\<close> looks into the
  message of the error.\<close>

definition checkpointIfNeeded ::
  "nat \<Rightarrow> (sync_op \<Rightarrow> go_error option) \<Rightarrow> ltx_ops \<Rightarrow> sqlite \<Rightarrow> (go_error \<Rightarrow> bool) \<Rightarrow> checkpoint_config \<Rightarrow>
     go_time \<Rightarrow> go_error + go_time \<Rightarrow> bool \<Rightarrow> int \<Rightarrow> int \<Rightarrow> db \<Rightarrow> (go_error option \<times> db) run" where
  "checkpointIfNeeded fuel flt ops sql isSQLiteBusyError cfg now mtime chkMuFree origWALSize newWALSize st =
     (case checkpoint_mode cfg now mtime origWALSize newWALSize st of
        Inl e \<Rightarrow> Done (Some e, st)
      | Inr None \<Rightarrow> Done (None, st)
      | Inr (Some mode) \<Rightarrow>
          (case db_checkpoint fuel flt ops sql now chkMuFree mode st of
             Done (Some e, st') \<Rightarrow>
               if mode = ''PASSIVE'' \<and> isSQLiteBusyError e then Done (None, st') else Done (Some e, st')
           | r \<Rightarrow> r))"

text \<open>\<open>Sync\<close> on an initialised database: make sure the WAL has a header, copy, checkpoint.\<close>

definition ensureWALExists :: "sqlite \<Rightarrow> db \<Rightarrow> go_error option \<times> db" where
  "ensureWALExists sql st =
     (case db_wal st of
        Some w \<Rightarrow> if int (length w) \<ge> WALHeaderSize then (None, st) else sql_seq sql st
      | None \<Rightarrow> sql_seq sql st)"

definition db_Sync ::
  "nat \<Rightarrow> (sync_op \<Rightarrow> go_error option) \<Rightarrow> ltx_ops \<Rightarrow> sqlite \<Rightarrow> (go_error \<Rightarrow> bool) \<Rightarrow> checkpoint_config \<Rightarrow>
     go_time \<Rightarrow> go_error + go_time \<Rightarrow> bool \<Rightarrow> db \<Rightarrow> (go_error option \<times> db) run" where
  "db_Sync fuel flt ops sql isSQLiteBusyError cfg now mtime chkMuFree st =
     (case ensureWALExists sql st of
        (Some e, st1) \<Rightarrow> Done (Some (Wrapf ''ensure wal exists'' e), st1)
      | (None, st1) \<Rightarrow>
          (case verifyAndSync fuel flt ops now st1 of
             Panicked \<Rightarrow> Panicked | OutOfFuel \<Rightarrow> OutOfFuel
           | Done (Inl e, st2) \<Rightarrow> Done (Some e, st2)
           | Done (Inr (origWALSize, newWALSize, synced), st2) \<Rightarrow>
               (let st3 = (if synced then st2\<lparr>syncedSinceCheckpoint := True\<rparr> else st2) in
                (case checkpointIfNeeded fuel flt ops sql isSQLiteBusyError cfg now mtime chkMuFree
                        origWALSize newWALSize st3 of
                   Panicked \<Rightarrow> Panicked | OutOfFuel \<Rightarrow> OutOfFuel
                 | Done (Some e, st4) \<Rightarrow> Done (Some (Wrapf ''checkpoint'' e), st4)
                 | Done (None, st4) \<Rightarrow>
                     (case db_Pos ops st4 of
                        (Inl e, st5) \<Rightarrow> Done (Some (Wrapf ''pos'' e), st5)
                      | (Inr _, st5) \<Rightarrow> Done (None, st5))))))"

section \<open>Laws\<close>

lemma db_Pos_idem:
  assumes "db_Pos ops st0 = (Inr pos, st)"
  shows "db_Pos ops st = (Inr pos, st)" "db_wal st = db_wal st0" "db_file st = db_file st0"
    "db_pageSize st = db_pageSize st0" "db_l0 st = db_l0 st0"
  using assms by (auto simp: db_Pos_def split: option.splits prod.splits sum.splits if_splits)

end
