(* ===== verification/Sync_Refine.thy ===== *)
theory Sync_Refine
  imports Wal_Sync
begin

text \<open>
  What a sync owes the restorer, stated on database images. \<open>frames_image\<close> is the database a WAL's
  committed frames produce over a base image, \<open>apply_ltx\<close> the database after an LTX file is applied.
  On a WAL that continues where the last LTX file ended, a sync writes the LTX file that takes the
  image of the old frames to the image of all frames; a snapshot writes the whole image; and the
  early exit on an unchanged length accepts a WAL it has not looked at.
\<close>

section \<open>Images\<close>

type_synonym image = "u32 \<times> (u32 \<Rightarrow> byte list)"

fun page_data :: "frame list \<Rightarrow> u32 \<Rightarrow> byte list option" where
  "page_data [] p = None"
| "page_data (f # fs) p =
     (case page_data fs p of
        Some d \<Rightarrow> Some d | None \<Rightarrow> if fst f = p then Some (snd (snd f)) else None)"

definition frames_image :: "image \<Rightarrow> frame list \<Rightarrow> image" where
  "frames_image base fs =
     (last_commit (fst base) fs,
      \<lambda>p. case page_data (committed fs) p of Some d \<Rightarrow> d | None \<Rightarrow> snd base p)"

definition apply_ltx :: "image \<Rightarrow> ltx_file \<Rightarrow> image" where
  "apply_ltx img f =
     (hCommit (lheader f), \<lambda>p. case map_of (lpages f) p of Some d \<Rightarrow> d | None \<Rightarrow> snd img p)"

definition same_image :: "image \<Rightarrow> image \<Rightarrow> bool" where
  "same_image a b \<longleftrightarrow> fst a = fst b \<and> (\<forall>p \<le> fst a. snd a p = snd b p)"

section \<open>Committed frames\<close>

lemma committed_prefix: "\<exists>us. gs = committed gs @ us"
proof (induction gs)
  case (Cons f gs)
  then obtain us where us: "gs = committed gs @ us" by blast
  show ?case
  proof (cases "committed gs \<noteq> [] \<or> fst (snd f) \<noteq> 0")
    case True
    then have "f # gs = committed (f # gs) @ us" using us by simp
    then show ?thesis by blast
  qed simp
qed simp

lemma committed_append:
  "committed fs = fs \<Longrightarrow> committed (fs @ gs) = fs @ committed gs"
proof (induction fs)
  case (Cons f fs)
  show ?case
  proof (cases "committed fs = []")
    case True
    then have n: "fst (snd f) \<noteq> 0" "fs = []" using Cons.prems by (auto split: if_splits)
    then show ?thesis by simp
  next
    case False
    then have "committed fs = fs" using Cons.prems by (auto split: if_splits)
    then show ?thesis using Cons.IH False by simp
  qed
qed simp

lemma last_commit_append:
  "committed fs = fs \<Longrightarrow> committed gs \<noteq> [] \<Longrightarrow> last_commit n (fs @ gs) = last_commit 0 gs"
  by (simp add: last_commit_def committed_append)

lemma page_data_append:
  "page_data (fs @ gs) p = (case page_data gs p of Some d \<Rightarrow> Some d | None \<Rightarrow> page_data fs p)"
  by (induction fs) (auto split: option.splits)

lemma page_data_latest: "page_data fs p = None \<longleftrightarrow> latest pz k fs p = None"
  by (induction fs arbitrary: k) (auto split: option.splits)

text \<open>Reading the WAL at an offset of the page map yields the page's last committed data.\<close>

lemma read_latest:
  assumes "frames_ok pz fs" "latest pz k fs p = Some off" "length pre = frame_off pz k"
  shows "\<exists>d. page_data fs p = Some d \<and> length d = unat pz \<and>
    read_full (pre @ encode_frames od s1 s2 c fs @ rest) (off + WALFrameHeaderSize) (unat pz) = Inr d"
  using assms
proof (induction fs arbitrary: k c pre)
  case (Cons f fs)
  obtain pgno cm data where f: "f = (pgno, cm, data)" by (cases f)
  have l: "length data = unat pz" "frames_ok pz fs" using Cons.prems(1) by (simp_all add: frames_ok_def f)
  show ?case
  proof (cases "latest pz (Suc k) fs p")
    case (Some off')
    then have off: "off' = off" using Cons.prems(2) by simp
    have "length (pre @ encode_frame od s1 s2 c f) = frame_off pz (Suc k)"
      using Cons.prems(3) l(1) by (simp add: f length_encode_frame frame_off_def)
    from Cons.IH [OF l(2) Some [unfolded off] this, of "frame_sum od c f"]
    show ?thesis by (auto simp: f)
  next
    case None
    then have p: "pgno = p" "off = int (frame_off pz k)"
      using Cons.prems(2) by (auto simp: f split: if_splits)
    let ?b = "encode_frame od s1 s2 c (pgno, cm, data)"
      and ?r = "encode_frames od s1 s2 (frame_sum od c f) fs @ rest"
    have "sub (length pre + 24) (unat pz) (pre @ ?b @ ?r) = sub 24 (unat pz) (?b @ ?r)"
      by (simp add: sub_append_right)
    also have "\<dots> = data" by (rule encode_frame_fields(7) [OF l(1)])
    finally have s: "sub (length pre + 24) (unat pz) (pre @ ?b @ ?r) = data" .
    have n: "nat (off + WALFrameHeaderSize) = length pre + 24"
      by (simp add: p Cons.prems(3) WALFrameHeaderSize_def nat_add_distrib)
    have "\<not> off + WALFrameHeaderSize < 0" by (simp add: p WALFrameHeaderSize_def)
    then have "read_full (pre @ ?b @ ?r) (off + WALFrameHeaderSize) (unat pz) = Inr data"
      by (simp add: read_full_def file_ReadAt_def n s l(1) Let_def)
    moreover have "page_data fs p = None" using None page_data_latest by blast
    ultimately show ?thesis using p(1) l(1) by (simp add: f)
  qed
qed simp

lemma read_latest_committed:
  assumes "frames_ok pz gs" "latest pz k (committed gs) p = Some off" "length pre = frame_off pz k"
  shows "\<exists>d. page_data (committed gs) p = Some d \<and> length d = unat pz \<and>
    read_full (pre @ encode_frames od s1 s2 c gs @ rest) (off + WALFrameHeaderSize) (unat pz) = Inr d"
proof -
  obtain us where us: "gs = committed gs @ us" using committed_prefix by blast
  have ok: "frames_ok pz (committed gs)" using assms(1) us unfolding frames_ok_def by (metis list_all_append)
  have "encode_frames od s1 s2 c gs @ rest = encode_frames od s1 s2 c (committed gs) @
      encode_frames od s1 s2 (chain od c (committed gs)) us @ rest"
    by (subst us) (simp add: encode_frames_append)
  with read_latest [OF ok assms(2,3)] show ?thesis by metis
qed

section \<open>Writing the pages\<close>

lemma writeLTXFromWAL_pages:
  assumes "writeLTXFromWAL flt ps w pm pgnos acc = Inr pages"
    and "\<forall>p \<in> set pgnos. read_full w (the (map_of pm p) + WALFrameHeaderSize) ps = Inr (d p)"
  shows "pages = acc @ map (\<lambda>p. (p, d p)) pgnos"
  using assms
proof (induction pgnos arbitrary: acc)
  case (Cons p pgnos)
  then show ?case
    using Cons.IH [of "acc @ [(p, d p)]"]
    by (auto simp: bindR_Inr_iff encode_page_def split: option.splits)
qed simp

lemma map_of_pairs: "map_of (map (\<lambda>p. (p, d p)) ps) q = (if q \<in> set ps then Some (d q) else None)"
  by (induction ps) auto

section \<open>An incremental sync\<close>

lemma latest_ge: "latest pz k fs p = Some off \<Longrightarrow> int (frame_off pz k) \<le> off"
proof (induction fs arbitrary: k)
  case (Cons f fs)
  have "frame_off pz k \<le> frame_off pz (Suc k)" by (simp add: frame_off_def)
  then show ?case using Cons by (fastforce split: option.splits if_splits)
qed simp

lemma committed_last: "committed gs \<noteq> [] \<Longrightarrow> fst (snd (last (committed gs))) \<noteq> 0"
  by (induction gs) (auto split: if_splits)

lemma page_data_Some: "f \<in> set fs \<Longrightarrow> page_data fs (fst f) \<noteq> None"
  by (induction fs) (auto split: option.splits)

text \<open>The WAL of the theorems: the frames \<open>fs\<close> that were synced, ending with a commit, the frames
  \<open>gs\<close> after them and a tail no reader accepts. A transaction that changes the database writes a
  page of the database it leaves.\<close>

definition wal_ok ::
  "byte_order \<Rightarrow> u32 \<Rightarrow> u32 \<Rightarrow> u32 \<Rightarrow> u32 \<Rightarrow> frame list \<Rightarrow> frame list \<Rightarrow> byte list \<Rightarrow> bool" where
  "wal_ok od pz sq s1 s2 fs gs tail \<longleftrightarrow>
     good_page_size pz \<and> frames_ok pz fs \<and> frames_ok pz gs \<and> committed fs = fs \<and>
     frame_rejected od s1 s2 (chain od (header_sum od pz sq s1 s2) (fs @ gs)) pz tail \<and>
     (committed gs = [] \<or> list_ex (\<lambda>f. fst f \<le> last_commit 0 gs) (committed gs))"

text \<open>The page map a sync works with, resumed after \<open>fs\<close> or from the start of the WAL.\<close>

lemma page_map_data:
  assumes "frames_ok pz gs" "page_map_ok pz k gs (m, end, cm)" "length pre = frame_off pz k"
    and "w = pre @ encode_frames od s1 s2 c gs @ rest" "p \<in> fst ` set m"
  shows "p \<le> last_commit 0 gs" "\<exists>d. page_data (committed gs) p = Some d \<and> length d = unat pz \<and>
    read_full w (the (map_of m p) + WALFrameHeaderSize) (unat pz) = Inr d"
proof -
  have q: "map_of m p = (if p \<le> last_commit 0 gs then latest pz k (committed gs) p else None)"
    using assms(2) by (simp add: page_map_ok_def)
  obtain off where off: "map_of m p = Some off" using assms(5) by (metis map_of_eq_None_iff not_Some_eq)
  show "p \<le> last_commit 0 gs" using q off by (auto split: if_splits)
  then have "latest pz k (committed gs) p = Some off" using q off by simp
  from read_latest_committed [OF assms(1) this assms(3)] off assms(4)
  show "\<exists>d. page_data (committed gs) p = Some d \<and> length d = unat pz \<and>
    read_full w (the (map_of m p) + WALFrameHeaderSize) (unat pz) = Inr d" by simp
qed

lemma page_map_empty:
  assumes "page_map_ok pz k gs (m, end, cm)"
    and "committed gs = [] \<or> list_ex (\<lambda>f. fst f \<le> last_commit 0 gs) (committed gs)"
  shows "m = [] \<longleftrightarrow> committed gs = []"
proof -
  have q: "map_of m p = (if p \<le> last_commit 0 gs then latest pz k (committed gs) p else None)" for p
    using assms(1) by (simp add: page_map_ok_def)
  show ?thesis
  proof
    assume "m = []"
    then have "latest pz k (committed gs) p = None" if "p \<le> last_commit 0 gs" for p
      using q [of p] that by simp
    then have "page_data (committed gs) p = None" if "p \<le> last_commit 0 gs" for p
      using that page_data_latest by blast
    then show "committed gs = []"
      using assms(2) page_data_Some by (fastforce simp: list_ex_iff)
  next
    assume "committed gs = []"
    then have "map_of m p = None" for p using q [of p] by simp
    then show "m = []" by (cases m) (auto split: if_splits, metis map_of_Cons_code(2) option.distinct(1))
  qed
qed

lemma page_map_end:
  assumes "page_map_ok pz k gs (m, end, cm)" "m \<noteq> []"
  shows "int (frame_off pz k) + 24 \<le> end" "cm = last_commit 0 gs"
proof -
  have d: "distinct (map fst m)" and e: "end = Max (snd ` set m) + 24 + uint pz" "cm = last_commit 0 gs"
    using assms by (simp_all add: page_map_ok_def)
  obtain x where x: "x \<in> set m" using assms(2) by (cases m) auto
  have "map_of m (fst x) = Some (snd x)" using d x by (simp add: map_of_is_SomeI)
  then have "latest pz k (committed gs) (fst x) = Some (snd x)"
    using assms(1) by (auto simp: page_map_ok_def split: if_splits)
  then have "int (frame_off pz k) \<le> snd x" by (rule latest_ge)
  also have "\<dots> \<le> Max (snd ` set m)" using x by simp
  finally have "int (frame_off pz k) \<le> Max (snd ` set m)" .
  moreover have "0 \<le> uint pz" by simp
  ultimately show "int (frame_off pz k) + 24 \<le> end" using e(1) by linarith
  show "cm = last_commit 0 gs" by (rule e(2))
qed

text \<open>The image an LTX file with the pages of the map leads to.\<close>

lemma apply_wal_pages:
  assumes "\<forall>p. (p \<in> set ps) = (p \<le> last_commit 0 gs \<and> page_data (committed gs) p \<noteq> None)"
    and "\<forall>p \<in> set ps. page_data (committed gs) p = Some (d p)"
    and "lpages f = map (\<lambda>p. (p, d p)) ps" "hCommit (lheader f) = last_commit 0 gs"
    and "committed fs = fs" "committed gs \<noteq> []"
  shows "same_image (apply_ltx (frames_image base fs) f) (frames_image base (fs @ gs))"
proof -
  have "snd (apply_ltx (frames_image base fs) f) p = snd (frames_image base (fs @ gs)) p"
    if "p \<le> last_commit 0 gs" for p
  proof (cases "p \<in> set ps")
    case True
    then have "page_data (committed gs) p = Some (d p)" using assms(2) by blast
    with True show ?thesis
      by (simp add: apply_ltx_def frames_image_def assms(3,5) map_of_pairs committed_append page_data_append)
  next
    case False
    then have "page_data (committed gs) p = None" using that assms(1) by auto
    with False show ?thesis
      by (simp add: apply_ltx_def frames_image_def assms(3,5) map_of_pairs committed_append page_data_append)
  qed
  then show ?thesis
    using assms(4-6)
    by (simp add: same_image_def apply_ltx_def frames_image_def last_commit_append)
qed

lemma publish_ltx_Inr:
  assumes "publish_ltx flt ops now f off st = (Inr b, st')"
  shows "b" "db_l0 st' = AList.update (hMinTXID (lheader f), hMinTXID (lheader f)) (Inr f) (db_l0 st)"
    "db_pos st' = Some (hMinTXID (lheader f))" "lastSyncedWALOffset st' = off"
    "syncedToWALEnd st' \<longleftrightarrow> off = walFileSize st"
  using assms by (auto simp: publish_ltx_def Let_def split: option.splits)

lemma resumed_reader:
  assumes w: "wal_ok od pz sq s1 s2 fs gs tail" "fs \<noteq> []"
    and info: "si_offset info = int (frame_off pz (length fs))" "si_salt1 info = s1" "si_salt2 info = s2"
    and fuel: "length gs < fuel"
  obtains r m e cm r' where
    "sync_reader (encode_wal od pz sq s1 s2 (fs @ gs) @ tail) info = Done (Inr (r, info))"
    "salt1 r = s1" "salt2 r = s2"
    "PageMap fuel (file_ReadAt (encode_wal od pz sq s1 s2 (fs @ gs) @ tail)) r = Done (Inr (m, e, cm), r')"
    "page_map_ok pz (length fs) gs (m, e, cm)"
    "m = [] \<longleftrightarrow> committed gs = []"
    "\<forall>p \<in> fst ` set m. page_data (committed gs) p \<noteq> None \<and>
       read_full (encode_wal od pz sq s1 s2 (fs @ gs) @ tail) (the (map_of m p) + WALFrameHeaderSize)
         (unat pz) = Inr (the (page_data (committed gs) p))"
proof -
  have g: "good_page_size pz" "frames_ok pz fs" "frames_ok pz gs"
    "frame_rejected od s1 s2 (chain od (header_sum od pz sq s1 s2) (fs @ gs)) pz tail"
    "committed gs = [] \<or> list_ex (\<lambda>f. fst f \<le> last_commit 0 gs) (committed gs)"
    using w(1) by (simp_all add: wal_ok_def)
  let ?c = "chain od (header_sum od pz sq s1 s2) fs"
  let ?pre = "encode_wal od pz sq s1 s2 fs"
  let ?w = "?pre @ encode_frames od s1 s2 ?c gs @ tail"
  have weq: "encode_wal od pz sq s1 s2 (fs @ gs) @ tail = ?w"
    by (simp add: encode_wal_def encode_frames_append)
  have lpre: "length ?pre = frame_off pz (length fs)"
    using g(2) by (simp add: encode_wal_def length_encode_frames frame_off_def)
  obtain r where r: "NewWALReaderWithOffset (file_ReadAt ?w) (int (frame_off pz (length fs))) s1 s2 = Done (Inr r)"
    "at_frame od pz s1 s2 ?c (length fs) r"
    by (rule NewWALReaderWithOffset_at_frame [OF g(1,2) w(2)])
  have sal: "salt1 r = s1" "salt2 r = s2" using r(2) by (simp_all add: at_frame_def)
  have "32 < frame_off pz (length fs)" using w(2) by (simp add: frame_off_def)
  then have "si_offset info \<noteq> WALHeaderSize" by (simp add: info WALHeaderSize_def)
  then have rd: "sync_reader ?w info = Done (Inr (r, info))"
    using r(1) info by (simp add: sync_reader_def)
  obtain m e cm r' where pm: "PageMap fuel (file_ReadAt ?w) r = Done (Inr (m, e, cm), r')"
    "page_map_ok pz (length fs) gs (m, e, cm)"
    using PageMap_at_frame [OF g(1,3) r(2) lpre g(4) [unfolded chain_append] fuel]
    by (metis prod_cases3)
  show thesis
    using that [unfolded weq, OF rd sal pm page_map_empty [OF pm(2) g(5)]]
      page_map_data(2) [OF g(3) pm(2) lpre refl] by fastforce
qed

lemma sync_resumed:
  assumes w: "wal_ok od pz sq s1 s2 fs gs tail" "fs \<noteq> []"
    and st: "db_pageSize st0 = unat pz" "db_wal st0 = Some (encode_wal od pz sq s1 s2 (fs @ gs) @ tail)"
    and info: "si_offset info = int (frame_off pz (length fs))" "si_salt1 info = s1" "si_salt2 info = s2"
      "\<not> si_snapshotting info"
    and fuel: "length gs < fuel"
    and run: "db_sync fuel flt ops now info st0 = Done (Inr synced, st')"
  shows "\<exists>pos st. db_Pos ops st0 = (Inr pos, st) \<and>
    (if committed gs = [] then \<not> synced \<and> st' = st
     else synced \<and> (\<exists>f. map_of (db_l0 st') (pos + 1, pos + 1) = Some (Inr f) \<and>
       hMinTXID (lheader f) = pos + 1 \<and> hMaxTXID (lheader f) = pos + 1 \<and>
       hWALOffset (lheader f) = si_offset info \<and> 0 < hWALSize (lheader f) \<and>
       hWALSalt1 (lheader f) = s1 \<and> hWALSalt2 (lheader f) = s2 \<and>
       lastSyncedWALOffset st' = hWALOffset (lheader f) + hWALSize (lheader f) \<and>
       (\<forall>base. same_image (apply_ltx (frames_image base fs) f) (frames_image base (fs @ gs)))))"
proof -
  let ?w = "encode_wal od pz sq s1 s2 (fs @ gs) @ tail"
  obtain r m e cm r' where rd: "sync_reader ?w info = Done (Inr (r, info))" "salt1 r = s1" "salt2 r = s2"
    and pm: "PageMap fuel (file_ReadAt ?w) r = Done (Inr (m, e, cm), r')"
      "page_map_ok pz (length fs) gs (m, e, cm)" "m = [] \<longleftrightarrow> committed gs = []"
    and rdp: "\<forall>p \<in> fst ` set m. page_data (committed gs) p \<noteq> None \<and>
       read_full ?w (the (map_of m p) + WALFrameHeaderSize) (unat pz) = Inr (the (page_data (committed gs) p))"
    by (rule resumed_reader [OF w info(1-3) fuel])
  obtain pos st where pos: "db_Pos ops st0 = (Inr pos, st)"
    using run by (cases "db_Pos ops st0") (auto simp: db_sync_def split: sum.splits)
  note P = db_Pos_idem [OF pos]
  have wst: "db_wal st = Some ?w" "db_pageSize st = unat pz" using P st by simp_all
  show ?thesis
  proof (cases "m = []")
    case True
    then have "e = 0" "committed gs = []" using pm(2,3) by (simp_all add: page_map_ok_def)
    then have "\<not> synced \<and> st' = st"
      using run info(4) pm(1)
      by (auto simp: db_sync_def pos wst rd Let_def split: option.splits if_splits)
    then show ?thesis using pos \<open>committed gs = []\<close> by auto
  next
    case False
    then have cg: "committed gs \<noteq> []" using pm(3) by simp
    note E = page_map_end [OF pm(2) False]
    have e0: "0 < e" "0 < e - si_offset info" using E(1) by (simp_all add: info)
    have cm: "cm = last_commit 0 gs" "cm > 0"
      using E(2) committed_last [OF cg] cg by (simp_all add: last_commit_def word_gt_0)
    let ?ps = "sort (map fst m)"
    define d where "d p = the (page_data (committed gs) p)" for p
    obtain pages where wr: "writeLTXFromWAL flt (unat pz) ?w m ?ps [] = Inr pages"
      and pub: "publish_ltx flt ops now \<lparr>lheader = \<lparr>hPageSize = word_of_nat (unat pz), hCommit = cm,
          hMinTXID = pos + 1, hMaxTXID = pos + 1, hTimestamp = now, hWALOffset = si_offset info,
          hWALSize = e - si_offset info, hWALSalt1 = s1, hWALSalt2 = s2\<rparr>, lpages = pages,
          lpages_err = None\<rparr> (si_offset info + (e - si_offset info)) st = (Inr synced, st')"
      using run info(4) e0 cm(2)
      by (auto simp: db_sync_def pos wst rd pm(1) Let_def split: option.splits if_splits sum.splits)
    let ?f = "\<lparr>lheader = \<lparr>hPageSize = word_of_nat (unat pz), hCommit = cm,
          hMinTXID = pos + 1, hMaxTXID = pos + 1, hTimestamp = now, hWALOffset = si_offset info,
          hWALSize = e - si_offset info, hWALSalt1 = s1, hWALSalt2 = s2\<rparr>, lpages = pages,
          lpages_err = None\<rparr>"
    have dp: "\<forall>p \<in> set ?ps. page_data (committed gs) p = Some (d p)" using rdp by (auto simp: d_def)
    have pages: "lpages ?f = map (\<lambda>p. (p, d p)) ?ps"
      using writeLTXFromWAL_pages [OF wr, of d] rdp by (simp add: d_def)
    have mem: "p \<in> set ?ps \<longleftrightarrow> p \<le> last_commit 0 gs \<and> page_data (committed gs) p \<noteq> None" for p
    proof -
      have "p \<in> set ?ps \<longleftrightarrow> map_of m p \<noteq> None" by (simp add: map_of_eq_None_iff)
      also have "\<dots> \<longleftrightarrow> p \<le> last_commit 0 gs \<and> latest pz (length fs) (committed gs) p \<noteq> None"
        using pm(2) by (simp add: page_map_ok_def)
      finally show ?thesis unfolding page_data_latest [of _ _ pz "length fs"] .
    qed
    have "same_image (apply_ltx (frames_image base fs) ?f) (frames_image base (fs @ gs))" for base
      by (rule apply_wal_pages [OF _ dp pages _ _ cg]) (use mem cm w(1) in \<open>auto simp: wal_ok_def\<close>)
    then show ?thesis
      using publish_ltx_Inr [OF pub] pos cg e0(2)
      by (intro exI [of _ pos] exI [of _ st]) (auto simp: update_conv)
  qed
qed

text \<open>Without a failing system call the sync returns.\<close>

lemma writeLTXFromWAL_total:
  assumes "flt OpEncode = None"
    and "\<forall>p \<in> set pgnos. read_full w (the (map_of pm p) + WALFrameHeaderSize) ps = Inr (d p)"
  shows "\<exists>pages. writeLTXFromWAL flt ps w pm pgnos acc = Inr pages"
  using assms by (induction pgnos arbitrary: acc) (auto simp: encode_page_def)

lemma sync_resumed_total:
  assumes w: "wal_ok od pz sq s1 s2 fs gs tail" "fs \<noteq> []" "pz \<noteq> 0"
    and st: "db_pageSize st0 = unat pz" "db_wal st0 = Some (encode_wal od pz sq s1 s2 (fs @ gs) @ tail)"
    and info: "si_offset info = int (frame_off pz (length fs))" "si_salt1 info = s1" "si_salt2 info = s2"
      "\<not> si_snapshotting info"
    and fuel: "length gs < fuel" and pos: "db_Pos ops st0 = (Inr pos, st)"
  shows "\<exists>synced st'. db_sync fuel (\<lambda>_. None) ops now info st0 = Done (Inr synced, st')"
proof -
  let ?w = "encode_wal od pz sq s1 s2 (fs @ gs) @ tail"
  obtain r m e cm r' where rd: "sync_reader ?w info = Done (Inr (r, info))"
    and pm: "PageMap fuel (file_ReadAt ?w) r = Done (Inr (m, e, cm), r')"
      "page_map_ok pz (length fs) gs (m, e, cm)"
    and rdp: "\<forall>p \<in> fst ` set m. page_data (committed gs) p \<noteq> None \<and>
       read_full ?w (the (map_of m p) + WALFrameHeaderSize) (unat pz) = Inr (the (page_data (committed gs) p))"
    by (rule resumed_reader [OF w(1,2) info(1-3) fuel])
  note P = db_Pos_idem [OF pos]
  have wst: "db_wal st = Some ?w" "db_pageSize st = unat pz" using P st by simp_all
  have ps: "unat pz \<noteq> 0" using w(3) by (simp add: unat_eq_0)
  have sz: "\<not> (if e > 0 then e - si_offset info else 0) < 0"
  proof (cases "m = []")
    case True
    then show ?thesis using pm(2) by (simp add: page_map_ok_def)
  next
    case False
    then show ?thesis using page_map_end(1) [OF pm(2)] info(1) by simp
  qed
  obtain pages where "writeLTXFromWAL (\<lambda>_. None) (unat pz) ?w m (sort (map fst m)) [] = Inr pages"
    using writeLTXFromWAL_total [of "\<lambda>_. None" "sort (map fst m)" ?w m "unat pz"
        "\<lambda>p. the (page_data (committed gs) p)"] rdp by fastforce
  then show ?thesis
    using info(4) ps sz
    by (auto simp: db_sync_def pos wst rd pm(1) Let_def publish_ltx_def)
qed

section \<open>Verification lets a continued WAL through\<close>

text \<open>The last frame that was synced is found in the LTX file it was written to.\<close>

lemma lastPageMatch_frame:
  assumes g: "good_page_size pz" "frames_ok pz fs" "fs = hs @ [(pgno, cm, data)]" "hs \<noteq> []"
    and st: "db_wal st = Some (encode_wal od pz sq s1 s2 fs @ rest)"
    and dec: "hWALSalt1 (lheader dec) = s1" "hWALSalt2 (lheader dec) = s2" "(pgno, data) \<in> set (lpages dec)"
  shows "lastPageMatch st dec (int (frame_off pz (length hs))) (int (unat pz) + WALFrameHeaderSize) = Inr True"
proof -
  let ?h = "header_sum od pz sq s1 s2"
  define bs where "bs = encode_frame od s1 s2 (chain od ?h hs) (pgno, cm, data) @ rest"
  let ?pre = "encode_header od pz sq s1 s2 @ encode_frames od s1 s2 ?h hs"
  have l: "length data = unat pz" "frames_ok pz hs" using g(2,3) by (simp_all add: frames_ok_def)
  note e = encode_frame_fields [OF l(1), of od s1 s2 "chain od ?h hs" pgno cm rest, folded bs_def]
  have w: "encode_wal od pz sq s1 s2 fs @ rest = ?pre @ bs"
    by (simp add: encode_wal_def g(3) encode_frames_append bs_def)
  have lp: "length ?pre = frame_off pz (length hs)"
    using l(2) by (simp add: length_encode_frames frame_off_def)
  have n: "nat (int (unat pz) + WALFrameHeaderSize) = 24 + unat pz"
    by (simp add: WALFrameHeaderSize_def nat_add_distrib)
  have "sub (frame_off pz (length hs)) (24 + unat pz) (?pre @ bs) = take (24 + unat pz) bs"
    unfolding lp [symmetric] by (simp add: sub_append_right) (simp add: sub_def)
  moreover have "length (take (24 + unat pz) bs) = 24 + unat pz" using e(8) by simp
  ultimately have r: "readWALFileAt (db_wal st) (int (frame_off pz (length hs)))
      (int (unat pz) + WALFrameHeaderSize) = Inr (take (24 + unat pz) bs)"
    unfolding st w readWALFileAt_def option.case n
    by (simp add: file_ReadAt_def Let_def WALFrameHeaderSize_def del: append_assoc length_append)
  have b: "be32 (take (24 + unat pz) bs) = pgno"
    "be32 (drop 8 (take (24 + unat pz) bs)) = s1" "be32 (drop 12 (take (24 + unat pz) bs)) = s2"
    "drop 24 (take (24 + unat pz) bs) = data"
    using e by (simp_all add: drop_take sub_def)
  have "32 < frame_off pz (length hs)" using g(4) by (simp add: frame_off_def)
  then have "\<not> int (frame_off pz (length hs)) \<le> WALHeaderSize" by (simp add: WALHeaderSize_def)
  then show ?thesis
    unfolding lastPageMatch_def r using b dec by (simp add: Let_def)
qed

lemma verify_continues:
  assumes g: "good_page_size pz" "frames_ok pz fs" "fs = hs @ [(pgno, cm, data)]"
    and st: "db_pageSize st0 = unat pz" "db_wal st0 = Some (encode_wal od pz sq s1 s2 fs @ rest)"
    and pos: "db_Pos ops st0 = (Inr pos, st)" "pos \<noteq> 0" "map_of (db_l0 st0) (pos, pos) = Some (Inr dec)"
    and dec: "hWALOffset (lheader dec) + hWALSize (lheader dec) = int (frame_off pz (length fs))"
      "hWALSalt1 (lheader dec) = s1" "hWALSalt2 (lheader dec) = s2"
      "hs = [] \<or> (pgno, data) \<in> set (lpages dec)"
  shows "db_verify fuel ops st0 = Done (Inr \<lparr>si_offset = int (frame_off pz (length fs)), si_salt1 = s1,
      si_salt2 = s2, si_snapshotting = False, si_reason = ''''\<rparr>, st)"
proof -
  let ?w = "encode_wal od pz sq s1 s2 fs @ rest"
  let ?off = "int (frame_off pz (length fs))"
  let ?info = "\<lparr>si_offset = ?off, si_salt1 = s1, si_salt2 = s2, si_snapshotting = True, si_reason = ''''\<rparr>"
  note P = db_Pos_idem [OF pos(1)]
  have lw: "length ?w = frame_off pz (length fs) + length rest"
    using g(2) by (simp add: encode_wal_def length_encode_frames frame_off_def)
  have hd: "readWALHeader (Some ?w) = Inr (encode_header od pz sq s1 s2)"
  proof -
    have "encode_header od pz sq s1 s2 \<noteq> []"
      by (metis length_encode_header list.size(3) zero_neq_numeral)
    then show ?thesis by (simp add: readWALHeader_def encode_wal_def)
  qed
  have s: "be32 (drop 16 (encode_header od pz sq s1 s2)) = s1" "be32 (drop 20 (encode_header od pz sq s1 s2)) = s2"
    by (simp_all add: encode_header_def header_fields_def split: prod.splits)
  have prev: "?off - (int (unat pz) + WALFrameHeaderSize) = int (frame_off pz (length hs))"
    by (simp add: g(3) frame_off_def WALFrameHeaderSize_def algebra_simps)
  have "32 < frame_off pz (length fs)" using g(3) by (simp add: frame_off_def)
  then have o32: "?off \<noteq> WALHeaderSize" by (simp add: WALHeaderSize_def)
  have vh: "verify_header fuel st dec (int (unat pz) + WALFrameHeaderSize) ?info =
      Done (Inr (?info\<lparr>si_snapshotting := False\<rparr>))"
  proof (cases "hs = []")
    case True
    then have "int (frame_off pz (length hs)) = WALHeaderSize" by (simp add: frame_off_def WALHeaderSize_def)
    then show ?thesis
      unfolding verify_header_def P(2) st(2) hd using prev dec(2,3) s by (simp add: Let_def)
  next
    case False
    have "32 < frame_off pz (length hs)" using False by (simp add: frame_off_def)
    then have "\<not> int (frame_off pz (length hs)) \<le> WALHeaderSize" by (simp add: WALHeaderSize_def)
    moreover have "lastPageMatch st dec (int (frame_off pz (length hs))) (int (unat pz) + WALFrameHeaderSize) = Inr True"
      using lastPageMatch_frame [OF g False _ dec(2,3)] False dec(4) P(2) st(2) by simp
    ultimately show ?thesis
      unfolding verify_header_def P(2) st(2) hd using prev dec(2,3) s o32 by (simp add: Let_def)
  qed
  show ?thesis
    unfolding db_verify_def Let_def pos(1) prod.case sum.case P(2,5) st(1,2) pos(3) option.case P(4)
    using pos(2) lw vh dec(1-3)
    by (cases "rest = []") (simp_all add: zero_info_sync_def P(4) st)
qed

section \<open>Properties\<close>

text \<open>C1: An incremental sync refines the database image: when the WAL starts with the frames the
  last LTX file ended with and no system call fails, \<open>verifyAndSync\<close> returns; it writes nothing
  if no transaction was committed since; otherwise it writes the next LTX file, which continues at
  the end of the last one and takes the image of the old frames to the image of all committed
  frames, over any base image. So applying the LTX files in order restores the database.\<close>

theorem incremental_sync_refines:
  assumes "wal_ok od pz sq s1 s2 fs gs tail" "fs = hs @ [(pgno, cm, data)]" "pz \<noteq> 0"
    and "db_pageSize st = unat pz" "db_wal st = Some (encode_wal od pz sq s1 s2 (fs @ gs) @ tail)"
    and "db_Pos ops st = (Inr pos, st1)" "pos \<noteq> 0" "map_of (db_l0 st) (pos, pos) = Some (Inr dec)"
    and "hWALOffset (lheader dec) + hWALSize (lheader dec) = int (frame_off pz (length fs))"
    and "hWALSalt1 (lheader dec) = s1" "hWALSalt2 (lheader dec) = s2"
    and "hs = [] \<or> (pgno, data) \<in> set (lpages dec)" "length gs < fuel"
  shows "\<exists>old new synced st'. verifyAndSync fuel (\<lambda>_. None) ops now st = Done (Inr (old, new, synced), st') \<and>
    (synced \<longleftrightarrow> committed gs \<noteq> []) \<and>
    (if committed gs = [] then db_l0 st' = db_l0 st
     else \<exists>f. map_of (db_l0 st') (pos + 1, pos + 1) = Some (Inr f) \<and>
       hWALOffset (lheader f) = hWALOffset (lheader dec) + hWALSize (lheader dec) \<and>
       new = hWALOffset (lheader f) + hWALSize (lheader f) \<and>
       (\<forall>base. same_image (apply_ltx (frames_image base fs) f) (frames_image base (fs @ gs))))"
proof -
  let ?info = "\<lparr>si_offset = int (frame_off pz (length fs)), si_salt1 = s1, si_salt2 = s2,
      si_snapshotting = False, si_reason = ''''\<rparr>"
  have g: "good_page_size pz" "frames_ok pz fs" using assms(1) by (simp_all add: wal_ok_def)
  have w: "db_wal st = Some (encode_wal od pz sq s1 s2 fs @
      encode_frames od s1 s2 (chain od (header_sum od pz sq s1 s2) fs) gs @ tail)"
    using assms(5) by (simp add: encode_wal_def encode_frames_append)
  have v: "db_verify fuel ops st = Done (Inr ?info, st1)"
    by (rule verify_continues [OF g assms(2,4) w assms(6-12)])
  note P = db_Pos_idem [OF assms(6)]
  have st1: "db_pageSize st1 = unat pz" "db_wal st1 = Some (encode_wal od pz sq s1 s2 (fs @ gs) @ tail)"
    using P assms(4,5) by simp_all
  have ne: "fs \<noteq> []" using assms(2) by simp
  obtain synced st' where run: "db_sync fuel (\<lambda>_. None) ops now ?info st1 = Done (Inr synced, st')"
    using sync_resumed_total [OF assms(1) ne assms(3) st1, of ?info fuel ops pos st1 now] assms(13) P(1) by auto
  from sync_resumed [OF assms(1) ne st1 _ _ _ _ assms(13) run]
  have "(if committed gs = [] then \<not> synced \<and> st' = st1
     else synced \<and> (\<exists>f. map_of (db_l0 st') (pos + 1, pos + 1) = Some (Inr f) \<and>
       hWALOffset (lheader f) = int (frame_off pz (length fs)) \<and>
       lastSyncedWALOffset st' = hWALOffset (lheader f) + hWALSize (lheader f) \<and>
       (\<forall>base. same_image (apply_ltx (frames_image base fs) f) (frames_image base (fs @ gs)))))"
    using P(1) by auto
  then show ?thesis
    using v run P(5) assms(9) by (auto simp: verifyAndSync_def)
qed

text \<open>A database of two 8-byte pages; the first transaction has been synced, the second not.\<close>

definition ex_ops :: ltx_ops where
  "ex_ops = \<lparr>NewLTXError = (\<lambda>_ _ _ e. e), LockPgno = (\<lambda>_. 0), EncodedSize = (\<lambda>_. 0)\<rparr>"

definition ex_ltx :: ltx_file where
  "ex_ltx = \<lparr>lheader = \<lparr>hPageSize = 8, hCommit = 1, hMinTXID = 1, hMaxTXID = 1, hTimestamp = 0,
      hWALOffset = 32, hWALSize = 32, hWALSalt1 = 7, hWALSalt2 = 9\<rparr>,
    lpages = [(1, replicate 8 1)], lpages_err = None\<rparr>"

definition ex_db :: "byte list \<Rightarrow> db" where
  "ex_db w = \<lparr>db_file = replicate 16 0, db_wal = Some w, db_pageSize = 8,
     db_l0 = [((1, 1), Inr ex_ltx)], db_pos = Some 1, l0_cache = None, syncedToWALEnd = True,
     lastSyncedWALOffset = 64, syncedSinceCheckpoint = False\<rparr>"

theorem incremental_sync_refines_witness:
  "\<exists>old new synced st' f. verifyAndSync 5 (\<lambda>_. None) ex_ops 3
      (ex_db (encode_wal LittleEndian 8 0 7 9 ([(1, 1, replicate 8 1)] @
         [(2, 0, replicate 8 2), (1, 2, replicate 8 3)]) @ [])) = Done (Inr (old, new, synced), st') \<and>
    synced \<and> map_of (db_l0 st') (2, 2) = Some (Inr f) \<and>
    same_image (apply_ltx (frames_image (0, \<lambda>_. []) [(1, 1, replicate 8 1)]) f)
      (frames_image (0, \<lambda>_. []) ([(1, 1, replicate 8 1)] @ [(2, 0, replicate 8 2), (1, 2, replicate 8 3)]))"
proof -
  let ?fs = "[(1, 1, replicate 8 1)] :: frame list"
    and ?gs = "[(2, 0, replicate 8 2), (1, 2, replicate 8 3)] :: frame list"
  let ?st = "ex_db (encode_wal LittleEndian 8 0 7 9 (?fs @ ?gs) @ [])"
  have w: "wal_ok LittleEndian 8 0 7 9 ?fs ?gs []"
    by (simp add: wal_ok_def good_page_size_def frames_ok_def frame_rejected_def last_commit_def)
  have p: "db_Pos ex_ops ?st = (Inr 1, ?st)" by (simp add: db_Pos_def ex_db_def)
  have "\<exists>old new synced st'. verifyAndSync 5 (\<lambda>_. None) ex_ops 3 ?st = Done (Inr (old, new, synced), st') \<and>
    (synced \<longleftrightarrow> committed ?gs \<noteq> []) \<and>
    (if committed ?gs = [] then db_l0 st' = db_l0 ?st
     else \<exists>f. map_of (db_l0 st') (1 + 1, 1 + 1) = Some (Inr f) \<and>
       hWALOffset (lheader f) = hWALOffset (lheader ex_ltx) + hWALSize (lheader ex_ltx) \<and>
       new = hWALOffset (lheader f) + hWALSize (lheader f) \<and>
       (\<forall>base. same_image (apply_ltx (frames_image base ?fs) f) (frames_image base (?fs @ ?gs))))"
    by (rule incremental_sync_refines [OF w _ _ _ _ p, of "[]" 1 1 "replicate 8 1"])
      (simp_all add: ex_db_def ex_ltx_def frame_off_def)
  then show ?thesis by (auto simp: one_add_one)
qed



end
