(* ===== verification/Sync_Total.thy ===== *)
theory Sync_Total
  imports Sync_Refine
begin

text \<open>
  A sync always comes back. Whatever bytes the WAL file holds and whichever system calls fail, the
  loops over the WAL end within its length, the assertion on the size of the copied range is never
  violated and no division or checksum panics, provided the page size in the WAL header is a
  multiple of 8 whose frame size does not wrap at 32 bits and the database's page size is known.
\<close>

section \<open>Reading a frame\<close>

lemma readFrame_cases:
  assumes "unat (pageSize r) mod 8 = 0"
  obtains e r' where "readFrame rd r n v = Done (Inl e, r')"
  | fr r' where "readFrame rd r n v = Done (Inr fr, r')" "pageSize r' = pageSize r"
      "frameN r' = frameN r + 1" "length (fst (rd 24 (WALHeaderSize + frameN r * uint (frameSize r)))) = 24"
proof -
  have c: "WALChecksum b x y bs = Done (wal_sum b x y bs)" if "length bs mod 8 = 0" for b x y bs
    using that by (simp add: WALChecksum_def)
  obtain hdr herr where h: "rd 24 (WALHeaderSize + frameN r * uint (frameSize r)) = (hdr, herr)" by force
  obtain data derr where d:
    "rd n (WALHeaderSize + frameN r * uint (frameSize r) + WALFrameHeaderSize) = (data, derr)" by force
  show thesis
  proof (cases "int n = uint (pageSize r) \<and> length hdr = 24 \<and> herr = None \<and> length data = n \<and> derr = None")
    case True
    then have "n = unat (pageSize r)" by (metis nat_int unat_eq_nat_uint)
    then have len: "length (take 8 hdr) mod 8 = 0" "length data mod 8 = 0" using assms True by simp_all
    obtain a1 a2 where a: "wal_sum (bo r) (chksum1 r) (chksum2 r) (take 8 hdr) = (a1, a2)" by force
    obtain b1 b2 where b: "wal_sum (bo r) a1 a2 data = (b1, b2)" by force
    have "(\<exists>e r'. readFrame rd r n v = Done (Inl e, r')) \<or>
      (\<exists>fr r'. readFrame rd r n v = Done (Inr fr, r') \<and> pageSize r' = pageSize r \<and> frameN r' = frameN r + 1)"
      using True h d len by (simp add: readFrame_def c a b Let_def)
    then show thesis using that True h by auto
  next
    case False
    then have "\<exists>e r'. readFrame rd r n v = Done (Inl e, r')"
      using h d by (auto simp: readFrame_def Let_def split: option.splits)
    then show thesis using that(1) by blast
  qed
qed

text \<open>A frame that is read lies in the file.\<close>

lemma file_ReadAt_length: "length (fst (file_ReadAt f n off)) = n \<Longrightarrow> 0 < n \<Longrightarrow> off + int n \<le> int (length f)"
  by (auto simp: file_ReadAt_def Let_def split: if_splits)

section \<open>The page map\<close>

abbreviation frame_at :: "wal_reader \<Rightarrow> int" where
  "frame_at r \<equiv> WALHeaderSize + frameN r * (WALFrameHeaderSize + uint (pageSize r))"

definition beyond :: "int \<Rightarrow> page_map \<Rightarrow> bool" where
  "beyond k m \<longleftrightarrow> (\<forall>x \<in> set m. k \<le> snd x)"

lemma beyond_update: "beyond k m \<Longrightarrow> k \<le> v \<Longrightarrow> beyond k (AList.update p v m)"
  unfolding beyond_def by (induction m) auto

lemma beyond_transfer: "beyond k tx \<Longrightarrow> beyond k m \<Longrightarrow> beyond k (transfer_tx tx m)"
  unfolding transfer_tx_def
proof (induction tx arbitrary: m)
  case (Cons x tx)
  have "beyond k (AList.update (fst x) (snd x) m)"
    by (rule beyond_update [OF Cons.prems(2)]) (use Cons.prems(1) in \<open>simp add: beyond_def\<close>)
  moreover have "beyond k tx" using Cons.prems(1) by (simp add: beyond_def)
  ultimately show ?case using Cons.IH by (simp add: case_prod_beta)
qed simp

lemma page_map_loop_total:
  assumes "good_page_size (pageSize r)" "0 \<le> frameN r" "k \<le> frame_at r"
    and "beyond k m" "beyond k tx" "int (length f) < frameN r + int fuel" "0 < fuel"
  shows "\<exists>q r'. page_map_loop fuel (file_ReadAt f) r m tx commit = Done (q, r') \<and>
    (\<forall>m' c. q = Inr (m', c) \<longrightarrow> beyond k m')"
  using assms
proof (induction fuel arbitrary: r m tx commit)
  case (Suc fuel)
  have "unat (pageSize r) mod 8 = 0" using Suc.prems(1) by (simp add: good_page_size_def)
  then show ?case
  proof (cases rule: readFrame_cases [of r "file_ReadAt f" "unat (pageSize r)" True])
    case (1 e r')
    then show ?thesis using Suc.prems(4) by (simp add: ReadFrame_def)
  next
    case (2 fr r')
    have fs: "uint (frameSize r) = WALFrameHeaderSize + uint (pageSize r)"
      using uint_frameSize [OF Suc.prems(1)] by (simp add: WALFrameHeaderSize_def)
    have at: "frame_at r + 24 \<le> int (length f)"
      using file_ReadAt_length [OF 2(4)] by (simp add: fs)
    have "frameN r * 1 \<le> frameN r * (WALFrameHeaderSize + uint (pageSize r))"
      using Suc.prems(2) by (intro mult_left_mono) (simp_all add: WALFrameHeaderSize_def)
    then have n: "frameN r + 24 \<le> int (length f)" using at by (simp add: WALHeaderSize_def)
    have nxt: "frame_at r' = frame_at r + (WALFrameHeaderSize + uint (pageSize r))"
      "reader_Offset r' = frame_at r"
      using 2(2,3) Suc.prems(2) by (simp_all add: algebra_simps reader_Offset_def)
    have "0 \<le> WALFrameHeaderSize + uint (pageSize r)" by (simp add: WALFrameHeaderSize_def)
    then have k: "k \<le> frame_at r'" using Suc.prems(3) nxt(1) by linarith
    have g: "good_page_size (pageSize r')" "0 \<le> frameN r'" using Suc.prems(1,2) 2(2,3) by simp_all
    have fuel: "int (length f) < frameN r' + int fuel" "0 < fuel"
      using Suc.prems(6) 2(3) n by simp_all
    obtain pgno fc data where fr: "fr = (pgno, fc, data)" by (cases fr)
    have t: "beyond k (AList.update pgno (reader_Offset r') tx)"
      using beyond_update [OF Suc.prems(5,3)] nxt(2) by simp
    show ?thesis
      using Suc.IH [OF g k Suc.prems(4) t fuel, of commit]
        Suc.IH [OF g k beyond_transfer [OF t Suc.prems(4)] t fuel, of fc] 2(1) fr
      by (simp add: ReadFrame_def Let_def)
  qed
qed simp

lemma PageMap_total:
  assumes "good_page_size (pageSize r)" "0 \<le> frameN r" "length f < fuel"
  shows "\<exists>q r'. PageMap fuel (file_ReadAt f) r = Done (q, r') \<and>
    (\<forall>m e c. q = Inr (m, e, c) \<longrightarrow> e = 0 \<or> frame_at r \<le> e)"
proof -
  have "beyond (frame_at r) []" by (simp add: beyond_def)
  from page_map_loop_total [OF assms(1,2) order_refl this this, of f fuel 0] assms(2,3)
  obtain q r' where q: "page_map_loop fuel (file_ReadAt f) r [] [] 0 = Done (q, r')"
    "\<forall>m' c. q = Inr (m', c) \<longrightarrow> beyond (frame_at r) m'" by auto
  have fin: "e = 0 \<or> frame_at r \<le> e"
    if b: "beyond (frame_at r) m" and e: "finish_page_map (pageSize r) m c = (m', e, c')" for m c m' e c'
  proof (cases "filter (\<lambda>(p, off). \<not> p > c) m = []")
    case False
    let ?m = "filter (\<lambda>(p, off). \<not> p > c) m"
    have "0 \<le> frameN r * (WALFrameHeaderSize + uint (pageSize r))"
      using assms(2) by (simp add: WALFrameHeaderSize_def)
    then have pos: "0 < frame_at r" by (simp add: WALHeaderSize_def)
    have ge: "\<forall>x \<in> set ?m. frame_at r \<le> snd x" using b by (auto simp: beyond_def)
    then have "\<forall>x \<in> set ?m. 0 < snd x" using pos by fastforce
    from max_offset_pos [OF False this] have "max_offset ?m = Max (snd ` set ?m)" .
    moreover have "hd ?m \<in> set ?m" using False by (rule hd_in_set)
    then have "frame_at r \<le> snd (hd ?m)" "snd (hd ?m) \<le> Max (snd ` set ?m)" using ge by (blast, intro Max_ge) auto
    then have "frame_at r \<le> Max (snd ` set ?m)" by (rule order_trans)
    moreover have "e = max_offset ?m + (WALFrameHeaderSize + uint (pageSize r))"
      using e False by (auto simp: finish_page_map_def Let_def)
    moreover have "0 \<le> WALFrameHeaderSize + uint (pageSize r)" by (simp add: WALFrameHeaderSize_def)
    ultimately show ?thesis by linarith
  qed (use e in \<open>auto simp: finish_page_map_def\<close>)
  show ?thesis
  proof (cases q)
    case (Inr p)
    obtain m c where p: "p = (m, c)" by (cases p)
    obtain m' e c' where f: "finish_page_map (pageSize r) m c = (m', e, c')" by (metis prod_cases3)
    from fin [OF _ f] q Inr p f show ?thesis by (simp add: PageMap_def)
  qed (use q in \<open>simp add: PageMap_def\<close>)
qed

section \<open>Opening the reader\<close>

lemma readHeader_fields:
  assumes "readHeader (file_ReadAt w) r0 = Inr r"
  shows "pageSize r = be32 (drop 8 w)" "frameN r = frameN r0"
proof -
  have "file_ReadAt w 32 0 = (sub 0 32 w, if length (sub 0 32 w) < 32 then Some EOF else None)"
    by (simp add: file_ReadAt_def Let_def)
  then show "pageSize r = be32 (drop 8 w)" "frameN r = frameN r0"
    using assms by (auto simp: readHeader_def Let_def sub_def drop_take split: if_splits option.splits)
qed

lemma NewWALReaderWithOffset_total:
  assumes "good_page_size (be32 (drop 8 w))"
  shows "\<exists>q. NewWALReaderWithOffset (file_ReadAt w) off s1 s2 = Done q \<and>
    (\<forall>r. q = Inr r \<longrightarrow> pageSize r = be32 (drop 8 w) \<and> 0 \<le> frameN r \<and> frame_at r = off)"
proof (cases "off \<le> WALHeaderSize")
  case False
  show ?thesis
  proof (cases "readHeader (file_ReadAt w) zero_reader")
    case (Inr r0)
    have ps: "pageSize r0 = be32 (drop 8 w)" using readHeader_fields [OF Inr] by simp
    define fs where "fs = uint (frameSize r0)"
    define r where "r = r0\<lparr>salt1 := s1, salt2 := s2, frameN := (off - WALHeaderSize) div fs - 1\<rparr>"
    have fs: "fs = WALFrameHeaderSize + uint (pageSize r0)"
      using uint_frameSize [of r0] assms ps by (simp add: fs_def WALFrameHeaderSize_def)
    have fs0: "0 < fs" unfolding fs WALFrameHeaderSize_def by (simp add: add_pos_nonneg)
    have fs': "uint (frameSize (r0\<lparr>salt1 := s1, salt2 := s2\<rparr>)) = fs" by (simp add: fs_def frameSize_def)
    have "unat (pageSize r) mod 8 = 0" using assms ps by (simp add: r_def good_page_size_def)
    then show ?thesis
    proof (cases rule: readFrame_cases [of r "file_ReadAt w" "unat (pageSize r0)" False])
      case (1 e r')
      then show ?thesis using False Inr fs0 fs' by (simp add: NewWALReaderWithOffset_def r_def Let_def)
    next
      case (2 fr r')
      have "frame_at r' = off" if "(off - WALHeaderSize) mod fs = 0"
        using 2(2,3) that by (simp add: r_def fs [symmetric] minus_mod_eq_div_mult [symmetric])
      moreover have "0 \<le> frameN r'"
        using 2(3) False fs0 by (simp add: r_def pos_imp_zdiv_nonneg_iff)
      ultimately show ?thesis
        using False Inr fs0 fs' 2(1,2) ps by (simp add: NewWALReaderWithOffset_def r_def Let_def)
    qed
  qed (use False in \<open>simp add: NewWALReaderWithOffset_def\<close>)
qed (simp add: NewWALReaderWithOffset_def)

lemma NewWALReader_start:
  assumes "NewWALReader (file_ReadAt w) = Inr r"
  shows "pageSize r = be32 (drop 8 w)" "frameN r = 0" "frame_at r = WALHeaderSize"
  using readHeader_fields [OF assms [unfolded NewWALReader_def]] by (simp_all add: zero_reader_def)

lemma sync_reader_total:
  assumes "good_page_size (be32 (drop 8 w))"
  shows "\<exists>q. sync_reader w info = Done q \<and>
    (\<forall>r info'. q = Inr (r, info') \<longrightarrow>
       pageSize r = be32 (drop 8 w) \<and> 0 \<le> frameN r \<and> frame_at r = si_offset info')"
proof (cases "si_offset info = WALHeaderSize")
  case True
  then show ?thesis
    using NewWALReader_start [of w] by (cases "NewWALReader (file_ReadAt w)") (auto simp: sync_reader_def)
next
  case False
  obtain q where q: "NewWALReaderWithOffset (file_ReadAt w) (si_offset info) (si_salt1 info) (si_salt2 info) = Done q"
    "\<forall>r. q = Inr r \<longrightarrow> pageSize r = be32 (drop 8 w) \<and> 0 \<le> frameN r \<and> frame_at r = si_offset info"
    using NewWALReaderWithOffset_total [OF assms] by metis
  show ?thesis
  proof (cases q)
    case (Inl e)
    then show ?thesis
      using False q(1) NewWALReader_start [of w]
      by (cases e; cases "NewWALReader (file_ReadAt w)") (auto simp: sync_reader_def)
  next
    case (Inr r)
    then have "sync_reader w info = Done (Inr (r, info))" using False q(1) by (simp add: sync_reader_def)
    then show ?thesis using q(2) Inr by blast
  qed
qed

section \<open>Frame salts\<close>

lemma frame_salts_loop_total:
  assumes "step \<noteq> 0" "0 \<le> off" "int (length f) < off + int fuel" "0 < fuel"
  shows "\<exists>q. frame_salts_loop fuel (file_ReadAt f) step until off m = Done q"
  using assms
proof (induction fuel arbitrary: off m)
  case (Suc fuel)
  obtain hdr err where h: "file_ReadAt f 24 off = (hdr, err)" by force
  show ?case
  proof (cases "length hdr = 24 \<and> err = None")
    case True
    then have at: "off + 24 \<le> int (length f)" using file_ReadAt_length [of f 24 off] h by simp
    have "uint step \<noteq> 0" using Suc.prems(1) by (simp add: uint_0_iff)
    then have "0 < uint step" using uint_ge_0 [of step] by linarith
    then have "int (length f) < off + uint step + int fuel" "0 < fuel" "0 \<le> off + uint step"
      using Suc.prems at by simp_all
    from Suc.IH [OF assms(1) this(3,1,2)] True show ?thesis by (auto simp: h Let_def)
  qed (use h in \<open>auto split: option.splits\<close>)
qed simp

section \<open>The whole pass\<close>

lemma detectFullCheckpoint_total:
  assumes "case db_wal st of None \<Rightarrow> True | Some w \<Rightarrow> good_page_size (be32 (drop 8 w)) \<and> length w < fuel"
  shows "\<exists>q. detectFullCheckpoint fuel st salts = Done q"
proof (cases "db_wal st")
  case (Some w)
  then have g: "good_page_size (be32 (drop 8 w))" "length w < fuel" using assms by simp_all
  show ?thesis
  proof (cases "NewWALReader (file_ReadAt w)")
    case (Inr rd)
    have "unat (24 + pageSize rd) = unat (pageSize rd) + 24"
      using unat_frameSize [of rd] g(1) NewWALReader_start [OF Inr] by (simp add: frameSize_def add.commute)
    then have "24 + pageSize rd \<noteq> 0" by auto
    from frame_salts_loop_total [OF this, of 32 w fuel "if salts = [] then (0, 0) else last salts" "{}"] g(2)
    obtain q where "FrameSaltsUntil fuel (file_ReadAt w) rd (if salts = [] then (0, 0) else last salts) = Done q"
      by (auto simp: FrameSaltsUntil_def WALHeaderSize_def)
    then show ?thesis by (cases q) (simp_all add: detectFullCheckpoint_def Some Inr)
  qed (simp add: detectFullCheckpoint_def Some)
qed (simp add: detectFullCheckpoint_def)

definition wal_good :: "nat \<Rightarrow> db \<Rightarrow> bool" where
  "wal_good fuel st \<longleftrightarrow>
     (case db_wal st of None \<Rightarrow> True | Some w \<Rightarrow> good_page_size (be32 (drop 8 w)) \<and> length w < fuel)"

lemma db_verify_total:
  assumes "wal_good fuel st"
  shows "\<exists>r st'. db_verify fuel ops st = Done (r, st') \<and> db_wal st' = db_wal st \<and> db_pageSize st' = db_pageSize st"
proof -
  obtain p st1 where p: "db_Pos ops st = (p, st1)" by force
  have s: "db_wal st1 = db_wal st" "db_pageSize st1 = db_pageSize st"
    using p by (auto simp: db_Pos_def split: option.splits prod.splits sum.splits if_splits)
  have d: "\<exists>q. detectFullCheckpoint fuel st1 salts = Done q" for salts
    by (rule detectFullCheckpoint_total) (use assms s in \<open>simp add: wal_good_def\<close>)
  have vh: "\<exists>q. verify_header fuel st1 dec sz info = Done q" for dec sz info
    using d [of "[(be32 (drop 16 (projr (readWALHeader (db_wal st1)))), be32 (drop 20 (projr (readWALHeader (db_wal st1))))),
        (hWALSalt1 (lheader dec), hWALSalt2 (lheader dec))]"]
    by (auto simp: verify_header_def Let_def split: sum.splits bool.splits)
  show ?thesis
    using p s vh unfolding db_verify_def Let_def
    by (auto split: sum.splits option.splits run.splits) (metis run.distinct)+
qed

lemma db_sync_total:
  assumes "wal_good fuel st" "db_pageSize st \<noteq> 0"
  shows "\<exists>r st'. db_sync fuel flt ops now info st = Done (r, st')"
proof -
  obtain p st1 where p: "db_Pos ops st = (p, st1)" by force
  have s: "db_wal st1 = db_wal st" "db_pageSize st1 = db_pageSize st"
    using p by (auto simp: db_Pos_def split: option.splits prod.splits sum.splits if_splits)
  show ?thesis
  proof (cases "db_wal st")
    case (Some w)
    then have g: "good_page_size (be32 (drop 8 w))" "length w < fuel" using assms by (simp_all add: wal_good_def)
    obtain q where q: "sync_reader w info = Done q"
      "\<forall>r info'. q = Inr (r, info') \<longrightarrow>
         pageSize r = be32 (drop 8 w) \<and> 0 \<le> frameN r \<and> frame_at r = si_offset info'"
      using sync_reader_total [OF g(1)] by blast
    show ?thesis
    proof (cases q)
      case (Inl e)
      then show ?thesis using p s Some q(1) assms(2) by (auto simp: db_sync_def Let_def split: sum.splits option.splits)
    next
      case (Inr x)
      obtain rd info' where x: "x = (rd, info')" by (cases x)
      then have r: "pageSize rd = be32 (drop 8 w)" "0 \<le> frameN rd" "frame_at rd = si_offset info'"
        using q(2) Inr by blast+
      obtain pm r' where pm: "PageMap fuel (file_ReadAt w) rd = Done (pm, r')"
        "\<forall>m e c. pm = Inr (m, e, c) \<longrightarrow> e = 0 \<or> si_offset info' \<le> e"
        using PageMap_total [of rd w fuel] g r by auto
      show ?thesis
      proof (cases pm)
        case (Inl e)
        then show ?thesis
          using p s Some q(1) Inr x pm(1) assms(2) by (auto simp: db_sync_def Let_def split: sum.splits option.splits)
      next
        case (Inr y)
        obtain m e c where y: "y = (m, e, c)" by (cases y)
        have sz: "\<not> (if e > 0 then e - si_offset info' else 0) < 0" using pm(2) Inr y by auto
        show ?thesis
          using p s Some q(1) \<open>q = Inr x\<close> x pm(1) Inr y sz assms(2)
          unfolding db_sync_def Let_def by (auto split: sum.splits option.splits)
      qed
    qed
  qed (use p s assms(2) in \<open>auto simp: db_sync_def Let_def split: sum.splits option.splits\<close>)
qed

section \<open>Property\<close>



end
