(* ===== verification/Sync_Snapshot.thy ===== *)
theory Sync_Snapshot
  imports Sync_Total
begin

text \<open>
  The first sync of a database: with an empty level-0 directory the position is 0, the WAL is read
  from its beginning, and the LTX file holds every page of the database (save the lock page), each
  as its newest committed frame has it, or as the database file has it.
\<close>

section \<open>The pages of a snapshot\<close>

definition file_image :: "byte list \<Rightarrow> nat \<Rightarrow> image" where
  "file_image f ps = (word_of_nat (length f div ps), \<lambda>p. sub (unat (p - 1) * ps) ps f)"

lemma set_pgnos_upto: "p \<in> set (pgnos_upto n) \<longleftrightarrow> p \<noteq> 0 \<and> p \<le> n"
proof -
  have "p \<in> set (pgnos_upto n)" if "p \<noteq> 0" "p \<le> n"
  proof -
    have "unat p \<in> {1 ..< unat n + 1}" using that by (simp add: word_le_nat_alt unat_gt_0 Suc_le_eq)
    then have "word_of_nat (unat p) \<in> set (pgnos_upto n)" unfolding pgnos_upto_def set_map set_upt by (rule imageI)
    then show ?thesis by simp
  qed
  moreover have "p \<noteq> 0 \<and> p \<le> n" if p: "p \<in> set (pgnos_upto n)"
  proof -
    obtain i where i: "p = word_of_nat i" "1 \<le> i" "i < unat n + 1" using p by (auto simp: pgnos_upto_def)
    have "i < 2 ^ 32" using i(3) unsigned_less [of n, where ?'a = nat] by simp
    then have "unat p = i" using i(1) by (simp add: unat_of_nat)
    then show ?thesis using i by (auto simp: word_le_nat_alt)
  qed
  ultimately show ?thesis by blast
qed

lemma writeLTXFromDB_pages:
  assumes "flt OpEncode = None"
    and "\<forall>p \<in> set pgnos. p \<noteq> lock \<longrightarrow>
      (case map_of pm p of
         Some off \<Rightarrow> read_full w (off + WALFrameHeaderSize) ps = Inr (d p)
       | None \<Rightarrow> read_full f (int (unat p - 1) * int ps) ps = Inr (d p))"
  shows "writeLTXFromDB flt lock ps f w pm pgnos acc =
    Inr (acc @ map (\<lambda>p. (p, d p)) (filter (\<lambda>p. p \<noteq> lock) pgnos))"
  using assms by (induction pgnos arbitrary: acc) (auto simp: encode_page_def split: option.splits)

lemma read_full_sub: "0 \<le> off \<Longrightarrow> nat off + n \<le> length f \<Longrightarrow> read_full f off n = Inr (sub (nat off) n f)"
  by (simp add: read_full_def file_ReadAt_def Let_def)

lemma unat_pred: "(p :: u32) \<noteq> 0 \<Longrightarrow> unat (p - 1) = unat p - 1"
  by (simp add: unat_minus_one)

section \<open>A WAL from its beginning\<close>

lemma fresh_reader:
  assumes w: "wal_ok od pz sq s1 s2 [] gs tail" and info: "si_offset info = WALHeaderSize"
    and fuel: "length gs < fuel"
  obtains r m e cm r' where
    "sync_reader (encode_wal od pz sq s1 s2 gs @ tail) info = Done (Inr (r, info))"
    "PageMap fuel (file_ReadAt (encode_wal od pz sq s1 s2 gs @ tail)) r = Done (Inr (m, e, cm), r')"
    "page_map_ok pz 0 gs (m, e, cm)" "m = [] \<longleftrightarrow> committed gs = []"
    "\<forall>p \<in> fst ` set m. p \<le> last_commit 0 gs \<and> page_data (committed gs) p \<noteq> None \<and>
       read_full (encode_wal od pz sq s1 s2 gs @ tail) (the (map_of m p) + WALFrameHeaderSize)
         (unat pz) = Inr (the (page_data (committed gs) p))"
proof -
  have g: "good_page_size pz" "frames_ok pz gs"
    "frame_rejected od s1 s2 (chain od (header_sum od pz sq s1 s2) gs) pz tail"
    "committed gs = [] \<or> list_ex (\<lambda>f. fst f \<le> last_commit 0 gs) (committed gs)"
    using w by (simp_all add: wal_ok_def)
  let ?pre = "encode_header od pz sq s1 s2"
  let ?w = "?pre @ encode_frames od s1 s2 (header_sum od pz sq s1 s2) gs @ tail"
  have weq: "encode_wal od pz sq s1 s2 gs @ tail = ?w" by (simp add: encode_wal_def)
  have lpre: "length ?pre = frame_off pz 0" by (simp add: frame_off_def)
  obtain r where r: "NewWALReader (file_ReadAt ?w) = Inr r" "at_frame od pz s1 s2 (header_sum od pz sq s1 s2) 0 r"
    using readHeader_at_frame [of od pz sq s1 s2 gs tail] weq by metis
  have rd: "sync_reader ?w info = Done (Inr (r, info))" using r(1) info by (simp add: sync_reader_def)
  obtain m e cm r' where pm: "PageMap fuel (file_ReadAt ?w) r = Done (Inr (m, e, cm), r')"
    "page_map_ok pz 0 gs (m, e, cm)"
    using PageMap_at_frame [OF g(1,2) r(2) lpre g(3) fuel] by (metis prod_cases3)
  have "p \<le> last_commit 0 gs \<and> page_data (committed gs) p \<noteq> None \<and>
      read_full ?w (the (map_of m p) + WALFrameHeaderSize) (unat pz) = Inr (the (page_data (committed gs) p))"
    if "p \<in> fst ` set m" for p
    using page_map_data [OF g(2) pm(2) lpre refl [of ?w] that] by auto
  then show thesis
    using that [unfolded weq, OF rd pm page_map_empty [OF pm(2) g(4)]] by blast
qed

text \<open>What the map and the file give for one page.\<close>

lemma snapshot_page:
  assumes m: "page_map_ok pz 0 gs (m, e, cm)"
    and rd: "\<forall>p \<in> fst ` set m. p \<le> last_commit 0 gs \<and> page_data (committed gs) p \<noteq> None \<and>
       read_full w (the (map_of m p) + WALFrameHeaderSize) (unat pz) = Inr (the (page_data (committed gs) p))"
    and p: "p \<noteq> 0" "p \<le> last_commit (fst (file_image f (unat pz))) gs"
    and len: "page_data (committed gs) p = None \<Longrightarrow> unat p * unat pz \<le> length f"
  shows "case map_of m p of
      Some off \<Rightarrow> read_full w (off + WALFrameHeaderSize) (unat pz) =
        Inr (snd (frames_image (file_image f (unat pz)) gs) p)
    | None \<Rightarrow> read_full f (int (unat p - 1) * int (unat pz)) (unat pz) =
        Inr (snd (frames_image (file_image f (unat pz)) gs) p)"
proof (cases "map_of m p")
  case (Some off)
  then have "p \<in> fst ` set m" by (metis domI dom_map_of_conv_image_fst)
  then show ?thesis using rd Some by (auto simp: frames_image_def)
next
  case None
  have q: "map_of m p = (if p \<le> last_commit 0 gs then latest pz 0 (committed gs) p else None)"
    using m by (simp add: page_map_ok_def)
  have n: "page_data (committed gs) p = None"
  proof (cases "committed gs = []")
    case False
    then have "p \<le> last_commit 0 gs" using p(2) by (simp add: last_commit_def)
    then show ?thesis using None q page_data_latest by metis
  qed simp
  have "1 \<le> unat p" using p(1) by (simp add: unat_gt_0 Suc_le_eq)
  then have "(unat p - 1) * unat pz + unat pz \<le> length f"
    using len [OF n] by (simp add: algebra_simps diff_mult_distrib)
  then have "read_full f (int ((unat p - 1) * unat pz)) (unat pz) = Inr (sub ((unat p - 1) * unat pz) (unat pz) f)"
    using read_full_sub [of "int ((unat p - 1) * unat pz)" "unat pz" f] by (simp del: of_nat_mult)
  then show ?thesis
    using None n p(1) by (simp add: frames_image_def file_image_def unat_pred del: of_nat_unat flip: of_nat_mult)
qed

section \<open>Property\<close>

text \<open>C9: The first sync of a database writes all of it: with an empty level-0 directory, a WAL of any
  committed and uncommitted frames with a rejected tail, a database file that holds every page the
  WAL does not, and no failing system call, \<open>verifyAndSync\<close> returns having written transaction 1,
  whose pages are, for every page of the database but the lock page and over any base, those of the
  database file overlaid with the committed frames.\<close>

theorem first_sync_snapshot:
  assumes "wal_ok od pz sq s1 s2 [] gs tail" "pz \<noteq> 0" "length gs < fuel"
    and "db_pageSize st = unat pz" "db_wal st = Some (encode_wal od pz sq s1 s2 gs @ tail)"
    and "db_l0 st = []" "db_pos st = None"
    and "\<forall>p. p \<noteq> 0 \<and> p \<le> last_commit (word_of_nat (length (db_file st) div unat pz)) gs \<and>
      page_data (committed gs) p = None \<longrightarrow> unat p * unat pz \<le> length (db_file st)"
  shows "\<exists>old new st' f. verifyAndSync fuel (\<lambda>_. None) ops now st = Done (Inr (old, new, True), st') \<and>
    db_l0 st' = [((1, 1), Inr f)] \<and> hMinTXID (lheader f) = 1 \<and> hMaxTXID (lheader f) = 1 \<and>
    hWALOffset (lheader f) = WALHeaderSize \<and>
    hCommit (lheader f) = last_commit (word_of_nat (length (db_file st) div unat pz)) gs \<and>
    (\<forall>base p. p \<noteq> 0 \<and> p \<le> hCommit (lheader f) \<and> p \<noteq> LockPgno ops pz \<longrightarrow>
       snd (apply_ltx base f) p = snd (frames_image (file_image (db_file st) (unat pz)) gs) p)"
proof -
  let ?w = "encode_wal od pz sq s1 s2 gs @ tail"
  let ?info = "zero_info_sync\<lparr>si_offset := WALHeaderSize\<rparr>"
  let ?img = "frames_image (file_image (db_file st) (unat pz)) gs"
  define lock where "lock = LockPgno ops pz"
  have pos: "db_Pos ops st = (Inr 0, st)" using assms(6,7) by (simp add: db_Pos_def db_MaxLTX_def)
  have v: "db_verify fuel ops st = Done (Inr ?info, st)" by (simp add: db_verify_def pos)
  have si: "si_offset ?info = WALHeaderSize" by simp
  obtain r m e cm r' where rd: "sync_reader ?w ?info = Done (Inr (r, ?info))"
    and pm: "PageMap fuel (file_ReadAt ?w) r = Done (Inr (m, e, cm), r')"
      "page_map_ok pz 0 gs (m, e, cm)" "m = [] \<longleftrightarrow> committed gs = []"
    and mp: "\<forall>p \<in> fst ` set m. p \<le> last_commit 0 gs \<and> page_data (committed gs) p \<noteq> None \<and>
       read_full ?w (the (map_of m p) + WALFrameHeaderSize) (unat pz) = Inr (the (page_data (committed gs) p))"
    by (rule fresh_reader [OF assms(1) si assms(3)])
  define commit where "commit = last_commit (word_of_nat (length (db_file st) div unat pz)) gs"
  have c: "(if cm > 0 then cm else word_of_nat (length (db_file st) div unat pz)) = commit"
  proof (cases "m = []")
    case True
    then show ?thesis using pm(2,3) by (simp add: page_map_ok_def commit_def last_commit_def)
  next
    case False
    then have cg: "committed gs \<noteq> []" using pm(3) by simp
    show ?thesis
      using page_map_end(2) [OF pm(2) False] committed_last [OF cg] cg
      by (simp add: last_commit_def commit_def word_gt_0)
  qed
  have sz: "\<not> (if e > 0 then e - WALHeaderSize else 0) < 0"
    using page_map_end(1) [OF pm(2)] pm(2) by (cases "m = []") (auto simp: frame_off_def WALHeaderSize_def page_map_ok_def)
  then have sz': "0 < e \<longrightarrow> \<not> e < WALHeaderSize" by (auto split: if_splits)
  have pages: "writeLTXFromDB (\<lambda>_. None) lock (unat pz) (db_file st) ?w m (pgnos_upto commit) [] =
      Inr (map (\<lambda>p. (p, snd ?img p)) (filter (\<lambda>p. p \<noteq> lock) (pgnos_upto commit)))"
  proof (subst writeLTXFromDB_pages [where d = "snd ?img"])
    show "\<forall>p \<in> set (pgnos_upto commit). p \<noteq> lock \<longrightarrow>
      (case map_of m p of
         Some off \<Rightarrow> read_full ?w (off + WALFrameHeaderSize) (unat pz) = Inr (snd ?img p)
       | None \<Rightarrow> read_full (db_file st) (int (unat p - 1) * int (unat pz)) (unat pz) = Inr (snd ?img p))"
    proof (intro ballI impI)
      fix p assume "p \<in> set (pgnos_upto commit)"
      then have p: "p \<noteq> 0" "p \<le> last_commit (fst (file_image (db_file st) (unat pz))) gs"
        by (simp_all add: set_pgnos_upto commit_def file_image_def)
      from snapshot_page [OF pm(2) mp p] assms(8) p
      show "case map_of m p of
         Some off \<Rightarrow> read_full ?w (off + WALFrameHeaderSize) (unat pz) = Inr (snd ?img p)
       | None \<Rightarrow> read_full (db_file st) (int (unat p - 1) * int (unat pz)) (unat pz) = Inr (snd ?img p)"
        by (simp add: file_image_def)
    qed
  qed simp_all
  have "map_of (map (\<lambda>p. (p, snd ?img p)) (filter (\<lambda>p. p \<noteq> lock) (pgnos_upto commit))) p = Some (snd ?img p)"
    if "p \<noteq> 0" "p \<le> commit" "p \<noteq> lock" for p
    using that by (simp add: map_of_pairs set_pgnos_upto)
  then show ?thesis
    using v pos rd pm(1) c sz' pages assms(2,4-6)
    by (simp add: verifyAndSync_def db_sync_def Let_def publish_ltx_def apply_ltx_def zero_info_sync_def
        commit_def [symmetric] lock_def [symmetric] unat_eq_0)
qed

text \<open>A database of two 8-byte pages whose WAL changes the first.\<close>

theorem first_sync_snapshot_witness:
  "\<exists>st' f. verifyAndSync 2 (\<lambda>_. None) ex_ops 3
      \<lparr>db_file = replicate 16 5, db_wal = Some (encode_wal LittleEndian 8 0 7 9 [(1, 2, replicate 8 1)] @ []),
       db_pageSize = unat (8 :: u32), db_l0 = [], db_pos = None, l0_cache = None, syncedToWALEnd = False,
       lastSyncedWALOffset = 0, syncedSinceCheckpoint = False\<rparr> = Done (Inr st', f) \<and>
     (\<exists>g. db_l0 f = [((1, 1), Inr g)] \<and> hCommit (lheader g) = 2 \<and>
       snd (apply_ltx (0, \<lambda>_. []) g) 1 = replicate 8 1 \<and> snd (apply_ltx (0, \<lambda>_. []) g) 2 = replicate 8 5)"
proof -
  let ?gs = "[(1, 2, replicate 8 1)] :: frame list"
  let ?st = "\<lparr>db_file = replicate 16 5, db_wal = Some (encode_wal LittleEndian 8 0 7 9 ?gs @ []),
       db_pageSize = unat (8 :: u32), db_l0 = [], db_pos = None, l0_cache = None, syncedToWALEnd = False,
       lastSyncedWALOffset = 0, syncedSinceCheckpoint = False\<rparr>"
  have w: "wal_ok LittleEndian 8 0 7 9 [] ?gs []"
    by (simp add: wal_ok_def good_page_size_def frames_ok_def frame_rejected_def last_commit_def)
  have len: "\<forall>p :: u32. p \<noteq> 0 \<and> p \<le> last_commit (word_of_nat (length (db_file ?st) div unat (8 :: u32))) ?gs \<and>
      page_data (committed ?gs) p = None \<longrightarrow> unat p * unat (8 :: u32) \<le> length (db_file ?st)"
    by (auto simp: last_commit_def word_le_nat_alt)
  have c: "last_commit (word_of_nat (length (db_file ?st) div unat (8 :: u32))) ?gs = 2"
    by (simp add: last_commit_def)
  from first_sync_snapshot [OF w _ _ _ _ _ _ len, of 2 ex_ops 3]
  obtain old new st' f where s: "verifyAndSync 2 (\<lambda>_. None) ex_ops 3 ?st = Done (Inr (old, new, True), st')"
    "db_l0 st' = [((1, 1), Inr f)]" "hCommit (lheader f) = 2"
    "\<forall>base p. p \<noteq> 0 \<and> p \<le> 2 \<and> p \<noteq> LockPgno ex_ops 8 \<longrightarrow>
       snd (apply_ltx base f) p = snd (frames_image (file_image (db_file ?st) (unat (8 :: u32))) ?gs) p"
    unfolding c by auto
  have i: "snd (frames_image (file_image (db_file ?st) (unat (8 :: u32))) ?gs) 1 = replicate 8 1"
    "snd (frames_image (file_image (db_file ?st) (unat (8 :: u32))) ?gs) 2 = replicate 8 5"
    by (simp_all only: db.select_convs) code_simp+
  have "snd (apply_ltx (0, \<lambda>_. []) f) 1 = replicate 8 1" "snd (apply_ltx (0, \<lambda>_. []) f) 2 = replicate 8 5"
    using s(4) i by (simp_all add: ex_ops_def)
  then show ?thesis using s(1-3) by blast
qed

end
