(* ===== verification/Sync_Machine.thy ===== *)
theory Sync_Machine
  imports Sync_Refine
begin

text \<open>
  The database as a state machine: SQLite and the application change the database and WAL files in
  any way, the sync loop copies under any system-call failure, and a database found behind its
  replica is reset to the replica's newest level-0 file. In every reachable state the local level-0
  directory is a gap-free run of one-transaction files, the cached position is its end, and each
  file continues the WAL where the one before it stopped or starts again at the WAL's beginning.
\<close>

section \<open>The machine\<close>

definition ltx_at :: "u64 \<Rightarrow> ltx_file \<Rightarrow> bool" where
  "ltx_at n f \<longleftrightarrow>
     hMinTXID (lheader f) = n \<and> hMaxTXID (lheader f) = n \<and> lpages_err f = None \<and>
     WALHeaderSize \<le> hWALOffset (lheader f) \<and> 0 \<le> hWALSize (lheader f)"

text \<open>The last rule is \<open>checkDatabaseBehindReplica\<close>: the local directory is replaced by one file
  fetched from the replica. A copy needs a TXID that is not the last 64-bit number.\<close>

inductive db_step :: "ltx_ops \<Rightarrow> db \<Rightarrow> db \<Rightarrow> bool" for ops where
  files_change: "db_step ops st (st\<lparr>db_file := f, db_wal := w\<rparr>)"
| flags_change: "db_step ops st (st\<lparr>syncedSinceCheckpoint := b\<rparr>)"
| position: "db_Pos ops st = (r, st') \<Longrightarrow> db_step ops st st'"
| copy: "verifyAndSync fuel flt ops now st = Done (r, st') \<Longrightarrow> snd (db_MaxLTX st) \<noteq> - 1 \<Longrightarrow>
     db_step ops st st'"
| behind_replica: "n \<noteq> 0 \<Longrightarrow> ltx_at n f \<Longrightarrow>
     db_step ops st (st\<lparr>db_l0 := [((n, n), Inr f)], db_pos := None\<rparr>)"

inductive reachable_db :: "ltx_ops \<Rightarrow> db \<Rightarrow> bool" for ops where
  start: "db_l0 st = [] \<Longrightarrow> db_pos st = None \<Longrightarrow> reachable_db ops st"
| step: "reachable_db ops st \<Longrightarrow> db_step ops st st' \<Longrightarrow> reachable_db ops st'"

inductive_cases db_stepE: "db_step ops st st'"

section \<open>The invariant\<close>

definition wal_end :: "ltx_file \<Rightarrow> int" where
  "wal_end f = hWALOffset (lheader f) + hWALSize (lheader f)"

fun l0_chain :: "u64 \<Rightarrow> ((u64 \<times> u64) \<times> (go_error + ltx_file)) list \<Rightarrow> ltx_file option \<Rightarrow> bool" where
  "l0_chain n [] prev = True"
| "l0_chain n ((k, Inl e) # ents) prev = False"
| "l0_chain n ((k, Inr f) # ents) prev \<longleftrightarrow>
     k = (n, n) \<and> ltx_at n f \<and> n \<noteq> 0 \<and>
     (case prev of None \<Rightarrow> True
      | Some p \<Rightarrow> hWALOffset (lheader f) = WALHeaderSize \<or> hWALOffset (lheader f) = wal_end p) \<and>
     l0_chain (n + 1) ents (Some f)"

text \<open>The TXID the directory reaches: 0 when it is empty.\<close>

definition l0_end :: "((u64 \<times> u64) \<times> 'a) list \<Rightarrow> u64" where
  "l0_end ents = (if ents = [] then 0 else fst (fst (last ents)))"

definition l0_inv :: "db \<Rightarrow> bool" where
  "l0_inv st \<longleftrightarrow>
     (\<exists>n. l0_chain n (db_l0 st) None) \<and> db_pos st \<in> {None, Some (l0_end (db_l0 st))}"

lemma l0_chain_key:
  "l0_chain n ents prev \<Longrightarrow> (k, v) \<in> set ents \<Longrightarrow> \<exists>m f. k = (m, m) \<and> v = Inr f \<and> ltx_at m f \<and> m \<noteq> 0"
  by (induction n ents prev rule: l0_chain.induct) auto

lemma l0_chain_last:
  assumes "l0_chain n ents prev" "ents \<noteq> []"
  obtains f where "last ents = ((l0_end ents, l0_end ents), Inr f)" "ltx_at (l0_end ents) f" "l0_end ents \<noteq> 0"
proof -
  obtain k v where kv: "last ents = (k, v)" by (cases "last ents")
  then have "(k, v) \<in> set ents" using assms(2) last_in_set by metis
  from l0_chain_key [OF assms(1) this] kv assms(2) that show thesis by (auto simp: l0_end_def)
qed

lemma l0_chain_snoc:
  "l0_chain n ents prev \<Longrightarrow>
   ents \<noteq> [] \<Longrightarrow> last ents = (k, Inr p) \<Longrightarrow> m = l0_end ents + 1 \<Longrightarrow> m \<noteq> 0 \<Longrightarrow> ltx_at m f \<Longrightarrow>
   hWALOffset (lheader f) = WALHeaderSize \<or> hWALOffset (lheader f) = wal_end p \<Longrightarrow>
   l0_chain n (ents @ [((m, m), Inr f)]) prev"
proof (induction n ents prev rule: l0_chain.induct)
  case (3 n k' g ents prev)
  show ?case
  proof (cases "ents = []")
    case True
    then show ?thesis using 3 by (auto simp: l0_end_def)
  next
    case False
    then have "l0_end ents = l0_end ((k', Inr g) # ents)" by (simp add: l0_end_def)
    with 3 False show ?thesis by auto
  qed
qed auto

text \<open>Along a chain the TXIDs increase, so the largest is the last.\<close>

lemma l0_chain_increasing:
  "l0_chain n ents prev \<Longrightarrow> ents \<noteq> [] \<Longrightarrow> n \<le> l0_end ents"
proof (induction n ents prev rule: l0_chain.induct)
  case (3 n k f ents prev)
  show ?case
  proof (cases ents)
    case Nil
    then show ?thesis using 3 by (simp add: l0_end_def)
  next
    case (Cons e es)
    then have "n + 1 \<noteq> 0" using 3(2) by (cases e; cases "snd e") auto
    then have "n \<le> n + 1" using less_succ by (simp add: less_imp_le)
    also have "n + 1 \<le> l0_end ents" using 3 Cons by simp
    finally show ?thesis using Cons by (simp add: l0_end_def)
  qed
qed auto

lemma l0_chain_tail:
  assumes "l0_chain n (e # ents) prev" "ents \<noteq> []"
  shows "n < l0_end ents" "l0_end (e # ents) = l0_end ents" "n < n + 1"
proof -
  obtain f where e: "e = ((n, n), Inr f)" "l0_chain (n + 1) ents (Some f)"
    using assms(1) by (cases e; cases "snd e") auto
  then have "n + 1 \<noteq> 0" using assms(2) by (cases ents; cases "hd ents"; cases "snd (hd ents)") auto
  then show l: "n < n + 1" by (rule less_succ)
  show "n < l0_end ents" using l l0_chain_increasing [OF e(2) assms(2)] by (rule less_le_trans)
  show "l0_end (e # ents) = l0_end ents" using assms(2) by (simp add: l0_end_def)
qed

lemma l0_chain_max:
  "l0_chain n ents prev \<Longrightarrow> ents \<noteq> [] \<Longrightarrow> snd acc < n \<Longrightarrow> max_ltx ents acc = (l0_end ents, l0_end ents)"
proof (induction n ents prev arbitrary: acc rule: l0_chain.induct)
  case (3 n k f ents prev)
  show ?case
  proof (cases "ents = []")
    case True
    then show ?thesis using 3 by (simp add: l0_end_def)
  next
    case False
    note t = l0_chain_tail [OF 3(2) False]
    have "max_ltx ents (n, n) = (l0_end ents, l0_end ents)" using 3(1) [of "(n, n)"] 3(2) False t(3) by simp
    then show ?thesis using 3(2,4) t(2) by simp
  qed
qed auto

lemma l0_chain_keys_le:
  "l0_chain n ents prev \<Longrightarrow> ((a, b), v) \<in> set ents \<Longrightarrow> a \<le> l0_end ents"
proof (induction n ents prev rule: l0_chain.induct)
  case (3 n k f ents prev)
  show ?case
  proof (cases "ents = []")
    case True
    then show ?thesis using 3 by (auto simp: l0_end_def)
  next
    case False
    note t = l0_chain_tail [OF 3(2) False]
    show ?thesis using 3 t(1,2) by auto
  qed
qed auto

lemma l0_chain_find:
  "l0_chain n ents prev \<Longrightarrow> ents \<noteq> [] \<Longrightarrow> map_of ents (l0_end ents, l0_end ents) = Some (snd (last ents))"
proof (induction n ents prev rule: l0_chain.induct)
  case (3 n k f ents prev)
  show ?case
  proof (cases "ents = []")
    case True
    then show ?thesis using 3 by (auto simp: l0_end_def)
  next
    case False
    note t = l0_chain_tail [OF 3(2) False]
    show ?thesis using 3 False t(1,2) by auto
  qed
qed auto

section \<open>The operations under the invariant\<close>

lemma l0_inv_MaxLTX:
  assumes "l0_inv st"
  shows "db_MaxLTX st = (l0_end (db_l0 st), l0_end (db_l0 st))"
proof (cases "db_l0 st")
  case Nil
  then show ?thesis by (simp add: db_MaxLTX_def l0_end_def)
next
  case (Cons e es)
  obtain n where c: "l0_chain n (db_l0 st) None" using assms by (auto simp: l0_inv_def)
  obtain f where "n \<noteq> 0" using c Cons by (cases e; cases "snd e") auto
  then show ?thesis using l0_chain_max [OF c, of "(0, 0)"] Cons by (simp add: db_MaxLTX_def word_gt_0)
qed

lemma l0_inv_last:
  assumes "l0_inv st" "db_l0 st \<noteq> []"
  obtains p where "last (db_l0 st) = ((l0_end (db_l0 st), l0_end (db_l0 st)), Inr p)"
    "ltx_at (l0_end (db_l0 st)) p" "l0_end (db_l0 st) \<noteq> 0"
    "map_of (db_l0 st) (l0_end (db_l0 st), l0_end (db_l0 st)) = Some (Inr p)"
proof -
  obtain n where c: "l0_chain n (db_l0 st) None" using assms by (auto simp: l0_inv_def)
  obtain p where p: "last (db_l0 st) = ((l0_end (db_l0 st), l0_end (db_l0 st)), Inr p)"
    "ltx_at (l0_end (db_l0 st)) p" "l0_end (db_l0 st) \<noteq> 0"
    using l0_chain_last [OF c assms(2)] .
  show thesis using that [OF p] l0_chain_find [OF c assms(2)] p(1) by simp
qed

lemma l0_inv_Pos:
  assumes "l0_inv st"
  obtains st1 where "db_Pos ops st = (Inr (l0_end (db_l0 st)), st1)" "l0_inv st1"
    "db_l0 st1 = db_l0 st" "db_wal st1 = db_wal st" "db_file st1 = db_file st"
proof (cases "db_l0 st = [] \<or> db_pos st \<noteq> None")
  case True
  then have "db_Pos ops st = (Inr (l0_end (db_l0 st)), st)"
    using assms by (auto simp: db_Pos_def l0_inv_MaxLTX [OF assms] l0_end_def l0_inv_def)
  then show thesis using that assms by blast
next
  case False
  then obtain p where p: "ltx_at (l0_end (db_l0 st)) p" "l0_end (db_l0 st) \<noteq> 0"
    "map_of (db_l0 st) (l0_end (db_l0 st), l0_end (db_l0 st)) = Some (Inr p)"
    using l0_inv_last [OF assms] by metis
  then have "db_Pos ops st = (Inr (l0_end (db_l0 st)), st\<lparr>db_pos := Some (l0_end (db_l0 st))\<rparr>)"
    using False by (simp add: db_Pos_def l0_inv_MaxLTX [OF assms] ltx_at_def)
  then show thesis using that assms by (fastforce simp: l0_inv_def)
qed

text \<open>The offset a sync continues at.\<close>

definition continues :: "db \<Rightarrow> int \<Rightarrow> bool" where
  "continues st off \<longleftrightarrow> off = WALHeaderSize \<or>
     (\<exists>k p. db_l0 st \<noteq> [] \<and> last (db_l0 st) = (k, Inr p) \<and> off = wal_end p)"

lemma verify_header_offset:
  "verify_header fuel st dec sz info = Done (Inr info') \<Longrightarrow> si_offset info' \<in> {si_offset info, WALHeaderSize}"
  by (auto simp: verify_header_def Let_def split: sum.splits if_splits bool.splits run.splits)

lemma l0_inv_verify:
  assumes "l0_inv st" "db_verify fuel ops st = Done (r, st')"
  shows "l0_inv st' \<and> db_l0 st' = db_l0 st \<and> (\<forall>info. r = Inr info \<longrightarrow> continues st' (si_offset info))"
proof -
  obtain st1 where p: "db_Pos ops st = (Inr (l0_end (db_l0 st)), st1)" "l0_inv st1" "db_l0 st1 = db_l0 st"
    using l0_inv_Pos [OF assms(1)] .
  show ?thesis
  proof (cases "db_l0 st = []")
    case True
    then show ?thesis using assms(2) p by (auto simp: db_verify_def l0_end_def continues_def)
  next
    case False
    obtain f where f: "last (db_l0 st) = ((l0_end (db_l0 st), l0_end (db_l0 st)), Inr f)"
      "l0_end (db_l0 st) \<noteq> 0" "map_of (db_l0 st) (l0_end (db_l0 st), l0_end (db_l0 st)) = Some (Inr f)"
      using l0_inv_last [OF assms(1) False] by metis
    have "l0_inv st' \<and> db_l0 st' = db_l0 st"
      using assms(2) p f
      by (auto simp: db_verify_def Let_def l0_inv_def split: option.splits if_splits sum.splits run.splits)
    moreover have "si_offset info \<in> {wal_end f, WALHeaderSize}" if "r = Inr info" for info
      using assms(2) p f that
      by (auto simp: db_verify_def Let_def wal_end_def split: option.splits if_splits sum.splits run.splits
          dest!: verify_header_offset)
    ultimately show ?thesis using f(1) False by (auto simp: continues_def)
  qed
qed

lemma sync_reader_offset:
  "sync_reader w info = Done (Inr (rd, info')) \<Longrightarrow> si_offset info' \<in> {si_offset info, WALHeaderSize}"
  by (auto simp: sync_reader_def split: if_splits sum.splits run.splits go_error.splits)

lemma update_fresh: "k \<notin> fst ` set xs \<Longrightarrow> AList.update k v xs = xs @ [(k, v)]"
  by (induction xs) auto

text \<open>Publishing the next file extends the chain; a failure leaves the directory.\<close>

lemma l0_inv_extend:
  assumes "l0_inv st" "l0_end (db_l0 st) \<noteq> - 1" "m = l0_end (db_l0 st) + 1" "ltx_at m f"
    and "continues st (hWALOffset (lheader f))"
    and "db_l0 st' = AList.update (m, m) (Inr f) (db_l0 st)" "db_pos st' = Some m"
  shows "l0_inv st' \<and> db_l0 st' = db_l0 st @ [((m, m), Inr f)]"
proof -
  have m0: "m \<noteq> 0" using assms(2,3) by (metis add.inverse_unique add.commute)
  then have less: "l0_end (db_l0 st) < m" using assms(3) less_succ by simp
  obtain n where c: "l0_chain n (db_l0 st) None" using assms(1) by (auto simp: l0_inv_def)
  have "(m, m) \<notin> fst ` set (db_l0 st)"
    using l0_chain_keys_le [OF c] less by fastforce
  then have l0: "db_l0 st' = db_l0 st @ [((m, m), Inr f)]"
    using assms(6) by (simp add: update_fresh)
  have "\<exists>n. l0_chain n (db_l0 st @ [((m, m), Inr f)]) None"
  proof (cases "db_l0 st = []")
    case True
    then show ?thesis using assms(4) m0 by auto
  next
    case False
    obtain p where p: "last (db_l0 st) = ((l0_end (db_l0 st), l0_end (db_l0 st)), Inr p)"
      using l0_inv_last [OF assms(1) False] .
    from assms(5) p have "hWALOffset (lheader f) = WALHeaderSize \<or> hWALOffset (lheader f) = wal_end p"
      by (auto simp: continues_def)
    from l0_chain_snoc [OF c False p assms(3) m0 assms(4) this] show ?thesis by blast
  qed
  then show ?thesis using l0 assms(7) by (simp add: l0_inv_def l0_end_def)
qed

lemma publish_ltx_cases:
  assumes "publish_ltx flt ops now f off st = (r, st')"
  obtains e where "r = Inl e" "db_l0 st' = db_l0 st" "db_pos st' \<in> {None, db_pos st}"
  | "r = Inr True" "db_l0 st' = AList.update (hMinTXID (lheader f), hMinTXID (lheader f)) (Inr f) (db_l0 st)"
    "db_pos st' = Some (hMinTXID (lheader f))"
  using assms that by (auto simp: publish_ltx_def Let_def split: option.splits)

lemma continues_bounds:
  assumes "l0_inv st" "continues st off"
  shows "WALHeaderSize \<le> off"
proof (cases "off = WALHeaderSize")
  case False
  then obtain k p where p: "db_l0 st \<noteq> []" "last (db_l0 st) = (k, Inr p)" "off = wal_end p"
    using assms(2) by (auto simp: continues_def)
  then have "ltx_at (l0_end (db_l0 st)) p" using l0_inv_last [OF assms(1) p(1)] by auto
  then show ?thesis using p(3) by (auto simp: ltx_at_def wal_end_def)
qed simp

definition one_more :: "db \<Rightarrow> db \<Rightarrow> bool" where
  "one_more st st' \<longleftrightarrow> db_l0 st' = db_l0 st \<or>
     (\<exists>f. db_l0 st' = db_l0 st @ [((l0_end (db_l0 st) + 1, l0_end (db_l0 st) + 1), Inr f)])"

lemma db_sync_publish:
  assumes "db_Pos ops st = (Inr pos, st1)" "db_sync fuel flt ops now info st = Done (r, st')"
  shows "st' = st1 \<or> (\<exists>f off. publish_ltx flt ops now f off st1 = (r, st') \<and>
    hMinTXID (lheader f) = pos + 1 \<and> hMaxTXID (lheader f) = pos + 1 \<and> lpages_err f = None \<and>
    hWALOffset (lheader f) \<in> {si_offset info, WALHeaderSize} \<and> 0 \<le> hWALSize (lheader f))"
proof (cases "st' = st1")
  case False
  with assms(2) obtain rd info' commit sz pages off where p:
      "publish_ltx flt ops now
         \<lparr>lheader = \<lparr>hPageSize = word_of_nat (db_pageSize st1), hCommit = commit, hMinTXID = pos + 1,
            hMaxTXID = pos + 1, hTimestamp = now, hWALOffset = si_offset info', hWALSize = sz,
            hWALSalt1 = salt1 rd, hWALSalt2 = salt2 rd\<rparr>,
          lpages = pages, lpages_err = None\<rparr> off st1 = (r, st')" (is "publish_ltx _ _ _ ?f _ _ = _")
      "0 \<le> sz" "\<exists>w. sync_reader w info = Done (Inr (rd, info'))"
    unfolding db_sync_def assms(1) prod.case sum.case Let_def
    by (auto simp: not_less split: option.splits if_splits run.splits sum.splits prod.splits)
      (metis diff_ge_0_iff_ge order_refl)+
  from p(3) have "si_offset info' \<in> {si_offset info, WALHeaderSize}" using sync_reader_offset by blast
  with p(1,2) show ?thesis by (intro disjI2 exI [of _ ?f] exI [of _ off]) simp
qed simp

lemma l0_inv_sync:
  assumes inv: "l0_inv st" "l0_end (db_l0 st) \<noteq> - 1" "continues st (si_offset info)"
    and run: "db_sync fuel flt ops now info st = Done (r, st')"
  shows "l0_inv st' \<and> one_more st st'"
proof -
  obtain st1 where p: "db_Pos ops st = (Inr (l0_end (db_l0 st)), st1)" "l0_inv st1" "db_l0 st1 = db_l0 st"
    using l0_inv_Pos [OF inv(1)] .
  from db_sync_publish [OF p(1) run] show ?thesis
  proof (elim disjE exE conjE)
    assume "st' = st1"
    then show ?thesis using p by (simp add: one_more_def)
  next
    fix f off
    assume f: "publish_ltx flt ops now f off st1 = (r, st')"
      "hMinTXID (lheader f) = l0_end (db_l0 st) + 1" "hMaxTXID (lheader f) = l0_end (db_l0 st) + 1"
      "lpages_err f = None" "hWALOffset (lheader f) \<in> {si_offset info, WALHeaderSize}"
      "0 \<le> hWALSize (lheader f)"
    have c: "continues st1 (hWALOffset (lheader f))" using f(5) inv(3) p(3) by (auto simp: continues_def)
    from publish_ltx_cases [OF f(1)] show ?thesis
    proof cases
      case (1 e)
      then show ?thesis using p by (auto simp: l0_inv_def one_more_def)
    next
      case 2
      from l0_inv_extend [OF p(2) _ _ _ c 2(2) 2(3)] show ?thesis
        using p(3) inv(2) continues_bounds [OF p(2) c] f(2-6) by (simp add: ltx_at_def one_more_def)
    qed
  qed
qed

lemma l0_inv_verifyAndSync:
  assumes "l0_inv st" "l0_end (db_l0 st) \<noteq> - 1" "verifyAndSync fuel flt ops now st = Done (r, st')"
  shows "l0_inv st' \<and> one_more st st'"
proof -
  obtain q st1 where v: "db_verify fuel ops st = Done (q, st1)"
    using assms(3) by (auto simp: verifyAndSync_def Let_def split: run.splits)
  note V = l0_inv_verify [OF assms(1) v]
  show ?thesis
  proof (cases q)
    case (Inl e)
    then show ?thesis using assms(3) v V by (auto simp: verifyAndSync_def one_more_def)
  next
    case (Inr info)
    then obtain q2 where "db_sync fuel flt ops now info st1 = Done (q2, st')"
      using assms(3) v by (auto simp: verifyAndSync_def Let_def split: run.splits sum.splits)
    with l0_inv_sync [of st1 info] V Inr assms(2) show ?thesis by (auto simp: one_more_def)
  qed
qed

section \<open>Every reachable state\<close>

lemma db_step_inv: "db_step ops st st' \<Longrightarrow> l0_inv st \<Longrightarrow> l0_inv st'"
proof (induction rule: db_step.induct)
  case (position st r st')
  then show ?case by (metis l0_inv_Pos prod.inject)
next
  case (copy fuel flt now st r st')
  then show ?case using l0_inv_verifyAndSync l0_inv_MaxLTX by fastforce
next
  case (behind_replica n f st)
  then have "l0_chain n [((n, n), Inr f)] None" by simp
  then show ?case unfolding l0_inv_def by auto
qed (simp_all add: l0_inv_def)

lemma reachable_inv: "reachable_db ops st \<Longrightarrow> l0_inv st"
proof (induction rule: reachable_db.induct)
  case (start st)
  have "l0_chain 0 [] None" by simp
  with start show ?case unfolding l0_inv_def by auto
next
  case (step st st')
  then show ?case using db_step_inv by blast
qed

text \<open>Up to \<open>k\<close> new files on the way from one reachable state to another.\<close>

definition runs :: "ltx_ops \<Rightarrow> nat \<Rightarrow> db \<Rightarrow> db \<Rightarrow> bool" where
  "runs ops k st st' \<longleftrightarrow> reachable_db ops st' \<and> unat (l0_end (db_l0 st')) \<le> unat (l0_end (db_l0 st)) + k"

lemma runs_trans: "runs ops j a b \<Longrightarrow> runs ops k b c \<Longrightarrow> runs ops (j + k) a c"
  by (auto simp: runs_def)

lemma runs_mono: "runs ops j a b \<Longrightarrow> j \<le> k \<Longrightarrow> runs ops k a b"
  by (auto simp: runs_def)

lemma runs_copy:
  assumes "reachable_db ops st" "unat (l0_end (db_l0 st)) + 1 < 2 ^ 64"
    and "verifyAndSync fuel flt ops now st = Done (r, st')"
  shows "runs ops 1 st st'"
proof -
  have e: "l0_end (db_l0 st) \<noteq> - 1"
  proof
    assume "l0_end (db_l0 st) = - 1"
    then have "unat (l0_end (db_l0 st)) = 2 ^ 64 - 1" by (simp add: unsigned_minus_1_eq_mask mask_eq_exp_minus_1)
    with assms(2) show False by simp
  qed
  note inv = reachable_inv [OF assms(1)]
  have "db_step ops st st'" by (rule db_step.copy [OF assms(3)]) (simp add: l0_inv_MaxLTX [OF inv] e)
  then have "reachable_db ops st'" using assms(1) reachable_db.step by blast
  moreover have "one_more st st'" using l0_inv_verifyAndSync [OF inv e assms(3)] by blast
  then have "unat (l0_end (db_l0 st')) \<le> unat (l0_end (db_l0 st)) + 1"
    by (auto simp: one_more_def l0_end_def unat_word_ariths intro: order_trans [OF mod_less_eq_dividend])
  ultimately show ?thesis by (simp add: runs_def)
qed

text \<open>What is assumed of SQLite: its calls change the database and WAL files only.\<close>

definition sqlite_ok :: "sqlite \<Rightarrow> bool" where
  "sqlite_ok sql \<longleftrightarrow>
     (\<forall>mode st e st'. sql_checkpoint sql mode st = (e, st') \<longrightarrow>
        (\<exists>f w. st' = st\<lparr>db_file := f, db_wal := w\<rparr>)) \<and>
     (\<forall>st e st'. sql_seq sql st = (e, st') \<longrightarrow> (\<exists>f w. st' = st\<lparr>db_file := f, db_wal := w\<rparr>))"

lemma runs_files:
  "reachable_db ops st \<Longrightarrow> st' = st\<lparr>db_file := f, db_wal := w\<rparr> \<Longrightarrow> runs ops 0 st st'"
  unfolding runs_def using reachable_db.step db_step.files_change by fastforce

lemma runs_flag:
  "reachable_db ops st \<Longrightarrow> runs ops 0 st (st\<lparr>syncedSinceCheckpoint := b\<rparr>)"
  unfolding runs_def using reachable_db.step db_step.flags_change by fastforce

lemma runs_seq:
  "sqlite_ok sql \<Longrightarrow> reachable_db ops st \<Longrightarrow> sql_seq sql st = (e, st') \<Longrightarrow> runs ops 0 st st'"
  using runs_files unfolding sqlite_ok_def by blast

lemma runs_execCheckpoint:
  "sqlite_ok sql \<Longrightarrow> reachable_db ops st \<Longrightarrow> execCheckpoint sql mode st = (e, st') \<Longrightarrow> runs ops 0 st st'"
  using runs_files
  by (fastforce simp: execCheckpoint_def sqlite_ok_def runs_def split: option.splits prod.splits)

lemma runs_after_checkpoint:
  assumes "reachable_db ops st" "unat (l0_end (db_l0 st)) + 1 < 2 ^ 64"
    and run: "after_checkpoint fuel flt ops sql now hdr st = Done (e, st')"
  shows "runs ops 1 st st'"
proof -
  have stay: "runs ops 1 st st" using assms(1) by (simp add: runs_def)
  have flag: "runs ops 1 st (st\<lparr>syncedSinceCheckpoint := False\<rparr>)"
    using runs_mono [OF runs_flag [OF assms(1)]] by simp
  have copied: "runs ops 1 st st1 \<and> runs ops 1 st (st1\<lparr>syncedSinceCheckpoint := False\<rparr>)"
    if "verifyAndSync fuel flt ops now st = Done (r, st1)" for r st1
  proof -
    have c: "runs ops 1 st st1" by (rule runs_copy [OF assms(1,2) that])
    then have "runs ops (1 + 0) st (st1\<lparr>syncedSinceCheckpoint := False\<rparr>)"
      by (rule runs_trans) (use c in \<open>auto simp: runs_def [of _ _ st] intro: runs_flag\<close>)
    then show ?thesis using c by simp
  qed
  show ?thesis
    using run stay flag
    by (auto simp: after_checkpoint_def split: sum.splits if_splits option.splits run.splits dest!: copied)
qed

lemma runs_checkpoint:
  assumes "sqlite_ok sql" "reachable_db ops st" "unat (l0_end (db_l0 st)) + 2 < 2 ^ 64"
    and run: "db_checkpoint fuel flt ops sql now chk mode st = Done (e, st')"
  shows "runs ops 2 st st'"
proof -
  have stay: "runs ops 2 st st" using assms(2) by (simp add: runs_def)
  show ?thesis
  proof (cases "\<exists>r st1. verifyAndSync fuel flt ops now st = Done (r, st1) \<and> st' \<noteq> st")
    case True
    then obtain r st1 where v: "verifyAndSync fuel flt ops now st = Done (r, st1)" "st' \<noteq> st" by blast
    have c: "runs ops 1 st st1" by (rule runs_copy [OF assms(2) _ v(1)]) (use assms(3) in simp)
    then have r1: "reachable_db ops st1" by (simp add: runs_def)
    obtain b st2 where x: "execCheckpoint sql mode st1 = (b, st2)" by force
    have c2: "runs ops 1 st st2"
      using runs_trans [OF c runs_execCheckpoint [OF assms(1) r1 x]] by simp
    then have r2: "reachable_db ops st2" by (simp add: runs_def)
    obtain b' st3 where q: "sql_seq sql st2 = (b', st3)" by force
    have c3: "runs ops 1 st st3" using runs_trans [OF c2 runs_seq [OF assms(1) r2 q]] by simp
    consider "st' = st1" | "st' = st2" | "st' = st3"
      | hdr where "after_checkpoint fuel flt ops sql now hdr st3 = Done (e, st')"
      using run v x q by (auto simp: db_checkpoint_def split: if_splits sum.splits option.splits)
    then show ?thesis
    proof cases
      case 4
      have "runs ops 1 st3 st'" by (rule runs_after_checkpoint [OF _ _ 4]) (use c3 assms(3) in \<open>auto simp: runs_def\<close>)
      from runs_trans [OF c3 this] show ?thesis by (simp add: numeral_2_eq_2)
    qed (use c c2 c3 runs_mono in \<open>metis one_le_numeral\<close>)+
  next
    case False
    then have "st' = st"
      using run by (auto simp: db_checkpoint_def split: if_splits sum.splits run.splits prod.splits)
    then show ?thesis using stay by simp
  qed
qed

lemma runs_checkpointIfNeeded:
  assumes "sqlite_ok sql" "reachable_db ops st" "unat (l0_end (db_l0 st)) + 2 < 2 ^ 64"
    and run: "checkpointIfNeeded fuel flt ops sql busy cfg now mtime chk orig new st = Done (e, st')"
  shows "runs ops 2 st st'"
proof -
  have "runs ops 2 st st" using assms(2) by (simp add: runs_def)
  then show ?thesis
    using run runs_checkpoint [OF assms(1-3)]
    by (fastforce simp: checkpointIfNeeded_def split: sum.splits option.splits run.splits if_splits)
qed

lemma runs_Sync:
  assumes "sqlite_ok sql" "reachable_db ops st" "unat (l0_end (db_l0 st)) + 3 < 2 ^ 64"
    and run: "db_Sync fuel flt ops sql busy cfg now mtime chk st = Done (e, st')"
  shows "runs ops 3 st st'"
proof -
  obtain b st1 where w: "ensureWALExists sql st = (b, st1)" by force
  have c1: "runs ops 0 st st1"
    using w assms(2) runs_seq [OF assms(1,2)]
    by (auto simp: ensureWALExists_def runs_def split: option.splits if_splits)
  show ?thesis
  proof (cases "b = None")
    case True
    then obtain r st2 where v: "verifyAndSync fuel flt ops now st1 = Done (r, st2)"
      using run w by (auto simp: db_Sync_def split: run.splits)
    have "runs ops 1 st1 st2" by (rule runs_copy [OF _ _ v]) (use c1 assms(3) in \<open>auto simp: runs_def\<close>)
    from runs_trans [OF c1 this] have c2: "runs ops 1 st st2" by simp
    define st3 where "st3 = (if \<exists>a b. r = Inr (a, b, True) then st2\<lparr>syncedSinceCheckpoint := True\<rparr> else st2)"
    have "runs ops 0 st2 st3" using c2 by (auto simp: st3_def runs_def [of _ _ st] intro: runs_flag) (simp add: runs_def)
    from runs_trans [OF c2 this] have c3: "runs ops 1 st st3" by simp
    consider "st' = st2" | orig new q st4 where
        "checkpointIfNeeded fuel flt ops sql busy cfg now mtime chk orig new st3 = Done (q, st4)"
        "st' = st4 \<or> (\<exists>r. db_Pos ops st4 = (r, st'))"
    proof (cases r)
      case (Inr p)
      obtain orig new s where p: "p = (orig, new, s)" by (cases p)
      have s3: "st3 = (if s then st2\<lparr>syncedSinceCheckpoint := True\<rparr> else st2)"
        by (simp add: st3_def Inr p)
      obtain q st4 where c: "checkpointIfNeeded fuel flt ops sql busy cfg now mtime chk orig new st3 = Done (q, st4)"
        using run w True v Inr p by (auto simp: db_Sync_def s3 Let_def split: run.splits)
      have "st' = st4 \<or> (\<exists>r. db_Pos ops st4 = (r, st'))"
        using run w True v Inr p c unfolding s3
        by (auto simp: db_Sync_def split: option.splits sum.splits prod.splits)
      then show thesis using that(2) [OF c] by blast
    qed (use run w True v that(1) in \<open>auto simp: db_Sync_def\<close>)
    then show ?thesis
    proof cases
      case 1
      then show ?thesis using runs_mono [OF c2] by simp
    next
      case (2 orig new q st4)
      have "runs ops 2 st3 st4"
        by (rule runs_checkpointIfNeeded [OF assms(1) _ _ 2(1)]) (use c3 assms(3) in \<open>auto simp: runs_def\<close>)
      from runs_trans [OF c3 this] have c4: "runs ops 3 st st4" by (simp add: numeral_3_eq_3)
      then have "reachable_db ops st4" by (simp add: runs_def)
      moreover have "db_l0 st' = db_l0 st4"
        using 2(2) reachable_inv [OF calculation] by (metis l0_inv_Pos prod.inject)
      moreover have "reachable_db ops st'"
        using 2(2) calculation(1) reachable_db.step db_step.position by blast
      ultimately show ?thesis using c4 by (simp add: runs_def)
    qed
  next
    case False
    then have "st' = st1" using run w by (auto simp: db_Sync_def)
    then show ?thesis using runs_mono [OF c1] by simp
  qed
qed

section \<open>Properties\<close>

text \<open>C3: In every state the sync loop can reach, whatever SQLite did to the files between its steps
  and whichever system call failed, the local level-0 directory is a gap-free run of valid files of
  one transaction each, every file continues the WAL where the one before it ended or starts at the
  beginning of the WAL, and the position is read without an error and is the last transaction of
  the directory.\<close>

theorem reachable_l0_chain:
  assumes "reachable_db ops st"
  shows "(\<exists>n. l0_chain n (db_l0 st) None) \<and> (\<exists>st'. db_Pos ops st = (Inr (l0_end (db_l0 st)), st')) \<and>
    db_MaxLTX st = (l0_end (db_l0 st), l0_end (db_l0 st))"
proof -
  note inv = reachable_inv [OF assms]
  obtain st' where "db_Pos ops st = (Inr (l0_end (db_l0 st)), st')" using l0_inv_Pos [OF inv] .
  moreover have "\<exists>n. l0_chain n (db_l0 st) None" using inv by (simp add: l0_inv_def)
  ultimately show ?thesis using l0_inv_MaxLTX [OF inv] by blast
qed

text \<open>An empty directory and a WAL of one committed transaction.\<close>

definition ex_new :: db where
  "ex_new = \<lparr>db_file = replicate 8 0,
     db_wal = Some (encode_wal LittleEndian 8 0 7 9 [(1, 1, replicate 8 1)]), db_pageSize = 8,
     db_l0 = [], db_pos = None, l0_cache = None, syncedToWALEnd = False,
     lastSyncedWALOffset = 0, syncedSinceCheckpoint = False\<rparr>"

definition ex_sqlite :: sqlite where
  "ex_sqlite = \<lparr>sql_checkpoint = (\<lambda>_ st. (None, st)), sql_seq = (\<lambda>st. (None, st)),
     sql_begin = (\<lambda>_. None), sql_lock = (\<lambda>_. None), sql_rollback = (\<lambda>_. None),
     sql_release = (\<lambda>_. None), sql_acquire = (\<lambda>_. None)\<rparr>"

lemma ex_new_reachable: "reachable_db ops ex_new"
  by (rule reachable_db.start) (simp_all add: ex_new_def)

lemma ex_new_synced:
  obtains st' where "verifyAndSync 3 (\<lambda>_. None) ex_ops 3 ex_new = Done (Inr (64, 64, True), st')"
    "map fst (db_l0 st') = [(1, 1)]"
proof -
  have "(case verifyAndSync 3 (\<lambda>_. None) ex_ops 3 ex_new of
      Done (r, st') \<Rightarrow> r = Inr (64, 64, True) \<and> map fst (db_l0 st') = [(1, 1)] | _ \<Rightarrow> False)"
    by code_simp
  then show thesis using that by (auto split: run.splits prod.splits)
qed

theorem reachable_l0_chain_witness:
  "\<exists>st f. reachable_db ex_ops st \<and> db_l0 st = [((1, 1), Inr f)] \<and> (\<exists>st'. db_Pos ex_ops st = (Inr 1, st'))"
proof -
  obtain st' where st': "verifyAndSync 3 (\<lambda>_. None) ex_ops 3 ex_new = Done (Inr (64, 64, True), st')"
    "map fst (db_l0 st') = [(1, 1)]" using ex_new_synced .
  have "db_step ex_ops ex_new st'"
    by (rule db_step.copy [OF st'(1)]) (simp add: db_MaxLTX_def ex_new_def)
  then have r: "reachable_db ex_ops st'" using ex_new_reachable reachable_db.step by blast
  obtain v where v: "db_l0 st' = [((1, 1), v)]" using st'(2) by (cases "db_l0 st'") auto
  from reachable_l0_chain [OF r] v r show ?thesis by (cases v) (auto simp: l0_end_def)
qed



end
