(* ===== verification/Replica_Sync.thy ===== *)
theory Replica_Sync
  imports Sync_Machine File_Replica
begin

text \<open>
  The replica's side of replication, \<open>replica.go\<close>: the position of the replica, the upload loop of
  \<open>Sync\<close>, and what \<open>monitor\<close> does with its outcome (backoff and automatic recovery); \<open>NewLTXError\<close> and
  \<open>IsAutoRecoverable\<close> of \<open>litestream.go\<close>.

  The local level-0 directory is the database's, \<open>db_l0\<close>; \<open>ltx_bytes\<close> is what reading a local file
  delivers. The locale \<open>replica_store\<close> adds to the client's contract what its files contain; it is
  interpreted on the file client, and the lemmas inside it say what an upload run leaves there. The loop
  counts rounds: it does not end when the database is at the last 64-bit TXID.
\<close>

section \<open>Errors of LTX files\<close>

definition NewLTXErr :: "string \<Rightarrow> string \<Rightarrow> int \<Rightarrow> u64 \<Rightarrow> u64 \<Rightarrow> go_error \<Rightarrow> go_error" where
  "NewLTXErr oper path level minTXID maxTXID err =
     LTXErr oper path level minTXID maxTXID err
       (if os_IsNotExist err \<or> errors_Is err ErrLTXMissing then ''LTX file is missing''
        else if errors_Is err ErrLTXCorrupted \<or> errors_Is err ErrChecksumMismatch then ''LTX file is corrupted''
        else '''')"

fun IsAutoRecoverable :: "go_error \<Rightarrow> bool" where
  "IsAutoRecoverable (LTXErr oper path level minTXID maxTXID err hint) \<longleftrightarrow>
     os_IsNotExist err \<or> errors_Is err ErrLTXMissing \<or> errors_Is err ErrLTXCorrupted \<or> errors_Is err ErrChecksumMismatch"
| "IsAutoRecoverable e \<longleftrightarrow> False"

section \<open>The upload loop\<close>

definition replica_MaxLTXFileInfo :: "ltx_lister \<Rightarrow> int \<Rightarrow> go_error + file_info" where
  "replica_MaxLTXFileInfo client level =
     bindR (client level 0 False) (\<lambda>it.
       (case it_close it of Some e \<Rightarrow> Inl e | None \<Rightarrow> Inr (max_info (it_items it))))"

definition calcPos :: "ltx_lister \<Rightarrow> go_error + u64" where
  "calcPos client = bindR (wrapR ''max ltx file'' (replica_MaxLTXFileInfo client 0)) (\<lambda>info. Inr (MaxTXID info))"

text \<open>The operating system's part of an upload: how opening a local file fails, and what reading it
  delivers.\<close>

record local_os =
  lo_path :: "u64 \<Rightarrow> u64 \<Rightarrow> string"
  lo_open :: "u64 \<Rightarrow> go_error option"
  ltx_bytes :: "go_error + ltx_file \<Rightarrow> ltx_stream"

definition open_local :: "local_os \<Rightarrow> db \<Rightarrow> u64 \<Rightarrow> u64 \<Rightarrow> go_error + ltx_stream" where
  "open_local los st minTXID maxTXID =
     (case lo_open los minTXID of
        Some e \<Rightarrow> Inl e
      | None \<Rightarrow> (case map_of (db_l0 st) (minTXID, maxTXID) of
                   None \<Rightarrow> Inl ErrNotExist | Some f \<Rightarrow> Inr (ltx_bytes los f)))"

definition uploadLTXFile ::
  "'s client \<Rightarrow> local_os \<Rightarrow> db \<Rightarrow> int \<Rightarrow> u64 \<Rightarrow> u64 \<Rightarrow> 's \<Rightarrow> go_error option \<times> 's" where
  "uploadLTXFile cl los st level minTXID maxTXID s =
     (case open_local los st minTXID maxTXID of
        Inl e \<Rightarrow> (Some (NewLTXErr ''open'' (lo_path los minTXID maxTXID) level minTXID maxTXID e), s)
      | Inr rd \<Rightarrow>
          (case cl_WriteLTXFile cl s level minTXID maxTXID rd of
             (Inl e, s') \<Rightarrow> (Some (Wrapf ''write ltx file'' e), s')
           | (Inr info, s') \<Rightarrow> (None, s')))"

text \<open>The replica's position is the last TXID uploaded.\<close>

fun upload_loop ::
  "nat \<Rightarrow> 's client \<Rightarrow> local_os \<Rightarrow> db \<Rightarrow> u64 \<Rightarrow> u64 \<Rightarrow> 's \<Rightarrow> (go_error option \<times> u64 \<times> 's) run" where
  "upload_loop fuel cl los st dpos pos s =
     (let txID = pos + 1
      in if txID \<le> dpos
         then (case fuel of
                 0 \<Rightarrow> OutOfFuel
               | Suc k \<Rightarrow>
                   (case uploadLTXFile cl los st 0 txID txID s of
                      (Some e, s') \<Rightarrow> Done (Some e, pos, s')
                    | (None, s') \<Rightarrow> upload_loop k cl los st dpos txID s'))
         else Done (None, pos, s))"

declare upload_loop.simps [simp del]

text \<open>\<open>Sync\<close> before the deferred reset.\<close>

definition sync_body ::
  "nat \<Rightarrow> 's client \<Rightarrow> local_os \<Rightarrow> ltx_ops \<Rightarrow> db \<Rightarrow> u64 \<Rightarrow> 's \<Rightarrow> (go_error option \<times> u64 \<times> 's \<times> db) run" where
  "sync_body fuel cl los ops st pos s =
     (case (if pos = 0 then wrapR ''calc pos'' (calcPos (cl_LTXFiles cl s)) else Inr pos) of
        Inl e \<Rightarrow> Done (Some e, pos, s, st)
      | Inr pos1 \<Rightarrow>
          (case db_Pos ops st of
             (Inl e, st') \<Rightarrow> Done (Some (Wrapf ''cannot determine current position'' e), pos1, s, st')
           | (Inr dpos, st') \<Rightarrow>
               if dpos = 0 then Done (Some (Errorf ''no position, waiting for data''), pos1, s, st')
               else (case upload_loop fuel cl los st' dpos pos1 s of
                       Done (err, pos', s') \<Rightarrow> Done (err, pos', s', st')
                     | Panicked \<Rightarrow> Panicked
                     | OutOfFuel \<Rightarrow> OutOfFuel)))"

definition Replica_Sync ::
  "nat \<Rightarrow> 's client \<Rightarrow> local_os \<Rightarrow> ltx_ops \<Rightarrow> db \<Rightarrow> u64 \<Rightarrow> 's \<Rightarrow> (go_error option \<times> u64 \<times> 's \<times> db) run" where
  "Replica_Sync fuel cl los ops st pos s =
     (case sync_body fuel cl los ops st pos s of
        Done (err, pos', s', st') \<Rightarrow> Done (err, if err \<noteq> None then 0 else pos', s', st')
      | Panicked \<Rightarrow> Panicked
      | OutOfFuel \<Rightarrow> OutOfFuel)"

section \<open>The monitor\<close>

definition DefaultSyncBackoffMax :: int where "DefaultSyncBackoffMax = seconds 300"

record monitor =
  mo_backoff :: int
  mo_consecutiveErrs :: nat

text \<open>What a round of the monitor makes of the outcome of \<open>Sync\<close>; \<open>reset\<close> is the outcome of
  \<open>ResetLocalState\<close>, called when the result's second part says so. The first LTX error in the error's tree
  is the one \<open>errors.As\<close> finds.\<close>

definition as_LTXError :: "go_error \<Rightarrow> go_error option" where
  "as_LTXError e = find (\<lambda>x. case x of LTXErr _ _ _ _ _ _ _ \<Rightarrow> True | _ \<Rightarrow> False) (error_nodes e)"

definition monitor_round ::
  "int \<Rightarrow> bool \<Rightarrow> go_error option \<Rightarrow> go_error option \<Rightarrow> monitor \<Rightarrow> monitor \<times> bool" where
  "monitor_round SyncInterval AutoRecoverEnabled err reset m =
     (case err of
        None \<Rightarrow> (\<lparr>mo_backoff = 0, mo_consecutiveErrs = 0\<rparr>, False)
      | Some e \<Rightarrow>
          if errors_Is e Canceled \<or> errors_Is e DeadlineExceeded then (m, False)
          else
            (let b = (if mo_backoff m = 0 then SyncInterval
                      else if mo_backoff m * 2 > DefaultSyncBackoffMax then DefaultSyncBackoffMax
                      else mo_backoff m * 2);
                 m' = \<lparr>mo_backoff = b, mo_consecutiveErrs = mo_consecutiveErrs m + 1\<rparr>;
                 recover = (case as_LTXError e of
                              None \<Rightarrow> False | Some l \<Rightarrow> AutoRecoverEnabled \<and> IsAutoRecoverable l)
             in (if recover \<and> reset = None then \<lparr>mo_backoff = 0, mo_consecutiveErrs = 0\<rparr> else m', recover)))"

text \<open>Failures that are not recovered from double the backoff from the sync interval up to the maximum.\<close>

fun rounds :: "int \<Rightarrow> (go_error option \<times> go_error option) list \<Rightarrow> monitor \<Rightarrow> monitor" where
  "rounds si [] m = m"
| "rounds si ((err, reset) # rs) m = rounds si rs (fst (monitor_round si True err reset m))"

definition failing :: "go_error option \<times> go_error option \<Rightarrow> bool" where
  "failing r \<longleftrightarrow> (\<exists>e. fst r = Some e \<and> \<not> errors_Is e Canceled \<and> \<not> errors_Is e DeadlineExceeded) \<and> snd r \<noteq> None"

lemma failing_round:
  "failing r \<Longrightarrow> mo_backoff (fst (monitor_round si True (fst r) (snd r) m)) =
     (if mo_backoff m = 0 then si else min (mo_backoff m * 2) DefaultSyncBackoffMax)"
  by (auto simp: failing_def monitor_round_def Let_def min_def)

lemma failing_rounds:
  assumes "list_all failing rs" "0 < si" "si \<le> DefaultSyncBackoffMax" "mo_backoff m = min (si * 2 ^ k) DefaultSyncBackoffMax"
  shows "mo_backoff (rounds si rs m) = min (si * 2 ^ (k + length rs)) DefaultSyncBackoffMax"
  using assms(1,4)
proof (induction rs arbitrary: m k)
  case (Cons r rs)
  have "mo_backoff m \<noteq> 0" using Cons.prems(2) assms(2,3) by (auto simp: min_def)
  moreover have "min (min (si * 2 ^ k) DefaultSyncBackoffMax * 2) DefaultSyncBackoffMax =
      min (si * 2 ^ Suc k) DefaultSyncBackoffMax"
    using assms(2,3) by (auto simp: min_def)
  ultimately have "mo_backoff (fst (monitor_round si True (fst r) (snd r) m)) = min (si * 2 ^ Suc k) DefaultSyncBackoffMax"
    using failing_round [of r si m] Cons.prems(1) unfolding Cons.prems(2) by simp
  from Cons.IH [OF _ this] Cons.prems(1) show ?case by (cases r) simp
qed simp

lemma monitor_backoff:
  assumes "list_all failing (r # rs)" "0 < si" "si \<le> DefaultSyncBackoffMax" "mo_backoff m = 0"
  shows "mo_backoff (rounds si (r # rs) m) = min (si * 2 ^ length rs) DefaultSyncBackoffMax"
proof -
  have "mo_backoff (fst (monitor_round si True (fst r) (snd r) m)) = min (si * 2 ^ 0) DefaultSyncBackoffMax"
    using failing_round [of r si m] assms by (simp add: min_def)
  from failing_rounds [OF _ assms(2,3) this] assms(1) show ?thesis by (cases r) simp
qed

lemma less_plus_1: "n \<noteq> - 1 \<Longrightarrow> n < n + (1 :: u64)"
  by (rule less_succ) (simp add: eq_neg_iff_add_eq_0)

lemma less_not_max: "(n :: u64) < m \<Longrightarrow> n \<noteq> - 1"
  by auto

section \<open>What the files of a replica contain\<close>

locale replica_store = replica cl good files
  for cl :: "'s client" and good files +
  fixes content :: "'s \<Rightarrow> int \<Rightarrow> u64 \<Rightarrow> u64 \<Rightarrow> byte list option"
  assumes listed_iff: "good s \<Longrightarrow>
      (\<exists>f \<in> set (files s level). info_key f = (level, mn, mx)) \<longleftrightarrow> content s level mn mx \<noteq> None"
    and write_content: "good s \<Longrightarrow> cl_WriteLTXFile cl s level mn mx rd = (w, s') \<Longrightarrow>
      (\<forall>l a b. (l, a, b) \<noteq> (level, mn, mx) \<longrightarrow> content s' l a b = content s l a b) \<and>
      (case w of
         Inr info \<Rightarrow> snd rd = None \<and> content s' level mn mx = Some (fst rd)
       | Inl e \<Rightarrow> content s' level mn mx = content s level mn mx \<or>
           snd rd = None \<and> content s' level mn mx = Some (fst rd))"
begin

text \<open>A local file as the replica should hold it.\<close>

definition copied :: "local_os \<Rightarrow> db \<Rightarrow> 's \<Rightarrow> u64 \<Rightarrow> bool" where
  "copied los st s t \<longleftrightarrow> (\<exists>bs. open_local los st t t = Inr (bs, None) \<and> content s 0 t t = Some bs)"

lemma upload_one:
  assumes "good s" "uploadLTXFile cl los st 0 t t s = (r, s')"
  shows "good s' \<and> (\<forall>l a b. (l, a, b) \<noteq> (0, t, t) \<longrightarrow> content s' l a b = content s l a b) \<and>
    (case r of None \<Rightarrow> copied los st s' t
     | Some e \<Rightarrow> content s' 0 t t = content s 0 t t \<or> copied los st s' t)"
proof (cases "open_local los st t t")
  case (Inl e)
  then show ?thesis using assms by (auto simp: uploadLTXFile_def)
next
  case (Inr rd)
  obtain w s1 where w: "cl_WriteLTXFile cl s 0 t t rd = (w, s1)" by force
  have "good s1" using write_file [OF assms(1) w] by simp
  then show ?thesis
    using assms(2) Inr w write_content [OF assms(1) w]
    by (cases rd; cases w) (auto simp: uploadLTXFile_def copied_def)
qed

lemma copied_keep: "copied los st s t \<Longrightarrow> content s' 0 t t = content s 0 t t \<Longrightarrow> copied los st s' t"
  by (simp add: copied_def)

lemma upload_loop_spec:
  assumes "good s" "upload_loop fuel cl los st dpos pos s = Done (r, pos', s')" "pos \<noteq> - 1" "dpos \<noteq> - 1"
  shows "good s' \<and> pos \<le> pos' \<and> (pos < dpos \<longrightarrow> pos' \<le> dpos) \<and>
    (\<forall>t. pos < t \<and> t \<le> pos' \<longrightarrow> copied los st s' t) \<and>
    (\<forall>l a b. (l, a, b) \<notin> {(0, t, t) | t. pos < t \<and> t \<le> dpos} \<longrightarrow> content s' l a b = content s l a b) \<and>
    (case r of
       None \<Rightarrow> dpos \<le> pos'
     | Some e \<Rightarrow> pos' < dpos \<and> (\<forall>t. pos' + 1 < t \<longrightarrow> content s' 0 t t = content s 0 t t) \<and>
         (content s' 0 (pos' + 1) (pos' + 1) = content s 0 (pos' + 1) (pos' + 1) \<or> copied los st s' (pos' + 1)))"
  using assms(1-3)
proof (induction fuel arbitrary: pos s)
  case 0
  then have "\<not> pos + 1 \<le> dpos" "r = None" "pos' = pos" "s' = s"
    by (auto simp: upload_loop.simps [of 0] Let_def split: if_splits)
  moreover have "dpos \<le> pos" using \<open>\<not> pos + 1 \<le> dpos\<close> by (metis inc_le linorder_not_less)
  ultimately show ?case using 0(1) by auto
next
  case (Suc fuel)
  show ?case
  proof (cases "pos + 1 \<le> dpos")
    case False
    then have "r = None" "pos' = pos" "s' = s" using Suc.prems(2) by (auto simp: upload_loop.simps [of "Suc fuel"] Let_def)
    moreover have "dpos \<le> pos" using False by (metis inc_le linorder_not_less)
    ultimately show ?thesis using Suc.prems(1) by auto
  next
    case True
    have pd: "pos < pos + 1" using Suc.prems(3) by (simp add: less_plus_1)
    then have lt: "pos < dpos" using True by simp
    have nx: "pos + 1 \<noteq> - 1"
    proof
      assume "pos + 1 = - 1"
      then have "- 1 \<le> dpos" using True by (rule subst)
      then show False using assms(4) word_n1_ge [of dpos] by (metis order.antisym)
    qed
    have step: "pos < t \<longleftrightarrow> t = pos + 1 \<or> pos + 1 < t" for t
      using pd inc_le [of pos t] by auto
    obtain u s1 where u: "uploadLTXFile cl los st 0 (pos + 1) (pos + 1) s = (u, s1)" by force
    note U = upload_one [OF Suc.prems(1) u]
    have keep1: "content s1 l a b = content s l a b" if "(l, a, b) \<noteq> (0, pos + 1, pos + 1)" for l a b
      using U that by blast
    show ?thesis
    proof (cases u)
      case (Some e)
      then have "r = Some e" "pos' = pos" "s' = s1"
        using Suc.prems(2) True u by (auto simp: upload_loop.simps [of "Suc fuel"] Let_def)
      moreover have "content s1 l a b = content s l a b"
        if "(l, a, b) \<notin> {(0, t, t) | t. pos < t \<and> t \<le> dpos}" for l a b
      proof (rule keep1)
        show "(l, a, b) \<noteq> (0, pos + 1, pos + 1)" using that pd True by blast
      qed
      moreover have "content s1 0 t t = content s 0 t t" if "pos + 1 < t" for t
        using that by (intro keep1) auto
      ultimately show ?thesis using U Some lt by auto
    next
      case None
      then have "upload_loop fuel cl los st dpos (pos + 1) s1 = Done (r, pos', s')"
        using Suc.prems(2) True u by (simp add: upload_loop.simps [of "Suc fuel"] Let_def)
      note IH = Suc.IH [OF _ this nx]
      have g: "good s1" "copied los st s1 (pos + 1)" using U None by simp_all
      note I = IH [OF g(1)]
      have keep2: "content s' l a b = content s1 l a b"
        if "(l, a, b) \<notin> {(0, t, t) | t. pos + 1 < t \<and> t \<le> dpos}" for l a b
        using I that by blast
      have "content s' 0 (pos + 1) (pos + 1) = content s1 0 (pos + 1) (pos + 1)" by (rule keep2) auto
      then have c1: "copied los st s' (pos + 1)" using g(2) copied_keep by blast
      have c: "copied los st s' t" if "pos < t" "t \<le> pos'" for t
      proof (cases "t = pos + 1")
        case False
        then have "pos + 1 < t" using step [of t] that(1) by blast
        then show ?thesis using I that(2) by blast
      qed (use c1 in simp)
      have k: "content s' l a b = content s l a b"
        if "(l, a, b) \<notin> {(0, t, t) | t. pos < t \<and> t \<le> dpos}" for l a b
      proof -
        have "(l, a, b) \<notin> {(0, t, t) | t. pos + 1 < t \<and> t \<le> dpos}" "(l, a, b) \<noteq> (0, pos + 1, pos + 1)"
          using that pd True by auto
        then show ?thesis using keep1 keep2 by simp
      qed
      have p: "pos + 1 \<le> pos'" using I by blast
      have e: "case r of None \<Rightarrow> dpos \<le> pos'
         | Some e \<Rightarrow> pos' < dpos \<and> (\<forall>t. pos' + 1 < t \<longrightarrow> content s' 0 t t = content s 0 t t) \<and>
             (content s' 0 (pos' + 1) (pos' + 1) = content s 0 (pos' + 1) (pos' + 1) \<or> copied los st s' (pos' + 1))"
      proof (cases r)
        case None
        then show ?thesis using I by simp
      next
        case (Some e)
        then have q: "pos' < dpos" using I by simp
        then have q1: "pos' < pos' + 1" using less_plus_1 less_not_max by blast
        have ne: "t \<noteq> pos + 1" if "pos' < t" for t using that p by auto
        have "content s1 0 t t = content s 0 t t" if "pos' < t" for t
          using ne [OF that] keep1 by simp
        note keep0 = this
        have "content s1 0 t t = content s 0 t t" if "pos' + 1 < t" for t
          using that q1 by (intro keep0) auto
        moreover have "content s1 0 (pos' + 1) (pos' + 1) = content s 0 (pos' + 1) (pos' + 1)"
          using q1 by (rule keep0)
        ultimately show ?thesis using I Some q by simp
      qed
      have "pos' \<le> dpos"
      proof (cases "pos + 1 < dpos")
        case False
        then have "upload_loop fuel cl los st dpos (pos + 1) s1 = Done (None, pos + 1, s1)"
          using True less_plus_1 [OF nx] by (simp add: upload_loop.simps [of fuel] Let_def) (metis leD le_less_trans not_le)
        then show ?thesis using True \<open>upload_loop fuel cl los st dpos (pos + 1) s1 = Done (r, pos', s')\<close> by simp
      qed (use I in simp)
      moreover have "pos \<le> pos'" using p pd by (meson less_imp_le order.trans)
      ultimately show ?thesis using I c k e by blast
    qed
  qed
qed

lemma upload_loop_returns:
  assumes "pos \<noteq> - 1" "dpos \<noteq> - 1" "unat dpos - unat pos \<le> fuel"
  shows "\<exists>r. upload_loop fuel cl los st dpos pos s = Done r"
  using assms(1,3)
proof (induction fuel arbitrary: pos s)
  case (Suc fuel)
  show ?case
  proof (cases "pos + 1 \<le> dpos")
    case True
    have nx: "pos + 1 \<noteq> - 1" using True assms(2) word_n1_ge [of dpos] by (metis order.antisym)
    have u: "unat (pos + 1) = Suc (unat pos)"
      using Suc.prems(1) unatSuc [of pos] by (simp add: eq_neg_iff_add_eq_0 add.commute)
    obtain r1 s1 where x: "uploadLTXFile cl los st 0 (pos + 1) (pos + 1) s = (r1, s1)" by force
    show ?thesis
      using True Suc.IH [OF nx] Suc.prems(2) u x
      by (cases r1) (simp_all add: upload_loop.simps [of "Suc fuel"] Let_def)
  qed (simp add: upload_loop.simps [of "Suc fuel"] Let_def)
next
  case 0
  then have "dpos \<le> pos" by (simp add: word_le_nat_alt)
  then have "\<not> pos + 1 \<le> dpos" using less_plus_1 [OF 0(1)] by (meson leD less_le_trans)
  then show ?case by (simp add: upload_loop.simps [of 0] Let_def)
qed

lemma upload_loop_succeeds:
  assumes "upload_loop fuel cl los st dpos pos s = Done (r, pos', s')" "good s" "pos \<noteq> - 1" "dpos \<noteq> - 1"
    and "\<And>t s. pos < t \<Longrightarrow> t \<le> dpos \<Longrightarrow> good s \<Longrightarrow> fst (uploadLTXFile cl los st 0 t t s) = None"
  shows "r = None"
  using assms
proof (induction fuel arbitrary: pos s)
  case (Suc fuel)
  show ?case
  proof (cases "pos + 1 \<le> dpos")
    case True
    have pd: "pos < pos + 1" by (rule less_plus_1 [OF Suc.prems(3)])
    obtain s1 where x: "uploadLTXFile cl los st 0 (pos + 1) (pos + 1) s = (None, s1)"
      using Suc.prems(5) [OF pd True Suc.prems(2)] by (cases "uploadLTXFile cl los st 0 (pos + 1) (pos + 1) s") simp
    have l: "upload_loop fuel cl los st dpos (pos + 1) s1 = Done (r, pos', s')"
      using Suc.prems(1) True x by (simp add: upload_loop.simps [of "Suc fuel"] Let_def)
    have g: "good s1" using upload_one [OF Suc.prems(2) x] by simp
    have nx: "pos + 1 \<noteq> - 1" using True assms(4) word_n1_ge [of dpos] by (metis order.antisym)
    show ?thesis
      by (rule Suc.IH [OF l g nx assms(4)]) (use Suc.prems(5) pd in \<open>auto intro: less_trans\<close>)
  qed (use Suc.prems(1) in \<open>auto simp: upload_loop.simps [of "Suc fuel"] Let_def\<close>)
qed (auto simp: upload_loop.simps [of 0] Let_def split: if_splits)

lemma upload_past_end:
  assumes "upload_loop fuel cl los st dpos pos s = Done (r, pos', s')" "dpos \<le> pos" "pos \<noteq> - 1"
  shows "pos' = pos"
proof -
  have "\<not> pos + 1 \<le> dpos" using less_plus_1 [OF assms(3)] assms(2) by (meson leD less_le_trans)
  then show ?thesis using assms(1) by (simp add: upload_loop.simps [of fuel] Let_def)
qed

lemma Sync_spec:
  assumes g: "good s" and inv: "l0_inv st" and d: "dpos = l0_end (db_l0 st)" "dpos \<noteq> - 1"
    and start: "start = (if pos \<noteq> 0 then pos else MaxTXID (max_info (files s 0)))" "start \<noteq> - 1"
    and fuel: "unat dpos - unat start \<le> fuel"
  shows "\<exists>r pos' s' st' m. Replica_Sync fuel cl los ops st pos s = Done (r, pos', s', st') \<and> good s' \<and>
    db_l0 st' = db_l0 st \<and> start \<le> m \<and> m \<le> max start dpos \<and>
    (\<forall>t. start < t \<and> t \<le> m \<longrightarrow> copied los st s' t) \<and>
    (\<forall>l a b. (l, a, b) \<notin> {(0, t, t) | t. start < t \<and> t \<le> dpos} \<longrightarrow> content s' l a b = content s l a b) \<and>
    (case r of
       None \<Rightarrow> pos' = m \<and> dpos \<noteq> 0 \<and> dpos \<le> m
     | Some e \<Rightarrow> pos' = 0 \<and> (\<forall>t. m + 1 < t \<longrightarrow> content s' 0 t t = content s 0 t t) \<and>
         (content s' 0 (m + 1) (m + 1) = content s 0 (m + 1) (m + 1) \<or> copied los st s' (m + 1))) \<and>
    (dpos \<noteq> 0 \<and>
      (\<forall>t s. start < t \<and> t \<le> dpos \<and> good s \<longrightarrow> fst (uploadLTXFile cl los st 0 t t s) = None) \<longrightarrow> r = None)"
proof -
  obtain it where it: "cl_LTXFiles cl s 0 0 False = Inr it" "it_items it = files s 0" "it_close it = None"
    using list_all_files [OF g] by metis
  have p1: "(if pos = 0 then wrapR ''calc pos'' (calcPos (cl_LTXFiles cl s)) else Inr pos) = Inr start"
    using it start(1) by (simp add: calcPos_def replica_MaxLTXFileInfo_def)
  obtain st1 where p2: "db_Pos ops st = (Inr dpos, st1)" "db_l0 st1 = db_l0 st"
    using l0_inv_Pos [OF inv] d(1) by metis
  have os: "open_local los st1 = open_local los st" by (intro ext) (simp add: open_local_def p2(2) split: option.split)
  have up: "uploadLTXFile cl los st1 = uploadLTXFile cl los st" by (intro ext) (simp add: uploadLTXFile_def os)
  have cp: "copied los st1 = copied los st" by (intro ext) (simp add: copied_def os)
  show ?thesis
  proof (cases "dpos = 0")
    case True
    then have "Replica_Sync fuel cl los ops st pos s = Done (Some (Errorf ''no position, waiting for data''), 0, s, st1)"
      by (simp add: Replica_Sync_def sync_body_def p1 p2(1))
    then show ?thesis using g p2(2) True by (intro exI [of _ "Some _"] exI [of _ "0 :: u64"] exI [of _ s] exI [of _ st1] exI [of _ start]) auto
  next
    case False
    obtain r m s' where l: "upload_loop fuel cl los st1 dpos start s = Done (r, m, s')"
      using upload_loop_returns [OF start(2) d(2) fuel] by (metis prod_cases3)
    note L = upload_loop_spec [OF g l start(2) d(2), unfolded cp]
    have run: "Replica_Sync fuel cl los ops st pos s = Done (r, if r \<noteq> None then 0 else m, s', st1)"
      using False by (simp add: Replica_Sync_def sync_body_def p1 p2(1) l)
    have live: "r = None" if "\<forall>t s. start < t \<and> t \<le> dpos \<and> good s \<longrightarrow> fst (uploadLTXFile cl los st 0 t t s) = None"
      by (rule upload_loop_succeeds [OF l g start(2) d(2)]) (use that up in simp)
    have "case r of
       None \<Rightarrow> (if r \<noteq> None then 0 else m) = m \<and> dpos \<noteq> 0 \<and> dpos \<le> m
     | Some e \<Rightarrow> (if r \<noteq> None then 0 else m) = 0 \<and> (\<forall>t. m + 1 < t \<longrightarrow> content s' 0 t t = content s 0 t t) \<and>
         (content s' 0 (m + 1) (m + 1) = content s 0 (m + 1) (m + 1) \<or> copied los st s' (m + 1))"
      using L False by (cases r) simp_all
    moreover have "m \<le> max start dpos"
      using L by (cases "start < dpos") (auto simp: max_def upload_past_end [OF l _ start(2)])
    moreover have "good s'" "start \<le> m" "\<forall>t. start < t \<and> t \<le> m \<longrightarrow> copied los st s' t"
      "\<forall>l a b. (l, a, b) \<notin> {(0, t, t) | t. start < t \<and> t \<le> dpos} \<longrightarrow> content s' l a b = content s l a b"
      using L by simp_all
    moreover have "dpos \<noteq> 0 \<and> (\<forall>t s. start < t \<and> t \<le> dpos \<and> good s \<longrightarrow>
        fst (uploadLTXFile cl los st 0 t t s) = None) \<longrightarrow> r = None" using live by blast
    ultimately show ?thesis using run p2(2)
      by - (rule exI [of _ r], rule exI [of _ "if r \<noteq> None then 0 else m"], rule exI [of _ s'],
        rule exI [of _ st1], rule exI [of _ m], intro conjI, assumption+)
  qed
qed

end

section \<open>The file client\<close>

definition file_content :: "ltx_pkg \<Rightarrow> level_fs \<Rightarrow> int \<Rightarrow> u64 \<Rightarrow> u64 \<Rightarrow> byte list option" where
  "file_content pkg fs level mn mx = map_option fe_data (dir_lookup fs level (FormatFilename pkg mn mx))"

interpretation file_store: replica_store "file_client pkg flt now mk" "client_ok pkg flt" "file_listing pkg" "file_content pkg"
  for pkg flt now mk
proof
  fix s level mn mx
  assume ok: "client_ok pkg flt s"
  show "(\<exists>f \<in> set (file_listing pkg s level). info_key f = (level, mn, mx)) \<longleftrightarrow> file_content pkg s level mn mx \<noteq> None"
  proof
    assume "\<exists>f \<in> set (file_listing pkg s level). info_key f = (level, mn, mx)"
    then show "file_content pkg s level mn mx \<noteq> None"
      by (auto simp: listing_iff [OF ok] file_content_def info_key_def file_name_def)
  next
    assume "file_content pkg s level mn mx \<noteq> None"
    then obtain e where "dir_lookup s level (FormatFilename pkg mn mx) = Some e" by (auto simp: file_content_def)
    then have "\<lparr>Level = level, MinTXID = mn, MaxTXID = mx, Size = int (length (fe_data e)), CreatedAt = fe_mtime e\<rparr>
        \<in> set (file_listing pkg s level)"
      by (simp add: listing_iff [OF ok] file_name_def)
    then show "\<exists>f \<in> set (file_listing pkg s level). info_key f = (level, mn, mx)"
      by (rule bexI [rotated]) (simp add: info_key_def)
  qed
next
  fix s level mn mx rd w s'
  assume ok: "client_ok pkg flt s"
    and run: "cl_WriteLTXFile (file_client pkg flt now mk) s level mn mx rd = (w, s')"
  have pkg: "pkg_ok pkg" using ok by (simp add: client_ok_def)
  have run': "file_WriteLTXFile pkg flt now s level mn mx rd = (w, s')" using run by (simp add: file_client_def)
  note W = file_WriteLTXFile_spec [OF pkg run']
  have "file_content pkg s' l a b = file_content pkg s l a b" if "(l, a, b) \<noteq> (level, mn, mx)" for l a b
    using that pkg_tmp [OF pkg] unfolding file_content_def by (subst W(2)) (auto simp: pkg_inj [OF pkg])
  moreover have "case w of
         Inr info \<Rightarrow> snd rd = None \<and> file_content pkg s' level mn mx = Some (fst rd)
       | Inl e \<Rightarrow> file_content pkg s' level mn mx = file_content pkg s level mn mx \<or>
           snd rd = None \<and> file_content pkg s' level mn mx = Some (fst rd)"
    using W(3,4) by (cases w) (auto simp: file_content_def)
  ultimately show "(\<forall>l a b. (l, a, b) \<noteq> (level, mn, mx) \<longrightarrow> file_content pkg s' l a b = file_content pkg s l a b) \<and>
      (case w of
         Inr info \<Rightarrow> snd rd = None \<and> file_content pkg s' level mn mx = Some (fst rd)
       | Inl e \<Rightarrow> file_content pkg s' level mn mx = file_content pkg s level mn mx \<or>
           snd rd = None \<and> file_content pkg s' level mn mx = Some (fst rd))" by blast
qed

definition uploaded :: "ltx_pkg \<Rightarrow> local_os \<Rightarrow> db \<Rightarrow> level_fs \<Rightarrow> u64 \<Rightarrow> bool" where
  "uploaded pkg los st fs t \<longleftrightarrow> (\<exists>bs. open_local los st t t = Inr (bs, None) \<and> file_content pkg fs 0 t t = Some bs)"

definition replica_start :: "ltx_pkg \<Rightarrow> u64 \<Rightarrow> level_fs \<Rightarrow> u64" where
  "replica_start pkg pos fs = (if pos \<noteq> 0 then pos else MaxTXID (max_info (file_listing pkg fs 0)))"

lemma write_no_faults:
  assumes "PeekHeader pkg (bs, None) = Inr ms"
  shows "\<exists>info fs'. file_WriteLTXFile pkg no_faults now fs level mn mx (bs, None) = (Inr info, fs')"
proof -
  have l: "dir_lookup (on_dir level (AList.update nm v) (mkdir_level level fs)) level nm = Some v" for nm v
    by (auto simp: lookups)
  show ?thesis
    using assms by (simp add: file_WriteLTXFile_def no_faults_def write_tmp_def Let_def l)
qed

text \<open>C10: A sync of the replica copies the local level-0 files in order, one at a time, from the transaction
  after the replica's position up to the database's. On success all of them are on the replica, byte for
  byte, and the position is the last; on failure the position is forgotten, so that the next sync asks the
  replica again, and what is new on the replica is a gap-free run of complete files; no other file of the
  replica changes. When nothing fails and the local files are there and readable, the sync succeeds.\<close>

theorem Replica_Sync_uploads:
  assumes "client_ok pkg flt fs" "reachable_db ops st" "dpos = l0_end (db_l0 st)" "dpos \<noteq> - 1"
    and "replica_start pkg pos fs \<noteq> - 1" "unat dpos - unat (replica_start pkg pos fs) \<le> fuel"
  shows "\<exists>r pos' fs' st' m. Replica_Sync fuel (file_client pkg flt now mk) los ops st pos fs = Done (r, pos', fs', st') \<and>
    client_ok pkg flt fs' \<and> db_l0 st' = db_l0 st \<and>
    replica_start pkg pos fs \<le> m \<and> m \<le> max (replica_start pkg pos fs) dpos \<and>
    (\<forall>t. replica_start pkg pos fs < t \<and> t \<le> m \<longrightarrow> uploaded pkg los st fs' t) \<and>
    (\<forall>l a b. (l, a, b) \<notin> {(0, t, t) | t. replica_start pkg pos fs < t \<and> t \<le> dpos} \<longrightarrow>
       file_content pkg fs' l a b = file_content pkg fs l a b) \<and>
    (case r of
       None \<Rightarrow> pos' = m \<and> dpos \<noteq> 0 \<and> dpos \<le> m
     | Some e \<Rightarrow> pos' = 0 \<and> (\<forall>t. m + 1 < t \<longrightarrow> file_content pkg fs' 0 t t = file_content pkg fs 0 t t) \<and>
         (file_content pkg fs' 0 (m + 1) (m + 1) = file_content pkg fs 0 (m + 1) (m + 1) \<or>
          uploaded pkg los st fs' (m + 1))) \<and>
    (flt = no_faults \<and> dpos \<noteq> 0 \<and> (\<forall>t. replica_start pkg pos fs < t \<and> t \<le> dpos \<longrightarrow>
        (\<exists>bs ms. open_local los st t t = Inr (bs, None) \<and> PeekHeader pkg (bs, None) = Inr ms)) \<longrightarrow> r = None)"
proof -
  have c: "file_store.copied pkg los st fs' t = uploaded pkg los st fs' t" for fs' t
    by (simp add: file_store.copied_def uploaded_def)
  have up: "fst (uploadLTXFile (file_client pkg flt now mk) los st 0 t t s) = None"
    if "flt = no_faults" "open_local los st t t = Inr (bs, None)" "PeekHeader pkg (bs, None) = Inr ms" for t s bs ms
    using write_no_faults [OF that(3), of now s 0 t t] that(1,2)
    by (auto simp: uploadLTXFile_def file_client_def)
  obtain r pos' fs' st' m where S: "Replica_Sync fuel (file_client pkg flt now mk) los ops st pos fs = Done (r, pos', fs', st')"
    "client_ok pkg flt fs'" "db_l0 st' = db_l0 st" "replica_start pkg pos fs \<le> m" "m \<le> max (replica_start pkg pos fs) dpos"
    "\<forall>t. replica_start pkg pos fs < t \<and> t \<le> m \<longrightarrow> uploaded pkg los st fs' t"
    "\<forall>l a b. (l, a, b) \<notin> {(0, t, t) | t. replica_start pkg pos fs < t \<and> t \<le> dpos} \<longrightarrow>
       file_content pkg fs' l a b = file_content pkg fs l a b"
    "case r of
       None \<Rightarrow> pos' = m \<and> dpos \<noteq> 0 \<and> dpos \<le> m
     | Some e \<Rightarrow> pos' = 0 \<and> (\<forall>t. m + 1 < t \<longrightarrow> file_content pkg fs' 0 t t = file_content pkg fs 0 t t) \<and>
         (file_content pkg fs' 0 (m + 1) (m + 1) = file_content pkg fs 0 (m + 1) (m + 1) \<or>
          uploaded pkg los st fs' (m + 1))"
    "dpos \<noteq> 0 \<and> (\<forall>t s. replica_start pkg pos fs < t \<and> t \<le> dpos \<and> client_ok pkg flt s \<longrightarrow>
        fst (uploadLTXFile (file_client pkg flt now mk) los st 0 t t s) = None) \<longrightarrow> r = None"
    using file_store.Sync_spec [OF assms(1) reachable_inv [OF assms(2)] assms(3,4)
        replica_start_def [of pkg pos fs] assms(5,6), of now mk los ops, unfolded c]
    by (elim exE conjE) (rule that, assumption+)
  have "r = None" if "flt = no_faults" "dpos \<noteq> 0" and hyp: "\<forall>t. replica_start pkg pos fs < t \<and> t \<le> dpos \<longrightarrow>
        (\<exists>bs ms. open_local los st t t = Inr (bs, None) \<and> PeekHeader pkg (bs, None) = Inr ms)"
  proof -
    have "fst (uploadLTXFile (file_client pkg flt now mk) los st 0 t t s) = None"
      if t: "replica_start pkg pos fs < t" "t \<le> dpos" for t s
    proof -
      obtain bs ms where "open_local los st t t = Inr (bs, None)" "PeekHeader pkg (bs, None) = Inr ms"
        using hyp t by blast
      then show ?thesis by (rule up [OF \<open>flt = no_faults\<close>])
    qed
    then show "r = None" using S(9) \<open>dpos \<noteq> 0\<close> by simp
  qed
  then have "flt = no_faults \<and> dpos \<noteq> 0 \<and> (\<forall>t. replica_start pkg pos fs < t \<and> t \<le> dpos \<longrightarrow>
        (\<exists>bs ms. open_local los st t t = Inr (bs, None) \<and> PeekHeader pkg (bs, None) = Inr ms)) \<longrightarrow> r = None"
    by blast
  with S(1-8) show ?thesis
    by - (rule exI [of _ r], rule exI [of _ pos'], rule exI [of _ fs'], rule exI [of _ st'], rule exI [of _ m],
      intro conjI, assumption+)
qed

definition ex_local :: local_os where
  "ex_local = \<lparr>lo_path = (\<lambda>mn mx. ''l0''), lo_open = (\<lambda>t. None), ltx_bytes = (\<lambda>f. ([3, 1, 4], None))\<rparr>"

text \<open>A database after its first copy, and an empty replica.\<close>

theorem Replica_Sync_uploads_witness:
  "\<exists>st fs' st'. reachable_db ex_ops st \<and>
     Replica_Sync 1 (file_client ex_pkg no_faults 9 (\<lambda>_ _ _ _ e. e)) ex_local ex_ops st 0 (\<lambda>_. None) =
       Done (None, 1, fs', st') \<and> file_content ex_pkg fs' 0 1 1 = Some [3, 1, 4]"
proof -
  obtain st where st: "verifyAndSync 3 (\<lambda>_. None) ex_ops 3 ex_new = Done (Inr (64, 64, True), st)"
    "map fst (db_l0 st) = [(1, 1)]" using ex_new_synced .
  have "db_step ex_ops ex_new st"
    by (rule db_step.copy [OF st(1)]) (simp add: db_MaxLTX_def ex_new_def)
  then have r: "reachable_db ex_ops st" using ex_new_reachable reachable_db.step by blast
  obtain v where v: "db_l0 st = [((1, 1), v)]" using st(2) by (cases "db_l0 st") auto
  have d: "l0_end (db_l0 st) = 1" by (simp add: v l0_end_def)
  have ok: "client_ok ex_pkg no_faults (\<lambda>_. None)" by (rule ex_client_ok) (simp add: fs_ok_def)
  have s0: "replica_start ex_pkg 0 (\<lambda>_. None) = 0"
    by (simp add: replica_start_def file_listing_def zero_info_def)
  have o: "open_local ex_local st 1 1 = Inr ([3, 1, 4], None)" by (simp add: open_local_def ex_local_def v)
  have one: "t = 1" if "0 < t" "t \<le> 1" for t :: u64
    using that by (simp add: word_le_nat_alt word_less_nat_alt word_unat_eq_iff)
  have h: "\<forall>t. 0 < t \<and> t \<le> 1 \<longrightarrow> (\<exists>bs ms. open_local ex_local st t t = Inr (bs, None) \<and> PeekHeader ex_pkg (bs, None) = Inr ms)"
    using one o by (auto simp: ex_pkg_def)
  have u: "unat (1 :: u64) - unat (replica_start ex_pkg 0 (\<lambda>_. None)) \<le> 1" "replica_start ex_pkg 0 (\<lambda>_. None) \<noteq> - 1"
    by (simp_all add: s0)
  obtain r pos' fs' st' m where S: "Replica_Sync 1 (file_client ex_pkg no_faults 9 (\<lambda>_ _ _ _ e. e)) ex_local ex_ops st 0 (\<lambda>_. None) =
      Done (r, pos', fs', st')" "m \<le> 1" "uploaded ex_pkg ex_local st fs' 1 \<or> m < 1"
    "case r of None \<Rightarrow> pos' = m \<and> 1 \<le> m | Some e \<Rightarrow> True" "r = None"
    using Replica_Sync_uploads [OF ok r d [symmetric] _ u(2,1), of 9 "\<lambda>_ _ _ _ e. e" ex_local, unfolded s0] h
    by (fastforce split: option.splits)
  then have "pos' = 1" by (auto intro: order.antisym)
  moreover have "uploaded ex_pkg ex_local st fs' 1" using S(3-5) by auto
  ultimately show ?thesis using r S(1,5) o by (auto simp: uploaded_def)
qed

end
