(* ===== verification/Follow.thy ===== *)
theory Follow
  imports Wal_Sync
begin

text \<open>
  Follow mode, \<open>replica.go\<close>: the poll that applies new LTX files to the restored database
  (\<open>applyNewLTXFiles\<close>), the search of the higher levels for a file that bridges a gap
  (\<open>fillFollowGap\<close>), the application of one file in place (\<open>applyLTXFile\<close>), the TXID sidecar
  (\<open>WriteTXIDFile\<close>, \<open>ReadTXIDFile\<close>) and the loop that ties them (\<open>follow\<close>).

  The replica is behind \<open>follow_env\<close>: its listings, and what opening and decoding a file gives. A
  decoded file is its header and pages, the error its page decoder ends with and the error of the
  decoder's \<open>Close\<close>. The database is a byte list that page writes change in place; every system call
  on it may fail, a write after any number of its bytes.
\<close>

section \<open>The environment of a poll\<close>

type_synonym decoded_ltx = "ltx_file \<times> go_error option"

text \<open>\<open>fe_open\<close>: the error of \<open>OpenLTXFile\<close>, or the error of \<open>DecodeHeader\<close>, or the file.\<close>

record follow_env =
  fe_list :: ltx_lister
  fe_open :: "int \<Rightarrow> u64 \<Rightarrow> u64 \<Rightarrow> go_error + (go_error + decoded_ltx)"

datatype db_op = DbLock | DbWrite u32 | DbTruncate | DbSync

text \<open>The outcome of the system calls while one file is applied: which fail, how many bytes a failing
  write has written, and the four bytes \<open>rand.Read\<close> delivers.\<close>

record db_faults =
  df_op :: "db_op \<Rightarrow> go_error option"
  df_short :: "u32 \<Rightarrow> nat"
  df_rand :: "byte \<times> byte \<times> byte \<times> byte"

section \<open>Writing the database file\<close>

text \<open>Page 1 gets the journal mode DELETE and a random schema counter.\<close>

definition fix_header :: "byte \<times> byte \<times> byte \<times> byte \<Rightarrow> u32 \<Rightarrow> byte list \<Rightarrow> byte list" where
  "fix_header rnd pgno data =
     (case rnd of (a, b, c, d) \<Rightarrow>
        if pgno = 1 \<and> length data \<ge> 28
        then data[18 := 1, 19 := 1, 24 := a, 25 := b, 26 := c, 27 := d] else data)"

fun apply_pages :: "db_faults \<Rightarrow> nat \<Rightarrow> (u32 \<times> byte list) list \<Rightarrow> byte list \<Rightarrow> go_error option \<times> byte list" where
  "apply_pages flt ps [] f = (None, f)"
| "apply_pages flt ps ((pgno, page) # pages) f =
     (let data = fix_header (df_rand flt) pgno page; off = unat (pgno - 1) * ps
      in (case df_op flt (DbWrite pgno) of
            Some e \<Rightarrow> (Some (Wrapf ''write page'' e), write_at f off (take (df_short flt pgno) data))
          | None \<Rightarrow> apply_pages flt ps pages (write_at f off data)))"

text \<open>\<open>defer UnlockFile\<close> and the deferred closes have no effect on the state.\<close>

definition applyLTXFile ::
  "(file_info \<Rightarrow> db_faults) \<Rightarrow> follow_env \<Rightarrow> nat \<Rightarrow> file_info \<Rightarrow> byte list \<Rightarrow> go_error option \<times> byte list" where
  "applyLTXFile flts env ps info f =
     (let flt = flts info in
      (case fe_open env (Level info) (MinTXID info) (MaxTXID info) of
         Inl e \<Rightarrow> (Some (Wrapf ''open ltx file'' e), f)
       | Inr (Inl e) \<Rightarrow> (Some (Wrapf ''decode header'' e), f)
       | Inr (Inr (lf, closeErr)) \<Rightarrow>
           (case df_op flt DbLock of Some e \<Rightarrow> (Some (Wrapf ''acquire exclusive lock'' e), f) | None \<Rightarrow>
           (case apply_pages flt ps (lpages lf) f of
              (Some e, f1) \<Rightarrow> (Some e, f1)
            | (None, f1) \<Rightarrow>
                if lpages_err lf \<notin> {None, Some EOF}
                then (Some (Wrapf ''decode page'' (the (lpages_err lf))), f1)
                else (case (if hCommit (lheader lf) > 0 then df_op flt DbTruncate else None) of
                   Some e \<Rightarrow> (Some (Wrapf ''truncate'' e), f1)
                 | None \<Rightarrow>
                     (let f2 = (if hCommit (lheader lf) > 0
                                then truncate_to f1 (unat (hCommit (lheader lf)) * ps) else f1)
                      in (case closeErr of
                            Some e \<Rightarrow> (Some (Wrapf ''close decoder'' e), f2)
                          | None \<Rightarrow> (df_op flt DbSync, f2))))))))"

section \<open>Bridging a gap\<close>

text \<open>How the loop over a listing ended. After a \<open>break\<close> the iterator has no error to report.\<close>

datatype loop_end = LoopEnd | LoopBreak | LoopReturn | LoopFail go_error

fun fill_items ::
  "(file_info \<Rightarrow> db_faults) \<Rightarrow> follow_env \<Rightarrow> nat \<Rightarrow> u64 \<Rightarrow> file_info list \<Rightarrow> u64 \<Rightarrow> byte list \<Rightarrow>
     loop_end \<times> u64 \<times> byte list" where
  "fill_items flts env ps gapMin [] currentTXID f = (LoopEnd, currentTXID, f)"
| "fill_items flts env ps gapMin (info # items) currentTXID f =
     (if MinTXID info > currentTXID + 1 then (LoopBreak, currentTXID, f)
      else if MaxTXID info \<le> currentTXID then fill_items flts env ps gapMin items currentTXID f
      else (case applyLTXFile flts env ps info f of
        (Some e, f') \<Rightarrow> (LoopFail (Wrapf ''apply gap-fill ltx file'' e), currentTXID, f')
      | (None, f') \<Rightarrow>
          if MaxTXID info + 1 \<ge> gapMin then (LoopReturn, MaxTXID info, f')
          else fill_items flts env ps gapMin items (MaxTXID info) f'))"

text \<open>\<open>closeLevel\<close>: the error of closing the iterator is joined to the error returned.\<close>

definition close_with :: "string \<Rightarrow> file_iter \<Rightarrow> go_error option \<Rightarrow> go_error option" where
  "close_with msg it retErr =
     (case it_close it of
        None \<Rightarrow> retErr
      | Some c \<Rightarrow> (case retErr of None \<Rightarrow> Some (Wrapf msg c) | Some e \<Rightarrow> Some (Wrap2 e (Wrapf msg c))))"

text \<open>The levels still to search; \<open>fillFollowGap\<close> starts with 1 to 8.\<close>

fun fill_levels ::
  "(file_info \<Rightarrow> db_faults) \<Rightarrow> follow_env \<Rightarrow> nat \<Rightarrow> u64 \<Rightarrow> int list \<Rightarrow> u64 \<Rightarrow> byte list \<Rightarrow>
     go_error option \<times> u64 \<times> byte list" where
  "fill_levels flts env ps gapMin [] afterTXID f = (None, afterTXID, f)"
| "fill_levels flts env ps gapMin (level # levels) afterTXID f =
     (case fe_list env level 0 False of
        Inl e \<Rightarrow> (Some (Wrapf ''list ltx files'' e), afterTXID, f)
      | Inr it \<Rightarrow>
          (case fill_items flts env ps gapMin (it_items it) afterTXID f of
             (LoopFail e, cur, f') \<Rightarrow> (close_with ''close ltx iterator'' it (Some e), cur, f')
           | (LoopReturn, cur, f') \<Rightarrow> (close_with ''close ltx iterator'' it None, cur, f')
           | (r, cur, f') \<Rightarrow>
               (case (if r = LoopEnd then it_err it else None) of
                  Some e \<Rightarrow> (close_with ''close ltx iterator'' it (Some (Wrapf ''iterate ltx files'' e)), cur, f')
                | None \<Rightarrow>
                    (case close_with ''close ltx iterator'' it None of
                       Some e \<Rightarrow> (Some e, cur, f')
                     | None \<Rightarrow>
                         if cur > afterTXID then (None, cur, f')
                         else fill_levels flts env ps gapMin levels afterTXID f'))))"

definition fillFollowGap ::
  "(file_info \<Rightarrow> db_faults) \<Rightarrow> follow_env \<Rightarrow> nat \<Rightarrow> u64 \<Rightarrow> u64 \<Rightarrow> byte list \<Rightarrow> go_error option \<times> u64 \<times> byte list" where
  "fillFollowGap flts env ps afterTXID gapMinTXID f =
     fill_levels flts env ps gapMinTXID [1 .. SnapshotLevel - 1] afterTXID f"

section \<open>One poll\<close>

fun new_items ::
  "(file_info \<Rightarrow> db_faults) \<Rightarrow> follow_env \<Rightarrow> nat \<Rightarrow> file_info list \<Rightarrow> u64 \<Rightarrow> byte list \<Rightarrow>
     loop_end \<times> u64 \<times> byte list" where
  "new_items flts env ps [] currentTXID f = (LoopEnd, currentTXID, f)"
| "new_items flts env ps (info # items) currentTXID f =
     (case (if MinTXID info > currentTXID + 1
            then fillFollowGap flts env ps currentTXID (MinTXID info) f else (None, currentTXID, f)) of
        (Some e, _, f1) \<Rightarrow> (LoopFail e, currentTXID, f1)
      | (None, cur, f1) \<Rightarrow>
          if MaxTXID info \<le> cur then new_items flts env ps items cur f1
          else if MinTXID info > cur + 1 then (LoopReturn, cur, f1)
          else (case applyLTXFile flts env ps info f1 of
            (Some e, f2) \<Rightarrow> (LoopFail (Wrapf ''apply ltx file'' e), cur, f2)
          | (None, f2) \<Rightarrow> new_items flts env ps items (MaxTXID info) f2))"

definition applyNewLTXFiles ::
  "(file_info \<Rightarrow> db_faults) \<Rightarrow> follow_env \<Rightarrow> nat \<Rightarrow> u64 \<Rightarrow> byte list \<Rightarrow> go_error option \<times> u64 \<times> byte list" where
  "applyNewLTXFiles flts env ps afterTXID f =
     (case fe_list env 0 (afterTXID + 1) False of
        Inl e \<Rightarrow> (Some (Wrapf ''list level 0 ltx files'' e), afterTXID, f)
      | Inr it \<Rightarrow>
          (case new_items flts env ps (it_items it) afterTXID f of
             (LoopFail e, cur, f') \<Rightarrow> (close_with ''close level 0 ltx iterator'' it (Some e), cur, f')
           | (LoopReturn, cur, f') \<Rightarrow> (close_with ''close level 0 ltx iterator'' it None, cur, f')
           | (_, cur, f') \<Rightarrow>
               (case it_err it of
                  Some e \<Rightarrow>
                    (close_with ''close level 0 ltx iterator'' it (Some (Wrapf ''iterate level 0 ltx files'' e)), cur, f')
                | None \<Rightarrow>
                    (case close_with ''close level 0 ltx iterator'' it None of
                       Some e \<Rightarrow> (Some e, cur, f')
                     | None \<Rightarrow>
                         if it_items it = []
                         then (case fillFollowGap flts env ps cur (cur + 1) f' of
                                 (Some e, _, f'') \<Rightarrow> (Some e, cur, f'')
                               | (None, bridged, f'') \<Rightarrow> (None, bridged, f''))
                         else (None, cur, f')))))"

section \<open>The sidecar and the loop\<close>

datatype txid_op = TxCreate | TxWrite | TxSync | TxClose | TxRename | TxOpenDir | TxSyncDir | TxCloseDir

text \<open>The sidecar's value; the file is replaced by a rename. The text form of a TXID is the work of the
  package \<open>ltx\<close>.\<close>

definition WriteTXIDFile :: "(txid_op \<Rightarrow> go_error option) \<Rightarrow> u64 \<Rightarrow> u64 option \<Rightarrow> go_error option \<times> u64 option" where
  "WriteTXIDFile flt txid side =
     (case flt TxCreate of Some e \<Rightarrow> (Some (Wrapf ''create txid temp file'' e), side) | None \<Rightarrow>
     (case flt TxWrite of Some e \<Rightarrow> (Some (Wrapf ''write txid'' e), side) | None \<Rightarrow>
     (case flt TxSync of Some e \<Rightarrow> (Some (Wrapf ''sync txid file'' e), side) | None \<Rightarrow>
     (case flt TxClose of Some e \<Rightarrow> (Some (Wrapf ''close txid file'' e), side) | None \<Rightarrow>
     (case flt TxRename of Some e \<Rightarrow> (Some (Wrapf ''rename txid file'' e), side) | None \<Rightarrow>
     (case flt TxOpenDir of Some e \<Rightarrow> (Some (Wrapf ''open txid dir for sync'' e), Some txid) | None \<Rightarrow>
     (case flt TxSyncDir of Some e \<Rightarrow> (Some (Wrapf ''sync txid dir'' e), Some txid) | None \<Rightarrow>
     (flt TxCloseDir, Some txid))))))))"

definition ReadTXIDFile :: "go_error option \<Rightarrow> go_error option \<Rightarrow> u64 option \<Rightarrow> go_error + u64" where
  "ReadTXIDFile readErr parseErr side =
     (case (case readErr of Some e \<Rightarrow> Inl e | None \<Rightarrow> (case side of None \<Rightarrow> Inl ErrNotExist | Some t \<Rightarrow> Inr t)) of
        Inl e \<Rightarrow> if os_IsNotExist e then Inr 0 else Inl (Wrapf ''read txid file'' e)
      | Inr t \<Rightarrow> (case parseErr of Some e \<Rightarrow> Inl (Wrapf ''parse txid file'' e) | None \<Rightarrow> Inr t))"

record follower =
  fo_db :: "byte list"
  fo_last :: u64
  fo_side :: "u64 option"

text \<open>One tick. \<open>None\<close>: the loop goes on, an error of the poll being logged. \<open>Some e\<close>: \<open>follow\<close> returns
  \<open>e\<close>.\<close>

definition follow_tick ::
  "(file_info \<Rightarrow> db_faults) \<Rightarrow> (txid_op \<Rightarrow> go_error option) \<Rightarrow> follow_env \<Rightarrow> nat \<Rightarrow> follower \<Rightarrow>
     go_error option \<times> follower" where
  "follow_tick flts tflt env ps st =
     (case applyNewLTXFiles flts env ps (fo_last st) (fo_db st) of
        (Some e, _, f) \<Rightarrow> (None, st\<lparr>fo_db := f\<rparr>)
      | (None, newTXID, f) \<Rightarrow>
          if newTXID > fo_last st
          then (case WriteTXIDFile tflt newTXID (fo_side st) of
                  (Some e, side) \<Rightarrow> (Some (Wrapf ''write txid file'' e), st\<lparr>fo_db := f, fo_side := side\<rparr>)
                | (None, side) \<Rightarrow> (None, st\<lparr>fo_db := f, fo_side := side, fo_last := newTXID\<rparr>))
          else (None, st\<lparr>fo_db := f\<rparr>))"

text \<open>The page size in the database header.\<close>

definition header_page_size :: "byte list \<Rightarrow> go_error + u32" where
  "header_page_size f =
     (case file_ReadAt f 2 16 of
        (_, Some e) \<Rightarrow> Inl (Wrapf ''read page size from database header'' e)
      | (buf, None) \<Rightarrow>
          (let n = push_bit 8 (ucast (buf ! 0)) OR ucast (buf ! 1) :: u32
           in Inr (if n = 1 then 65536 else n)))"

end
