(* ===== verification/Follow_Consistency.thy ===== *)
theory Follow_Consistency
  imports Follow Sync_Refine
begin

text \<open>
  What follow mode promises. The history is a sequence of one-transaction LTX files, as the sync loop
  writes them; a file of a higher level merges a range of them. A follower is clean at a TXID when its
  file shows the database of that transaction, and dirty up to a higher TXID when a poll has failed in
  between. A dirty follower shows no transaction at all, but every poll keeps it repairable, across
  failing system calls, corrupt files, gaps filled from higher levels and restarts, and a poll that gets
  past the highest file ever attempted leaves it clean.
\<close>

section \<open>Histories\<close>

fun newest :: "(nat \<Rightarrow> ltx_file) \<Rightarrow> nat list \<Rightarrow> u32 \<Rightarrow> byte list option" where
  "newest tx [] p = None"
| "newest tx (i # is) p =
     (case newest tx is p of Some d \<Rightarrow> Some d | None \<Rightarrow> map_of (lpages (tx i)) p)"

definition tx_commit :: "(nat \<Rightarrow> ltx_file) \<Rightarrow> nat \<Rightarrow> u32" where
  "tx_commit tx i = hCommit (lheader (tx i))"

definition changed :: "(nat \<Rightarrow> ltx_file) \<Rightarrow> nat \<Rightarrow> u32 \<Rightarrow> bool" where
  "changed tx i p \<longleftrightarrow> map_of (lpages (tx i)) p \<noteq> None"

text \<open>A transaction writes pages of the database it leaves, and all that it adds to it, save the lock
  page.\<close>

definition history_ok :: "(nat \<Rightarrow> ltx_file) \<Rightarrow> nat \<Rightarrow> u32 \<Rightarrow> bool" where
  "history_ok tx ps lock \<longleftrightarrow>
     (\<forall>i \<ge> 1. (\<forall>(p, d) \<in> set (lpages (tx i)). p \<noteq> 0 \<and> p \<le> tx_commit tx i \<and> length d = ps) \<and>
        0 < tx_commit tx i \<and>
        (\<forall>p. p \<noteq> 0 \<and> p \<noteq> lock \<and> p \<le> tx_commit tx i \<and> (i = 1 \<or> tx_commit tx (i - 1) < p) \<longrightarrow> changed tx i p))"

text \<open>The pages of the database after transaction \<open>n\<close>.\<close>

definition hist_page :: "(nat \<Rightarrow> ltx_file) \<Rightarrow> nat \<Rightarrow> u32 \<Rightarrow> byte list" where
  "hist_page tx n p = the (newest tx [1 ..< Suc n] p)"

text \<open>What a decoded file of the range \<open>a..b\<close> may hold: pages of the range's merge, all of them when
  nothing went wrong.\<close>

definition merged_ltx :: "(nat \<Rightarrow> ltx_file) \<Rightarrow> nat \<Rightarrow> nat \<Rightarrow> decoded_ltx \<Rightarrow> bool" where
  "merged_ltx tx a b lf \<longleftrightarrow>
     hCommit (lheader (fst lf)) = tx_commit tx b \<and>
     (\<forall>(p, d) \<in> set (lpages (fst lf)). newest tx [a ..< Suc b] p = Some d \<and> p \<le> tx_commit tx b) \<and>
     (lpages_err (fst lf) \<in> {None, Some EOF} \<and> snd lf = None \<longrightarrow>
        (\<forall>p \<le> tx_commit tx b. newest tx [a ..< Suc b] p \<noteq> None \<longrightarrow> p \<in> fst ` set (lpages (fst lf))))"

definition env_ok :: "(nat \<Rightarrow> ltx_file) \<Rightarrow> nat \<Rightarrow> follow_env \<Rightarrow> bool" where
  "env_ok tx lim env \<longleftrightarrow>
     (\<forall>level seek m it. fe_list env level seek m = Inr it \<longrightarrow>
        (\<forall>info \<in> set (it_items it). 1 \<le> MinTXID info \<and> MinTXID info \<le> MaxTXID info \<and> unat (MaxTXID info) \<le> lim)) \<and>
     (\<forall>level mn mx lf. fe_open env level mn mx = Inr (Inr lf) \<longrightarrow> merged_ltx tx (unat mn) (unat mx) lf)"

section \<open>Newest versions\<close>

lemma upt_split: "a \<le> b \<Longrightarrow> b \<le> c \<Longrightarrow> [a ..< c] = [a ..< b] @ [b ..< c]"
  using upt_add_eq_append [of a b "c - b"] by simp

lemma newest_append:
  "newest tx (xs @ ys) p = (case newest tx ys p of Some d \<Rightarrow> Some d | None \<Rightarrow> newest tx xs p)"
  by (induction xs) (auto split: option.splits)

lemma newest_None: "newest tx is p = None \<longleftrightarrow> (\<forall>i \<in> set is. \<not> changed tx i p)"
  by (induction "is") (auto simp: changed_def split: option.splits)

lemma hist_unchanged:
  assumes "n \<le> m" "\<forall>i. n < i \<and> i \<le> m \<longrightarrow> \<not> changed tx i p"
  shows "hist_page tx m p = hist_page tx n p"
proof -
  have "[1 ..< Suc m] = [1 ..< Suc n] @ [Suc n ..< Suc m]" by (rule upt_split) (use assms(1) in simp_all)
  moreover have "newest tx [Suc n ..< Suc m] p = None" using assms(2) by (simp add: newest_None del: upt_Suc)
  ultimately show ?thesis by (simp add: hist_page_def newest_append del: upt_Suc)
qed

lemma hist_newest:
  assumes "newest tx [a ..< Suc b] p = Some d" "1 \<le> a" "a \<le> b"
  shows "hist_page tx b p = d"
proof -
  have "[1 ..< Suc b] = [1 ..< a] @ [a ..< Suc b]" by (rule upt_split) (use assms(2,3) in simp_all)
  then show ?thesis using assms(1) by (simp add: hist_page_def newest_append del: upt_Suc)
qed

text \<open>Growth: a page of transaction \<open>m\<close> that was not changed since \<open>n\<close> was a page throughout.\<close>

lemma page_throughout:
  assumes "history_ok tx ps lock" "1 \<le> n" "p \<noteq> 0" "p \<noteq> lock"
    and "\<forall>i. n < i \<and> i \<le> m \<longrightarrow> \<not> changed tx i p" "p \<le> tx_commit tx m" "n \<le> j" "j \<le> m"
  shows "p \<le> tx_commit tx j"
  using assms(8,7)
proof (induction rule: inc_induct)
  case (step k)
  then have "\<not> changed tx (Suc k) p" using assms(5) by simp
  moreover have "p \<le> tx_commit tx (Suc k)" using step by simp
  ultimately have "\<not> tx_commit tx k < p"
    using assms(1,3,4) step unfolding history_ok_def by (metis One_nat_def Suc_le_mono diff_Suc_1 le_SucI le_add1 plus_1_eq_Suc)
  then show ?case by simp
qed (rule assms(6))

section \<open>Pages of a file\<close>

definition file_page :: "nat \<Rightarrow> byte list \<Rightarrow> u32 \<Rightarrow> byte list" where
  "file_page ps f p = sub (unat (p - 1) * ps) ps f"

lemma unat_pred_mult: "p \<noteq> 0 \<Longrightarrow> unat (p - 1 :: u32) * ps + ps = unat p * ps"
proof -
  assume "p \<noteq> 0"
  then have "unat p = Suc (unat (p - 1))" by (simp add: unat_minus_one unat_gt_0)
  then show ?thesis by simp
qed

lemma pages_apart:
  assumes "p \<noteq> 0" "q \<noteq> 0" "p \<noteq> (q :: u32)"
  shows "unat p * ps \<le> unat (q - 1) * ps \<or> unat q * ps \<le> unat (p - 1) * ps"
proof -
  have "unat p \<noteq> unat q" using assms(3) by (simp add: word_unat_eq_iff)
  then have "unat p \<le> unat (q - 1) \<or> unat q \<le> unat (p - 1)"
    using assms(1,2) by (auto simp: unat_minus_one)
  then show ?thesis by (auto intro: mult_le_mono1)
qed

lemma file_page_write_other:
  assumes "p \<noteq> 0" "q \<noteq> 0" "p \<noteq> q" "length data \<le> ps" "unat p * ps \<le> length f"
  shows "file_page ps (write_at f (unat (q - 1) * ps) data) p = file_page ps f p"
proof -
  note pq = unat_pred_mult [OF assms(1), of ps] unat_pred_mult [OF assms(2), of ps]
  from pages_apart [OF assms(1-3), of ps] show ?thesis
  proof
    assume "unat p * ps \<le> unat (q - 1) * ps"
    then show ?thesis
      unfolding file_page_def by (intro sub_write_at_before) (use pq assms(5) in linarith)+
  next
    assume "unat q * ps \<le> unat (p - 1) * ps"
    then show ?thesis
      unfolding file_page_def by (intro sub_write_at_after) (use pq assms(4,5) in linarith)+
  qed
qed

lemma file_page_write_here:
  assumes "q \<noteq> 0" "length data \<le> ps" "unat q * ps \<le> length f \<or> length data = ps"
  shows "file_page ps (write_at f (unat (q - 1) * ps) data) q = data @ drop (length data) (file_page ps f q)"
  unfolding file_page_def
  by (rule sub_write_at_here [OF assms(2)]) (use unat_pred_mult [OF assms(1), of ps] assms(3) in simp)

lemma file_page_truncate:
  assumes "p \<noteq> 0" "unat p * ps \<le> n" "unat p * ps \<le> length f"
  shows "file_page ps (truncate_to f n) p = file_page ps f p" "unat p * ps \<le> length (truncate_to f n)"
proof -
  have "unat (p - 1) * ps + ps \<le> n" "unat (p - 1) * ps + ps \<le> length f"
    using unat_pred_mult [OF assms(1), of ps] assms(2,3) by simp_all
  then show "file_page ps (truncate_to f n) p = file_page ps f p"
    by (simp add: file_page_def truncate_to_def sub_take sub_append_left)
  show "unat p * ps \<le> length (truncate_to f n)" using assms(2) by (simp add: truncate_to_def)
qed

text \<open>Contents are compared without the header bytes that follow mode rewrites.\<close>

definition strip_header :: "u32 \<Rightarrow> byte list \<Rightarrow> byte list" where
  "strip_header p d = fix_header (0, 0, 0, 0) p d"

definition rewritten :: "nat set" where
  "rewritten = {18, 19, 24, 25, 26, 27}"

lemma length_fix_header [simp]: "length (fix_header rnd p d) = length d"
  by (cases rnd) (simp add: fix_header_def)

lemma length_strip_header [simp]: "length (strip_header p d) = length d"
  by (simp add: strip_header_def)

lemma fix_header_nth:
  "i < length d \<Longrightarrow> p \<noteq> 1 \<or> length d < 28 \<or> i \<notin> rewritten \<Longrightarrow> fix_header rnd p d ! i = d ! i"
  by (cases rnd) (auto simp: fix_header_def rewritten_def)

lemma strip_header_eq:
  "strip_header p d = strip_header p d' \<longleftrightarrow>
     length d = length d' \<and>
     (\<forall>i < length d. p \<noteq> 1 \<or> length d < 28 \<or> i \<notin> rewritten \<longrightarrow> d ! i = d' ! i)" (is "?l \<longleftrightarrow> ?r")
proof
  assume l: ?l
  then have len: "length d = length d'" by (metis length_strip_header)
  have "d ! i = d' ! i" if "i < length d" "p \<noteq> 1 \<or> length d < 28 \<or> i \<notin> rewritten" for i
    using l fix_header_nth [of i d p] fix_header_nth [of i d' p] that len by (metis strip_header_def)
  with len show ?r by blast
next
  assume r: ?r
  show ?l
  proof (rule nth_equalityI)
    fix i assume "i < length (strip_header p d)"
    then have i: "i < length d" by simp
    show "strip_header p d ! i = strip_header p d' ! i"
    proof (cases "p \<noteq> 1 \<or> length d < 28 \<or> i \<notin> rewritten")
      case True
      then show ?thesis using r i by (simp add: strip_header_def fix_header_nth)
    next
      case False
      then show ?thesis using r i by (auto simp: strip_header_def fix_header_def rewritten_def)
    qed
  qed (use r in simp)
qed

lemma strip_fix_header: "strip_header p (fix_header rnd p d) = strip_header p d"
  by (simp add: strip_header_eq fix_header_nth)

lemma strip_header_mix:
  assumes "strip_header p new = strip_header p old"
  shows "strip_header p (take k new @ drop (length (take k new)) old) = strip_header p old"
  using assms by (auto simp: strip_header_eq nth_append min_def)

definition shows_page :: "(nat \<Rightarrow> ltx_file) \<Rightarrow> nat \<Rightarrow> byte list \<Rightarrow> nat \<Rightarrow> u32 \<Rightarrow> bool" where
  "shows_page tx ps f n p \<longleftrightarrow>
     unat p * ps \<le> length f \<and> strip_header p (file_page ps f p) = strip_header p (hist_page tx n p)"

section \<open>Dirty and clean\<close>

text \<open>A follower at TXID \<open>n\<close> whose file may hold pages of transactions up to \<open>hi\<close>. Its length is only
  known when there are none beyond \<open>n\<close>.\<close>

definition dirty :: "(nat \<Rightarrow> ltx_file) \<Rightarrow> nat \<Rightarrow> u32 \<Rightarrow> byte list \<Rightarrow> nat \<Rightarrow> nat \<Rightarrow> bool" where
  "dirty tx ps lock f n hi \<longleftrightarrow>
     1 \<le> n \<and> n \<le> hi \<and> (hi = n \<longrightarrow> length f = unat (tx_commit tx n) * ps) \<and>
     (\<forall>p. p \<noteq> 0 \<and> p \<noteq> lock \<and> (\<forall>i. n \<le> i \<and> i \<le> hi \<longrightarrow> p \<le> tx_commit tx i) \<and>
        (\<forall>i. n < i \<and> i \<le> hi \<longrightarrow> \<not> changed tx i p) \<longrightarrow> shows_page tx ps f n p)"

text \<open>The file shows the database of transaction \<open>n\<close>.\<close>

definition clean :: "(nat \<Rightarrow> ltx_file) \<Rightarrow> nat \<Rightarrow> u32 \<Rightarrow> byte list \<Rightarrow> nat \<Rightarrow> bool" where
  "clean tx ps lock f n \<longleftrightarrow>
     1 \<le> n \<and> length f = unat (tx_commit tx n) * ps \<and>
     (\<forall>p. p \<noteq> 0 \<and> p \<noteq> lock \<and> p \<le> tx_commit tx n \<longrightarrow> shows_page tx ps f n p)"

lemma dirty_same: "dirty tx ps lock f n n \<longleftrightarrow> clean tx ps lock f n"
  unfolding dirty_def clean_def by (metis le_antisym leD order_refl)

lemma dirty_hi: "dirty tx ps lock f n hi \<Longrightarrow> hi \<le> hi' \<Longrightarrow> dirty tx ps lock f n hi'"
  unfolding dirty_def by (cases "hi' = hi") simp_all

lemma shows_page_unchanged:
  "n \<le> m \<Longrightarrow> \<forall>i. n < i \<and> i \<le> m \<longrightarrow> \<not> changed tx i p \<Longrightarrow> shows_page tx ps f m p \<longleftrightarrow> shows_page tx ps f n p"
  by (simp add: shows_page_def hist_unchanged)

lemma dirty_back:
  assumes "dirty tx ps lock f m hi" "n \<le> m" "1 \<le> n"
  shows "dirty tx ps lock f n hi"
  unfolding dirty_def
proof (intro conjI allI impI)
  show "1 \<le> n" "n \<le> hi" using assms by (simp_all add: dirty_def)
  show "length f = unat (tx_commit tx n) * ps" if "hi = n"
    using assms that by (auto simp: dirty_def)
next
  fix p
  assume p: "p \<noteq> 0 \<and> p \<noteq> lock \<and> (\<forall>i. n \<le> i \<and> i \<le> hi \<longrightarrow> p \<le> tx_commit tx i) \<and>
    (\<forall>i. n < i \<and> i \<le> hi \<longrightarrow> \<not> changed tx i p)"
  have m: "m \<le> hi" using assms(1) by (simp add: dirty_def)
  have "shows_page tx ps f m p" using assms(1,2) p unfolding dirty_def by (meson le_less_trans order_trans)
  then show "shows_page tx ps f n p" using shows_page_unchanged [OF assms(2)] p m by fastforce
qed

section \<open>Applying one file\<close>

definition pages_ok :: "nat \<Rightarrow> (u32 \<times> byte list) list \<Rightarrow> bool" where
  "pages_ok ps pages \<longleftrightarrow> (\<forall>(q, d) \<in> set pages. q \<noteq> 0 \<and> length d = ps)"

lemma shows_page_write_other:
  assumes "shows_page tx ps f n p" "p \<noteq> 0" "q \<noteq> 0" "p \<noteq> q" "length data \<le> ps"
  shows "shows_page tx ps (write_at f (unat (q - 1) * ps) data) n p"
  using assms file_page_write_other [of p q data ps f] by (simp add: shows_page_def le_length_write_at)

lemma shows_page_rewrite:
  assumes "shows_page tx ps f n p" "p \<noteq> 0" "strip_header p d = strip_header p (hist_page tx n p)" "length d = ps"
  shows "shows_page tx ps (write_at f (unat (p - 1) * ps) (take k (fix_header rnd p d))) n p"
proof -
  have len: "unat p * ps \<le> length f" and s: "strip_header p (file_page ps f p) = strip_header p (hist_page tx n p)"
    using assms(1) by (simp_all add: shows_page_def)
  have "strip_header p (fix_header rnd p d) = strip_header p (file_page ps f p)"
    by (simp add: strip_fix_header assms(3) s)
  from strip_header_mix [OF this, of k] s
  show ?thesis
    using file_page_write_here [OF assms(2), of "take k (fix_header rnd p d)" ps f] len assms(4)
    by (simp add: shows_page_def le_length_write_at)
qed

lemma shows_page_written:
  assumes "p \<noteq> 0" "strip_header p d = strip_header p (hist_page tx n p)" "length d = ps"
  shows "shows_page tx ps (write_at f (unat (p - 1) * ps) (fix_header rnd p d)) n p"
proof (cases "ps = 0")
  case True
  then have "hist_page tx n p = []" using assms(2,3) by (metis length_0_conv length_strip_header)
  then show ?thesis using True by (simp add: shows_page_def file_page_def sub_def)
next
  case False
  then have "fix_header rnd p d \<noteq> []" using assms(3) by (metis length_fix_header list.size(3))
  then show ?thesis
    using file_page_write_here [OF assms(1), of "fix_header rnd p d" ps f] assms(2,3) unat_pred_mult [OF assms(1), of ps]
    by (simp add: shows_page_def length_write_at strip_fix_header file_page_def)
qed

lemma apply_pages_keeps:
  assumes "apply_pages flt ps pages f = (r, f')" "pages_ok ps pages" "p \<noteq> 0" "shows_page tx ps f n p"
    and "\<forall>(q, d) \<in> set pages. q = p \<longrightarrow> strip_header p d = strip_header p (hist_page tx n p)"
  shows "shows_page tx ps f' n p"
  using assms
proof (induction pages arbitrary: f)
  case (Cons x pages)
  obtain q d where x: "x = (q, d)" by (cases x)
  have q: "q \<noteq> 0" "length d = ps" using Cons.prems(2) by (simp_all add: pages_ok_def x)
  let ?data = "fix_header (df_rand flt) q d" and ?off = "unat (q - 1) * ps"
  have w: "shows_page tx ps (write_at f ?off (take k ?data)) n p" for k
  proof (cases "q = p")
    case True
    then show ?thesis using shows_page_rewrite [OF Cons.prems(4,3)] Cons.prems(5) q(2) by (simp add: x)
  next
    case False
    then show ?thesis using shows_page_write_other [OF Cons.prems(4,3) q(1)] q(2) by simp
  qed
  have w': "shows_page tx ps (write_at f ?off ?data) n p" using w [of "length d"] by simp
  show ?case
  proof (cases "df_op flt (DbWrite q)")
    case None
    then show ?thesis
      using Cons.IH [OF _ _ Cons.prems(3) w'] Cons.prems(1,2,5) by (simp add: x pages_ok_def Let_def)
  next
    case (Some e)
    then show ?thesis using w Cons.prems(1) by (auto simp: x Let_def)
  qed
qed simp

lemma apply_pages_writes:
  assumes "apply_pages flt ps pages f = (None, f')" "pages_ok ps pages" "p \<in> fst ` set pages"
    and "\<forall>(q, d) \<in> set pages. q = p \<longrightarrow> strip_header p d = strip_header p (hist_page tx n p)"
  shows "shows_page tx ps f' n p"
  using assms
proof (induction pages arbitrary: f)
  case (Cons x pages)
  obtain q d where x: "x = (q, d)" by (cases x)
  have q: "q \<noteq> 0" "length d = ps" "pages_ok ps pages" using Cons.prems(2) by (simp_all add: pages_ok_def x)
  have r: "apply_pages flt ps pages (write_at f (unat (q - 1) * ps) (fix_header (df_rand flt) q d)) = (None, f')"
    using Cons.prems(1) by (simp add: x Let_def split: option.splits)
  show ?case
  proof (cases "q = p")
    case True
    have "shows_page tx ps (write_at f (unat (q - 1) * ps) (fix_header (df_rand flt) q d)) n p"
      using shows_page_written [of p d tx n ps] True q Cons.prems(4) by (simp add: x)
    from apply_pages_keeps [OF r q(3) _ this] show ?thesis using True q(1) Cons.prems(4) by simp
  next
    case False
    then show ?thesis using Cons.IH [OF r q(3)] Cons.prems(3,4) by (auto simp: x)
  qed
qed simp

lemma newest_Some: "newest tx is p = Some d \<Longrightarrow> \<exists>i \<in> set is. (p, d) \<in> set (lpages (tx i))"
  by (induction "is") (auto split: option.splits dest: map_of_SomeD)

lemma merged_pages:
  assumes "history_ok tx ps lock" "merged_ltx tx a b lf" "1 \<le> a" "a \<le> b"
  shows "pages_ok ps (lpages (fst lf))" "(p, d) \<in> set (lpages (fst lf)) \<Longrightarrow> d = hist_page tx b p"
proof -
  have n: "newest tx [a ..< Suc b] q = Some d" if "(q, d) \<in> set (lpages (fst lf))" for q d
    using assms(2) that unfolding merged_ltx_def by (auto simp del: upt_Suc)
  have "q \<noteq> 0 \<and> length d = ps" if m: "(q, d) \<in> set (lpages (fst lf))" for q d
  proof -
    obtain i where "i \<in> set [a ..< Suc b]" "(q, d) \<in> set (lpages (tx i))"
      using newest_Some [OF n [OF m]] by blast
    moreover have "1 \<le> i" using calculation(1) assms(3) by auto
    ultimately show ?thesis using assms(1) unfolding history_ok_def by fastforce
  qed
  then show "pages_ok ps (lpages (fst lf))" by (auto simp: pages_ok_def)
  show "(p, d) \<in> set (lpages (fst lf)) \<Longrightarrow> d = hist_page tx b p"
    using hist_newest [OF n assms(3,4)] by simp
qed

text \<open>The pages of a partly applied file keep every page it does not change since \<open>n\<close>.\<close>

lemma dirty_pages:
  assumes h: "history_ok tx ps lock" and lf: "merged_ltx tx a b lf" "1 \<le> a" "a \<le> b" "n < b"
    and d: "dirty tx ps lock f n hi" and run: "apply_pages flt ps (lpages (fst lf)) f = (r, f')"
  shows "dirty tx ps lock f' n (max hi b)"
  unfolding dirty_def
proof (intro conjI allI impI)
  show "1 \<le> n" "n \<le> max hi b" using d lf(4) by (simp_all add: dirty_def)
  show "length f' = unat (tx_commit tx n) * ps" if "max hi b = n" using that lf(4) by simp
next
  fix p
  assume p: "p \<noteq> 0 \<and> p \<noteq> lock \<and> (\<forall>i. n \<le> i \<and> i \<le> max hi b \<longrightarrow> p \<le> tx_commit tx i) \<and>
    (\<forall>i. n < i \<and> i \<le> max hi b \<longrightarrow> \<not> changed tx i p)"
  then have "shows_page tx ps f n p" using dirty_hi [OF d, of "max hi b"] by (simp add: dirty_def)
  moreover have "hist_page tx b p = hist_page tx n p"
    by (rule hist_unchanged) (use p lf(4) in auto)
  then have "\<forall>(q, d) \<in> set (lpages (fst lf)). q = p \<longrightarrow> strip_header p d = strip_header p (hist_page tx n p)"
    using merged_pages(2) [OF h lf(1-3)] by fastforce
  ultimately show "shows_page tx ps f' n p"
    using apply_pages_keeps [OF run merged_pages(1) [OF h lf(1-3)]] p by blast
qed

lemma dirty_truncate:
  assumes "dirty tx ps lock f n hi" "b \<le> hi" "n \<le> b"
  shows "dirty tx ps lock (truncate_to f (unat (tx_commit tx b) * ps)) n hi"
  unfolding dirty_def
proof (intro conjI allI impI)
  show "1 \<le> n" "n \<le> hi" using assms(1) by (simp_all add: dirty_def)
  show "length (truncate_to f (unat (tx_commit tx b) * ps)) = unat (tx_commit tx n) * ps" if "hi = n"
    using assms(2,3) that by (simp add: truncate_to_def)
next
  fix p
  assume p: "p \<noteq> 0 \<and> p \<noteq> lock \<and> (\<forall>i. n \<le> i \<and> i \<le> hi \<longrightarrow> p \<le> tx_commit tx i) \<and>
    (\<forall>i. n < i \<and> i \<le> hi \<longrightarrow> \<not> changed tx i p)"
  then have s: "shows_page tx ps f n p" using assms(1) by (simp add: dirty_def)
  have "p \<le> tx_commit tx b" using p assms(2,3) by blast
  then have "unat p * ps \<le> unat (tx_commit tx b) * ps" by (simp add: word_le_nat_alt)
  with s p file_page_truncate [of p ps "unat (tx_commit tx b) * ps" f]
  show "shows_page tx ps (truncate_to f (unat (tx_commit tx b) * ps)) n p" by (simp add: shows_page_def)
qed

text \<open>The whole file moves the follower on.\<close>

lemma dirty_applied:
  assumes h: "history_ok tx ps lock" and lf: "merged_ltx tx a b lf" "1 \<le> a" "a \<le> b" "a \<le> n + 1" "n < b"
    and all: "lpages_err (fst lf) \<in> {None, Some EOF}" "snd lf = None"
    and d: "dirty tx ps lock f n hi" and run: "apply_pages flt ps (lpages (fst lf)) f = (None, f1)"
  shows "dirty tx ps lock (truncate_to f1 (unat (tx_commit tx b) * ps)) b (max hi b)"
  unfolding dirty_def
proof (intro conjI allI impI)
  show "1 \<le> b" "b \<le> max hi b" using lf by simp_all
  show "length (truncate_to f1 (unat (tx_commit tx b) * ps)) = unat (tx_commit tx b) * ps"
    by (simp add: truncate_to_def)
next
  fix p
  assume p: "p \<noteq> 0 \<and> p \<noteq> lock \<and> (\<forall>i. b \<le> i \<and> i \<le> max hi b \<longrightarrow> p \<le> tx_commit tx i) \<and>
    (\<forall>i. b < i \<and> i \<le> max hi b \<longrightarrow> \<not> changed tx i p)"
  then have pb: "p \<le> tx_commit tx b" by simp
  have e: "d = hist_page tx b p" if "(p, d) \<in> set (lpages (fst lf))" for d
    by (rule merged_pages(2) [OF h lf(1-3) that])
  have "shows_page tx ps f1 b p"
  proof (cases "p \<in> fst ` set (lpages (fst lf))")
    case True
    show ?thesis
      by (rule apply_pages_writes [OF run merged_pages(1) [OF h lf(1-3)] True]) (use e in auto)
  next
    case False
    then have "newest tx [a ..< Suc b] p = None"
      using lf(1) all pb unfolding merged_ltx_def by (auto simp del: upt_Suc)
    then have u: "\<forall>i. n < i \<and> i \<le> b \<longrightarrow> \<not> changed tx i p" using lf(4) by (auto simp: newest_None simp del: upt_Suc)
    then have u': "\<forall>i. n < i \<and> i \<le> max hi b \<longrightarrow> \<not> changed tx i p" using p by (meson not_less)
    have n1: "1 \<le> n" using d by (simp add: dirty_def)
    have "p \<le> tx_commit tx i" if "n \<le> i" "i \<le> max hi b" for i
      using page_throughout [OF h n1 _ _ u pb, of i] p that by (meson nle_le)
    then have "shows_page tx ps f1 n p"
      using dirty_pages [OF h lf(1-3,5) d run] p u' unfolding dirty_def by blast
    then show ?thesis using shows_page_unchanged [OF _ u] lf(5) by simp
  qed
  moreover have "unat p * ps \<le> unat (tx_commit tx b) * ps" using pb by (simp add: word_le_nat_alt)
  ultimately show "shows_page tx ps (truncate_to f1 (unat (tx_commit tx b) * ps)) b p"
    using p file_page_truncate [of p ps "unat (tx_commit tx b) * ps" f1] by (simp add: shows_page_def)
qed

lemma applyLTXFile_dirty:
  assumes h: "history_ok tx ps lock" and env: "env_ok tx lim env"
    and i: "1 \<le> MinTXID info" "MinTXID info \<le> MaxTXID info" "unat (MinTXID info) \<le> n + 1" "n < unat (MaxTXID info)"
    and d: "dirty tx ps lock f n hi" and run: "applyLTXFile flts env ps info f = (r, f')"
  shows "dirty tx ps lock f' (if r = None then unat (MaxTXID info) else n) (max hi (unat (MaxTXID info)))"
proof -
  let ?a = "unat (MinTXID info)" and ?b = "unat (MaxTXID info)"
  have ab: "1 \<le> ?a" "?a \<le> ?b" using i(1,2) by (simp_all add: word_le_nat_alt)
  have keep: "dirty tx ps lock f n (max hi ?b)" by (rule dirty_hi [OF d]) simp
  show ?thesis
  proof (cases "\<exists>lf. fe_open env (Level info) (MinTXID info) (MaxTXID info) = Inr (Inr lf) \<and> df_op (flts info) DbLock = None")
    case True
    then obtain lf where lf: "fe_open env (Level info) (MinTXID info) (MaxTXID info) = Inr (Inr lf)"
      "df_op (flts info) DbLock = None" by blast
    then have m: "merged_ltx tx ?a ?b lf" using env unfolding env_ok_def by blast
    obtain r1 f1 where p: "apply_pages (flts info) ps (lpages (fst lf)) f = (r1, f1)" by force
    have d1: "dirty tx ps lock f1 n (max hi ?b)" by (rule dirty_pages [OF h m ab i(4) d p])
    have c: "hCommit (lheader (fst lf)) = tx_commit tx ?b" using m by (simp add: merged_ltx_def)
    have c0: "0 < tx_commit tx ?b" using h ab by (auto simp: history_ok_def)
    let ?f2 = "truncate_to f1 (unat (tx_commit tx ?b) * ps)"
    have d2: "dirty tx ps lock ?f2 n (max hi ?b)" by (rule dirty_truncate [OF d1]) (use i(4) in simp_all)
    consider "f' = f1" "r \<noteq> None" | "f' = ?f2" "r \<noteq> None"
      | "f' = ?f2" "r = None" "r1 = None" "lpages_err (fst lf) \<in> {None, Some EOF}" "snd lf = None"
      using run lf p c c0
      by (cases lf) (auto simp: applyLTXFile_def Let_def split: option.splits if_splits)
    then show ?thesis
    proof cases
      case 3
      then show ?thesis using dirty_applied [OF h m ab i(3,4) _ _ d] p by simp
    qed (use d1 d2 in auto)
  next
    case False
    then have "f' = f" "r \<noteq> None"
      using run by (auto simp: applyLTXFile_def Let_def split: sum.splits option.splits)
    then show ?thesis using keep by auto
  qed
qed

section \<open>A poll\<close>

text \<open>A poll that succeeds leaves the follower at its new TXID, dirty no further than it was; one that
  fails leaves it repairable.\<close>

definition moved ::
  "(nat \<Rightarrow> ltx_file) \<Rightarrow> nat \<Rightarrow> u32 \<Rightarrow> nat \<Rightarrow> bool \<Rightarrow> u64 \<Rightarrow> nat \<Rightarrow> u64 \<Rightarrow> byte list \<Rightarrow> bool" where
  "moved tx ps lock lim ok cur hi cur' f' \<longleftrightarrow>
     cur \<le> cur' \<and> unat cur' \<le> max hi lim \<and>
     (if ok then dirty tx ps lock f' (unat cur') (max hi (unat cur'))
      else \<exists>hi' \<ge> hi. hi' \<le> max hi lim \<and> dirty tx ps lock f' (unat cur) hi')"

lemma moved_trans:
  assumes "moved tx ps lock lim True cur hi cur1 f1" "moved tx ps lock lim ok cur1 (max hi (unat cur1)) cur2 f2"
    and "1 \<le> unat cur"
  shows "moved tx ps lock lim ok cur hi cur2 f2"
proof (cases ok)
  case True
  have "unat cur1 \<le> unat cur2" using assms(2) by (simp add: moved_def word_le_nat_alt)
  then have "max (max hi (unat cur1)) (unat cur2) = max hi (unat cur2)" by linarith
  then show ?thesis using assms(1,2) True by (auto simp: moved_def max_def split: if_splits)
next
  case False
  obtain hi' where h: "max hi (unat cur1) \<le> hi'" "dirty tx ps lock f2 (unat cur1) hi'"
    "hi' \<le> max (max hi (unat cur1)) lim"
    using assms(2) False by (auto simp: moved_def)
  have c: "unat cur \<le> unat cur1" using assms(1) by (simp add: moved_def word_le_nat_alt)
  have "dirty tx ps lock f2 (unat cur) hi'" by (rule dirty_back [OF h(2) c assms(3)])
  moreover have "hi \<le> hi'" "hi' \<le> max hi lim" using h(1,3) assms(1) by (auto simp: moved_def max_def split: if_splits)
  ultimately show ?thesis using False assms(1,2) by (auto simp: moved_def max_def split: if_splits)
qed

lemma moved_same: "dirty tx ps lock f (unat cur) hi \<Longrightarrow> moved tx ps lock lim ok cur hi cur f"
  by (auto simp: moved_def dirty_def max_def)

definition items_ok :: "nat \<Rightarrow> file_info list \<Rightarrow> bool" where
  "items_ok lim items \<longleftrightarrow>
     (\<forall>info \<in> set items. 1 \<le> MinTXID info \<and> MinTXID info \<le> MaxTXID info \<and> unat (MaxTXID info) \<le> lim)"

lemma apply_moved:
  assumes h: "history_ok tx ps lock" and env: "env_ok tx lim env"
    and i: "items_ok lim [info]" "\<not> MinTXID info > cur + 1" "\<not> MaxTXID info \<le> cur"
    and d: "dirty tx ps lock f (unat cur) hi" and run: "applyLTXFile flts env ps info f = (r, f')"
  shows "moved tx ps lock lim (r = None) cur hi (if r = None then MaxTXID info else cur) f'"
proof -
  have "unat (MinTXID info) \<le> unat (cur + 1)" using i(2) by (simp add: word_le_nat_alt not_less)
  also have "\<dots> \<le> unat cur + 1" by (simp add: unat_word_ariths)
  finally have mn: "unat (MinTXID info) \<le> unat cur + 1" .
  have mx: "unat cur < unat (MaxTXID info)" using i(3) by (simp add: word_less_nat_alt not_le)
  have "dirty tx ps lock f' (if r = None then unat (MaxTXID info) else unat cur) (max hi (unat (MaxTXID info)))"
    using applyLTXFile_dirty [OF h env _ _ mn mx d run] i(1) by (simp add: items_ok_def)
  moreover have "unat (MaxTXID info) \<le> lim" "unat cur \<le> hi"
    using i(1) d by (simp_all add: items_ok_def dirty_def)
  moreover have "cur \<le> MaxTXID info" using i(3) by simp
  ultimately show ?thesis
    by (cases "r = None") (auto simp: moved_def le_max_iff_disj intro: exI [of _ "max hi (unat (MaxTXID info))"])
qed

lemma fill_items_moved:
  assumes "history_ok tx ps lock" "env_ok tx lim env" "items_ok lim items"
    and "dirty tx ps lock f (unat cur) hi" "fill_items flts env ps gapMin items cur f = (r, cur', f')"
  shows "moved tx ps lock lim (\<forall>e. r \<noteq> LoopFail e) cur hi cur' f'"
  using assms(3-5)
proof (induction items arbitrary: cur f hi)
  case Nil
  then show ?case by (auto intro: moved_same)
next
  case (Cons info items)
  have ok: "items_ok lim [info]" "items_ok lim items" using Cons.prems(1) by (simp_all add: items_ok_def)
  have n1: "1 \<le> unat cur" using Cons.prems(2) by (simp add: dirty_def)
  show ?case
  proof (cases "MinTXID info > cur + 1 \<or> MaxTXID info \<le> cur")
    case True
    then show ?thesis using Cons ok(2) by (auto intro: moved_same split: if_splits)
  next
    case False
    obtain q f1 where a: "applyLTXFile flts env ps info f = (q, f1)" by force
    have m: "moved tx ps lock lim (q = None) cur hi (if q = None then MaxTXID info else cur) f1"
      using apply_moved [OF assms(1,2) ok(1) _ _ Cons.prems(2) a] False by blast
    show ?thesis
    proof (cases "q = None \<and> \<not> MaxTXID info + 1 \<ge> gapMin")
      case True
      then have "fill_items flts env ps gapMin items (MaxTXID info) f1 = (r, cur', f')"
        using Cons.prems(3) False a by simp
      moreover have "dirty tx ps lock f1 (unat (MaxTXID info)) (max hi (unat (MaxTXID info)))"
        using m True by (simp add: moved_def)
      ultimately have "moved tx ps lock lim (\<forall>e. r \<noteq> LoopFail e) (MaxTXID info) (max hi (unat (MaxTXID info))) cur' f'"
        using Cons.IH ok(2) by blast
      then show ?thesis using moved_trans m True n1 by simp
    next
      case rest: False
      then show ?thesis using Cons.prems(3) False a m by (auto split: option.splits)
    qed
  qed
qed

lemma env_items: "env_ok tx lim env \<Longrightarrow> fe_list env level seek m = Inr it \<Longrightarrow> items_ok lim (it_items it)"
  unfolding env_ok_def items_ok_def by blast

lemma moved_weaken:
  assumes "moved tx ps lock lim True cur hi cur' f" "1 \<le> unat cur"
  shows "moved tx ps lock lim ok cur hi cur' f"
proof (cases ok)
  case False
  have "dirty tx ps lock f (unat cur) (max hi (unat cur'))"
    by (rule dirty_back) (use assms in \<open>auto simp: moved_def word_le_nat_alt\<close>)
  moreover have "max hi (unat cur') \<le> max hi lim" using assms(1) by (simp add: moved_def)
  ultimately show ?thesis using assms False by (auto simp: moved_def intro: exI [of _ "max hi (unat cur')"])
qed (use assms in simp)

lemma close_with_None: "close_with msg it r = None \<longleftrightarrow> r = None \<and> it_close it = None"
  by (auto simp: close_with_def split: option.splits)

lemma fill_levels_moved:
  assumes "history_ok tx ps lock" "env_ok tx lim env"
    and "dirty tx ps lock f (unat cur) hi" "fill_levels flts env ps gapMin levels cur f = (r, cur', f')"
  shows "moved tx ps lock lim (r = None) cur hi cur' f'"
  using assms(3,4)
proof (induction levels arbitrary: f hi)
  case Nil
  then show ?case by (auto intro: moved_same)
next
  case (Cons level levels)
  have n1: "1 \<le> unat cur" using Cons.prems(1) by (simp add: dirty_def)
  show ?case
  proof (cases "fe_list env level 0 False")
    case (Inl e)
    then show ?thesis using Cons.prems by (auto intro: moved_same)
  next
    case (Inr it)
    obtain q c1 f1 where q: "fill_items flts env ps gapMin (it_items it) cur f = (q, c1, f1)" by (metis prod_cases3)
    note m = fill_items_moved [OF assms(1,2) env_items [OF assms(2) Inr] Cons.prems(1) q]
    show ?thesis
    proof (cases "\<exists>e. q = LoopFail e")
      case True
      then show ?thesis using Cons.prems(2) Inr q m by (auto simp: close_with_def split: option.splits)
    next
      case False
      then have ok: "moved tx ps lock lim True cur hi c1 f1" using m by simp
      show ?thesis
      proof (cases "cur' = c1 \<and> f' = f1")
        case True
        then show ?thesis using moved_weaken [OF ok n1] by simp
      next
        case rest: False
        have c: "fill_levels flts env ps gapMin levels cur f1 = (r, cur', f') \<and> \<not> c1 > cur"
          using Cons.prems(2) Inr q False rest by (cases q) (auto split: option.splits if_splits)
        then have "c1 = cur" using ok by (auto simp: moved_def)
        then have "dirty tx ps lock f1 (unat cur) hi"
          using ok Cons.prems(1) by (auto simp: moved_def dirty_def max_def)
        then show ?thesis using Cons.IH c by blast
      qed
    qed
  qed
qed

lemma moved_dirty: "moved tx ps lock lim True cur hi cur' f \<Longrightarrow> dirty tx ps lock f (unat cur') (max hi (unat cur'))"
  by (simp add: moved_def)

lemma new_items_moved:
  assumes "history_ok tx ps lock" "env_ok tx lim env" "items_ok lim items"
    and "dirty tx ps lock f (unat cur) hi" "new_items flts env ps items cur f = (r, cur', f')"
  shows "moved tx ps lock lim (\<forall>e. r \<noteq> LoopFail e) cur hi cur' f'"
  using assms(3-5)
proof (induction items arbitrary: cur f hi)
  case Nil
  then show ?case by (auto intro: moved_same)
next
  case (Cons info items)
  have ok: "items_ok lim [info]" "items_ok lim items" using Cons.prems(1) by (simp_all add: items_ok_def)
  have n1: "1 \<le> unat cur" using Cons.prems(2) by (simp add: dirty_def)
  obtain e c1 f1 where g: "(if MinTXID info > cur + 1
      then fillFollowGap flts env ps cur (MinTXID info) f else (None, cur, f)) = (e, c1, f1)" by (metis prod_cases3)
  have m: "moved tx ps lock lim (e = None) cur hi c1 f1"
  proof (cases "MinTXID info > cur + 1")
    case True
    then show ?thesis
      using g fill_levels_moved [OF assms(1,2) Cons.prems(2)] by (auto simp: fillFollowGap_def)
  next
    case False
    then show ?thesis using g Cons.prems(2) by (auto intro: moved_same)
  qed
  show ?case
  proof (cases e)
    case (Some x)
    then have "cur' = cur" "f' = f1" "r = LoopFail x" using Cons.prems(3) g by simp_all
    moreover have "unat cur \<le> max hi lim" using Cons.prems(2) by (simp add: dirty_def le_max_iff_disj)
    ultimately show ?thesis using m Some by (auto simp: moved_def)
  next
    case None
    then have m1: "moved tx ps lock lim True cur hi c1 f1" using m by simp
    note d1 = moved_dirty [OF m1]
    show ?thesis
    proof (cases "MaxTXID info \<le> c1")
      case True
      then have "new_items flts env ps items c1 f1 = (r, cur', f')" using Cons.prems(3) g None by simp
      from Cons.IH [OF ok(2) d1 this] show ?thesis using moved_trans [OF m1 _ n1] by simp
    next
      case new: False
      show ?thesis
      proof (cases "MinTXID info > c1 + 1")
        case True
        then show ?thesis using Cons.prems(3) g None new m1 by simp
      next
        case False
        obtain q f2 where a: "applyLTXFile flts env ps info f1 = (q, f2)" by force
        have m2: "moved tx ps lock lim (q = None) c1 (max hi (unat c1)) (if q = None then MaxTXID info else c1) f2"
          by (rule apply_moved [OF assms(1,2) ok(1) False new d1 a])
        have m3: "moved tx ps lock lim (q = None) cur hi (if q = None then MaxTXID info else c1) f2"
          by (rule moved_trans [OF m1 m2 n1])
        show ?thesis
        proof (cases q)
          case None
          then have "new_items flts env ps items (MaxTXID info) f2 = (r, cur', f')"
            using Cons.prems(3) g \<open>e = None\<close> new False a by simp
          moreover have m4: "moved tx ps lock lim True cur hi (MaxTXID info) f2" using m3 None by simp
          ultimately show ?thesis
            using Cons.IH [OF ok(2) moved_dirty [OF m4]] moved_trans [OF m4 _ n1] by blast
        next
          case (Some x)
          then show ?thesis using Cons.prems(3) g None new False a m3 by auto
        qed
      qed
    qed
  qed
qed

lemma applyNewLTXFiles_moved:
  assumes "history_ok tx ps lock" "env_ok tx lim env"
    and "dirty tx ps lock f (unat cur) hi" "applyNewLTXFiles flts env ps cur f = (r, cur', f')"
  shows "moved tx ps lock lim (r = None) cur hi cur' f'"
proof (cases "fe_list env 0 (cur + 1) False")
  case (Inl e)
  then show ?thesis using assms(3,4) by (auto simp: applyNewLTXFiles_def intro: moved_same)
next
  case (Inr it)
  have n1: "1 \<le> unat cur" using assms(3) by (simp add: dirty_def)
  obtain q c1 f1 where q: "new_items flts env ps (it_items it) cur f = (q, c1, f1)" by (metis prod_cases3)
  note m = new_items_moved [OF assms(1,2) env_items [OF assms(2) Inr] assms(3) q]
  show ?thesis
  proof (cases "\<exists>e. q = LoopFail e")
    case True
    then show ?thesis using assms(4) Inr q m by (auto simp: applyNewLTXFiles_def close_with_def split: option.splits)
  next
    case False
    then have ok: "moved tx ps lock lim True cur hi c1 f1" using m by simp
    show ?thesis
    proof (cases "cur' = c1 \<and> f' = f1")
      case True
      then show ?thesis using moved_weaken [OF ok n1] by simp
    next
      case rest: False
      then obtain e c2 where g: "fillFollowGap flts env ps c1 (c1 + 1) f1 = (e, c2, f')"
        "r = e" "cur' = (if e = None then c2 else c1)"
        using assms(4) Inr q False
        by (cases q) (auto simp: applyNewLTXFiles_def split: option.splits if_splits prod.splits)
      have m2: "moved tx ps lock lim (e = None) c1 (max hi (unat c1)) c2 f'"
        by (rule fill_levels_moved [OF assms(1,2) moved_dirty [OF ok] g(1) [unfolded fillFollowGap_def]])
      then have "moved tx ps lock lim (r = None) c1 (max hi (unat c1)) cur' f'"
        using g(2,3) by (auto simp: moved_def)
      from moved_trans [OF ok this n1] show ?thesis .
    qed
  qed
qed

section \<open>The follower as a state machine\<close>

text \<open>\<open>lim\<close> is the newest TXID the replica has held. A poll may meet any listing and any failing call; a
  \<open>follow\<close> that has returned, and a process that was killed between two polls, goes on from the
  sidecar.\<close>

inductive reach_follow :: "(nat \<Rightarrow> ltx_file) \<Rightarrow> nat \<Rightarrow> u32 \<Rightarrow> nat \<Rightarrow> follower \<Rightarrow> bool" for tx ps lock where
  restored: "clean tx ps lock (fo_db st) (unat (fo_last st)) \<Longrightarrow> fo_side st = Some (fo_last st) \<Longrightarrow>
     unat (fo_last st) \<le> lim \<Longrightarrow> reach_follow tx ps lock lim st"
| grows: "reach_follow tx ps lock lim st \<Longrightarrow> lim \<le> lim' \<Longrightarrow> reach_follow tx ps lock lim' st"
| poll: "reach_follow tx ps lock lim st \<Longrightarrow> env_ok tx lim env \<Longrightarrow>
     follow_tick flts tflt env ps st = (None, st') \<Longrightarrow> reach_follow tx ps lock lim st'"
| stopped: "reach_follow tx ps lock lim st \<Longrightarrow> env_ok tx lim env \<Longrightarrow>
     follow_tick flts tflt env ps st = (Some e, st') \<Longrightarrow> ReadTXIDFile None None (fo_side st') = Inr t \<Longrightarrow>
     reach_follow tx ps lock lim (st'\<lparr>fo_last := t\<rparr>)"
| restarted: "reach_follow tx ps lock lim st \<Longrightarrow> ReadTXIDFile None None (fo_side st) = Inr t \<Longrightarrow>
     reach_follow tx ps lock lim (st\<lparr>fo_last := t\<rparr>)"

definition repairable :: "(nat \<Rightarrow> ltx_file) \<Rightarrow> nat \<Rightarrow> u32 \<Rightarrow> nat \<Rightarrow> follower \<Rightarrow> bool" where
  "repairable tx ps lock lim st \<longleftrightarrow>
     (\<exists>hi \<le> lim. dirty tx ps lock (fo_db st) (unat (fo_last st)) hi) \<and>
     (\<exists>t. fo_side st = Some t \<and> 1 \<le> t \<and> t \<le> fo_last st)"

lemma WriteTXIDFile_cases:
  "WriteTXIDFile flt txid side = (r, side') \<Longrightarrow> side' = Some txid \<or> r \<noteq> None \<and> side' = side"
  by (auto simp: WriteTXIDFile_def split: option.splits)

lemma tick_repairable:
  assumes h: "history_ok tx ps lock" and env: "env_ok tx lim env" and st: "repairable tx ps lock lim st"
    and run: "follow_tick flts tflt env ps st = (r, st')"
  shows "if r = None then repairable tx ps lock lim st'
    else \<exists>t. fo_side st' = Some t \<and> repairable tx ps lock lim (st'\<lparr>fo_last := t\<rparr>)"
proof -
  obtain hi where hi: "hi \<le> lim" "dirty tx ps lock (fo_db st) (unat (fo_last st)) hi"
    using st by (auto simp: repairable_def)
  obtain t where t: "fo_side st = Some t" "1 \<le> t" "t \<le> fo_last st" using st by (auto simp: repairable_def)
  obtain e new f where p: "applyNewLTXFiles flts env ps (fo_last st) (fo_db st) = (e, new, f)" by (metis prod_cases3)
  have m: "moved tx ps lock lim (e = None) (fo_last st) hi new f"
    by (rule applyNewLTXFiles_moved [OF h env hi(2) p])
  have l1: "1 \<le> unat (fo_last st)" using hi(2) by (simp add: dirty_def)
  obtain hi' where bk: "hi' \<le> lim" "dirty tx ps lock f (unat (fo_last st)) hi'"
  proof (cases "e = None")
    case True
    then have "moved tx ps lock lim False (fo_last st) hi new f" using moved_weaken [OF _ l1] m by simp
    then show thesis using that hi(1) by (auto simp: moved_def max_absorb2)
  next
    case False
    then show thesis using that m hi(1) by (auto simp: moved_def max_absorb2)
  qed
  have t1: "1 \<le> unat t" using t(2) by (simp add: word_le_nat_alt)
  have at_t: "dirty tx ps lock f (unat t) hi'"
    by (rule dirty_back [OF bk(2) _ t1]) (use t(3) in \<open>simp add: word_le_nat_alt\<close>)
  show ?thesis
  proof (cases "e = None \<and> new > fo_last st")
    case False
    then have "r = None \<and> st' = st\<lparr>fo_db := f\<rparr>" using run p by (auto simp: follow_tick_def split: option.splits)
    then show ?thesis using bk t by (auto simp: repairable_def)
  next
    case True
    obtain hn where new: "dirty tx ps lock f (unat new) hn" "hn \<le> lim"
      using m True hi(1) by (auto simp: moved_def max_absorb2 split: if_splits)
    obtain w side where w: "WriteTXIDFile tflt new (fo_side st) = (w, side)" by force
    note W = WriteTXIDFile_cases [OF w]
    have n1: "1 \<le> new" using True t(2,3) by (meson less_imp_le order_trans)
    show ?thesis
    proof (cases w)
      case None
      then have "r = None" "st' = st\<lparr>fo_db := f, fo_side := side, fo_last := new\<rparr>" "side = Some new"
        using run p True w W by (auto simp: follow_tick_def)
      then show ?thesis using new n1 by (auto simp: repairable_def)
    next
      case (Some x)
      then have r: "r \<noteq> None" "st' = st\<lparr>fo_db := f, fo_side := side\<rparr>" using run p True w by (auto simp: follow_tick_def)
      from W show ?thesis
      proof
        assume "side = Some new"
        then show ?thesis using r new n1 by (auto simp: repairable_def)
      next
        assume "w \<noteq> None \<and> side = fo_side st"
        then show ?thesis using r t(1,2) at_t bk(1) by (auto simp: repairable_def)
      qed
    qed
  qed
qed

lemma reach_follow_repairable:
  assumes "history_ok tx ps lock" "reach_follow tx ps lock lim st"
  shows "repairable tx ps lock lim st"
  using assms(2)
proof (induction rule: reach_follow.induct)
  case (restored st lim)
  then have "1 \<le> fo_last st" by (simp add: clean_def word_le_nat_alt)
  with restored show ?case by (auto simp: repairable_def simp flip: dirty_same)
next
  case (grows lim st lim')
  then show ?case by (auto simp: repairable_def intro: order_trans)
next
  case (poll lim st env flts tflt st')
  from tick_repairable [OF assms(1) poll(2,4,3)] show ?case by simp
next
  case (stopped lim st env flts tflt e st' t)
  from tick_repairable [OF assms(1) stopped(2,5,3)] stopped(4) show ?case by (auto simp: ReadTXIDFile_def os_IsNotExist_def)
next
  case (restarted lim st t)
  obtain hi where hi: "hi \<le> lim" "dirty tx ps lock (fo_db st) (unat (fo_last st)) hi"
    using restarted(3) by (auto simp: repairable_def)
  have t: "fo_side st = Some t" "1 \<le> t" "t \<le> fo_last st"
    using restarted(2,3) by (auto simp: repairable_def ReadTXIDFile_def os_IsNotExist_def)
  have "dirty tx ps lock (fo_db st) (unat t) hi"
    by (rule dirty_back [OF hi(2)]) (use t in \<open>simp_all add: word_le_nat_alt\<close>)
  then show ?case using hi(1) t by (auto simp: repairable_def)
qed

section \<open>Progress\<close>

fun chain_from :: "u64 \<Rightarrow> file_info list \<Rightarrow> bool" where
  "chain_from cur [] = True"
| "chain_from cur (info # items) \<longleftrightarrow>
     MinTXID info = cur + 1 \<and> cur < MaxTXID info \<and> chain_from (MaxTXID info) items"

definition readable :: "follow_env \<Rightarrow> file_info \<Rightarrow> bool" where
  "readable env info \<longleftrightarrow>
     (case fe_open env (Level info) (MinTXID info) (MaxTXID info) of
        Inr (Inr (lf, None)) \<Rightarrow> lpages_err lf \<in> {None, Some EOF} | _ \<Rightarrow> False)"

definition no_db_faults :: "file_info \<Rightarrow> db_faults" where
  "no_db_faults info = \<lparr>df_op = (\<lambda>_. None), df_short = (\<lambda>_. 0), df_rand = (0, 0, 0, 0)\<rparr>"

lemma apply_pages_total: "(\<And>op. df_op flt op = None) \<Longrightarrow> fst (apply_pages flt ps pages f) = None"
  by (induction flt ps pages f rule: apply_pages.induct) (simp_all add: Let_def)

lemma applyLTXFile_total:
  assumes "readable env info" "\<And>op. df_op (flts info) op = None"
  shows "fst (applyLTXFile flts env ps info f) = None"
  using assms apply_pages_total [of "flts info" ps] unfolding readable_def applyLTXFile_def Let_def
  by (auto split: sum.splits option.splits prod.splits) (metis fst_conv option.distinct(1))+

lemma new_items_chain:
  assumes "chain_from cur items" "\<forall>info \<in> set items. readable env info" "\<And>info op. df_op (flts info) op = None"
  shows "\<exists>f'. new_items flts env ps items cur f =
    (LoopEnd, if items = [] then cur else MaxTXID (last items), f')"
  using assms(1,2)
proof (induction items arbitrary: cur f)
  case (Cons info items)
  obtain f1 where "applyLTXFile flts env ps info f = (None, f1)"
    using applyLTXFile_total [of env info flts] Cons.prems(2) assms(3)
    by (metis list.set_intros(1) prod.collapse)
  with Cons.IH [of "MaxTXID info" f1] Cons.prems show ?case by auto
qed simp

section \<open>Properties\<close>

text \<open>C13: Following keeps a consistent database: from a file that shows the database of the last applied
  transaction, a poll that succeeds, whatever the replica lists (level-0 files, gaps to be filled from
  any level, overlapping merged files, files it cannot open or decode), leaves a file that shows the
  database of the transaction it reports, which is not an earlier one; and when the listing continues
  at the next transaction without a gap, every file decodes and no system call fails, the poll
  succeeds and reports the last transaction listed.\<close>

theorem follow_poll_refines:
  assumes "history_ok tx ps lock" "env_ok tx lim env" "clean tx ps lock f (unat cur)"
  shows "(\<forall>flts cur' f'. applyNewLTXFiles flts env ps cur f = (None, cur', f') \<longrightarrow>
      cur \<le> cur' \<and> clean tx ps lock f' (unat cur')) \<and>
    (\<forall>it. fe_list env 0 (cur + 1) False = Inr it \<and> it_items it \<noteq> [] \<and> chain_from cur (it_items it) \<and>
        list_all (readable env) (it_items it) \<and> it_err it = None \<and> it_close it = None \<longrightarrow>
      (\<exists>f'. applyNewLTXFiles no_db_faults env ps cur f = (None, MaxTXID (last (it_items it)), f')))"
proof (intro conjI allI impI)
  fix flts cur' f' assume r: "applyNewLTXFiles flts env ps cur f = (None, cur', f')"
  have "dirty tx ps lock f (unat cur) (unat cur)" using assms(3) by (simp add: dirty_same)
  from applyNewLTXFiles_moved [OF assms(1,2) this r]
  show "cur \<le> cur'" "clean tx ps lock f' (unat cur')"
    by (auto simp: moved_def word_le_nat_alt max_def dirty_same split: if_splits)
next
  fix it
  assume it: "fe_list env 0 (cur + 1) False = Inr it \<and> it_items it \<noteq> [] \<and> chain_from cur (it_items it) \<and>
    list_all (readable env) (it_items it) \<and> it_err it = None \<and> it_close it = None"
  then obtain f' where "new_items no_db_faults env ps (it_items it) cur f = (LoopEnd, MaxTXID (last (it_items it)), f')"
    using new_items_chain [of cur "it_items it" env no_db_faults ps f] by (auto simp: list_all_iff no_db_faults_def)
  then show "\<exists>f'. applyNewLTXFiles no_db_faults env ps cur f = (None, MaxTXID (last (it_items it)), f')"
    using it by (simp add: applyNewLTXFiles_def close_with_def)
qed

text \<open>C14: Follow mode repairs itself: in every state it can reach through failing polls, failing writes
  cut short anywhere, failing writes of the sidecar and restarts from it, the next poll that succeeds
  and catches up with the newest transaction the replica had held leaves a file that shows exactly that
  transaction's database.\<close>

theorem follow_repairs:
  assumes "history_ok tx ps lock" "reach_follow tx ps lock lim st" "env_ok tx lim' env"
    and "applyNewLTXFiles flts env ps (fo_last st) (fo_db st) = (None, cur', f')" "lim \<le> unat cur'"
  shows "clean tx ps lock f' (unat cur')"
proof -
  obtain hi where hi: "hi \<le> lim" "dirty tx ps lock (fo_db st) (unat (fo_last st)) hi"
    using reach_follow_repairable [OF assms(1,2)] by (auto simp: repairable_def)
  have "dirty tx ps lock f' (unat cur') (max hi (unat cur'))"
    using applyNewLTXFiles_moved [OF assms(1,3) hi(2) assms(4)] by (simp add: moved_def)
  moreover have "max hi (unat cur') = unat cur'" using hi(1) assms(5) by simp
  ultimately show ?thesis by (simp add: dirty_same)
qed

text \<open>A database of one-byte pages: transaction 1 is the snapshot, 2 writes page 1, 3 writes both pages
  and every later one page 1.\<close>

definition ex_tx :: "nat \<Rightarrow> ltx_file" where
  "ex_tx i = \<lparr>lheader = \<lparr>hPageSize = 1, hCommit = 2, hMinTXID = word_of_nat i, hMaxTXID = word_of_nat i,
      hTimestamp = 0, hWALOffset = 32, hWALSize = 0, hWALSalt1 = 0, hWALSalt2 = 0\<rparr>,
    lpages = (if i = 1 then [(1, [1]), (2, [1])] else if i = 2 then [(1, [2])]
              else if i = 3 then [(1, [3]), (2, [3])] else [(1, [4])]),
    lpages_err = None\<rparr>"

text \<open>The replica holds the files of transactions 2 to 4 at level 0; opening the file of transaction
  \<open>n\<close> fails.\<close>

definition ex_info :: "u64 \<Rightarrow> file_info" where
  "ex_info i = \<lparr>Level = 0, MinTXID = i, MaxTXID = i, Size = 100, CreatedAt = 0\<rparr>"

definition ex_env :: "u64 \<Rightarrow> follow_env" where
  "ex_env n = \<lparr>fe_list = (\<lambda>level seek m. Inr \<lparr>it_items =
       (if level = 0 then map ex_info (filter (\<lambda>i. seek \<le> i) [2, 3, 4]) else []), it_err = None, it_close = None\<rparr>),
     fe_open = (\<lambda>level mn mx. if mn \<noteq> mx \<or> mx = n then Inl DeadlineExceeded
       else Inr (Inr (ex_tx (unat mx), None)))\<rparr>"

lemma ex_pages: "p \<noteq> 0 \<Longrightarrow> p \<le> 2 \<Longrightarrow> p = 1 \<or> p = (2 :: u32)"
  by (auto simp: word_le_nat_alt word_unat_eq_iff)

lemma ex_history: "history_ok ex_tx 1 0"
  unfolding history_ok_def
  by (auto simp: ex_tx_def tx_commit_def changed_def word_le_nat_alt word_less_nat_alt dest: ex_pages)

lemma ex_env_ok: "env_ok ex_tx 4 (ex_env n)"
proof -
  have "merged_ltx ex_tx (unat mx) (unat mx) (ex_tx (unat mx), None)" for mx :: u64
    by (auto simp: merged_ltx_def tx_commit_def ex_tx_def)
  then show ?thesis
    by (auto simp: env_ok_def ex_env_def ex_info_def word_le_nat_alt split: if_splits)
qed

lemma ex_clean: "clean ex_tx 1 0 [1, 1] 1"
  unfolding clean_def
  by (auto simp: tx_commit_def ex_tx_def shows_page_def file_page_def hist_page_def sub_def dest!: ex_pages)

theorem follow_poll_refines_witness:
  "\<exists>f'. applyNewLTXFiles no_db_faults (ex_env 9) 1 1 [1, 1] = (None, 4, f') \<and> clean ex_tx 1 0 f' 4"
proof -
  have c: "clean ex_tx 1 0 [1, 1] (unat (1 :: u64))" unfolding unat_1 by (rule ex_clean)
  note r = follow_poll_refines [OF ex_history ex_env_ok c]
  have it: "fe_list (ex_env 9) 0 (1 + 1) False = Inr \<lparr>it_items = [ex_info 2, ex_info 3, ex_info 4],
      it_err = None, it_close = None\<rparr>" by (simp add: ex_env_def)
  have rd: "list_all (readable (ex_env 9)) [ex_info 2, ex_info 3, ex_info 4]"
    by (simp add: readable_def ex_env_def ex_info_def ex_tx_def)
  obtain f' where f': "applyNewLTXFiles no_db_faults (ex_env 9) 1 1 [1, 1] = (None, 4, f')"
    using conjunct2 [OF r [of 9]] it rd by (fastforce simp: ex_info_def)
  then have "clean ex_tx 1 0 f' (unat (4 :: u64))" using conjunct1 [OF r [of 9]] by blast
  then show ?thesis using f' by simp
qed

text \<open>Two polls that fail: the first cannot open transaction 4, the second cannot open transaction 3.\<close>

definition ex_follower :: "byte list \<Rightarrow> follower" where
  "ex_follower f = \<lparr>fo_db = f, fo_last = 1, fo_side = Some 1\<rparr>"

lemma ex_ticks:
  "follow_tick no_db_faults (\<lambda>_. None) (ex_env 4) 1 (ex_follower [1, 1]) = (None, ex_follower [3, 3])"
  "follow_tick no_db_faults (\<lambda>_. None) (ex_env 3) 1 (ex_follower [3, 3]) = (None, ex_follower [2, 3])"
  by code_simp+

lemma ex_mixed_reachable: "reach_follow ex_tx 1 0 4 (ex_follower [2, 3])"
proof -
  have "clean ex_tx 1 0 (fo_db (ex_follower [1, 1])) (unat (fo_last (ex_follower [1, 1])))"
    unfolding ex_follower_def follower.select_convs unat_1 by (rule ex_clean)
  then have "reach_follow ex_tx 1 0 4 (ex_follower [1, 1])"
    by (rule reach_follow.restored) (simp_all add: ex_follower_def)
  then have "reach_follow ex_tx 1 0 4 (ex_follower [3, 3])"
    using ex_env_ok ex_ticks(1) by (rule reach_follow.poll)
  then show ?thesis using ex_env_ok ex_ticks(2) by (rule reach_follow.poll)
qed

theorem follow_repairs_witness:
  "\<exists>f'. applyNewLTXFiles no_db_faults (ex_env 9) 1 1 [2, 3] = (None, 4, f') \<and> clean ex_tx 1 0 f' (unat (4 :: u64))"
proof -
  have "fst (applyNewLTXFiles no_db_faults (ex_env 9) 1 1 [2, 3]) = None \<and>
      fst (snd (applyNewLTXFiles no_db_faults (ex_env 9) 1 1 [2, 3])) = 4" by code_simp
  then obtain f' where f': "applyNewLTXFiles no_db_faults (ex_env 9) 1 1 [2, 3] = (None, 4, f')"
    by (metis prod.collapse)
  have "clean ex_tx 1 0 f' (unat (4 :: u64))"
    by (rule follow_repairs [OF ex_history ex_mixed_reachable ex_env_ok [of 9]])
      (use f' in \<open>simp_all add: ex_follower_def\<close>)
  then show ?thesis using f' by blast
qed

text \<open>C37: Until then readers can see a database that never existed. A poll that has applied some files
  and then fails keeps the TXID it started from, so the next one applies them again, the oldest first,
  in place and one at a time: with a replica of four transactions and two downloads that fail, follow
  mode reaches a state whose file shows no transaction's database, while its sidecar and its memory say
  transaction 1.\<close>

theorem follow_exposes_mixture:
  "\<exists>tx ps lock st. history_ok tx ps lock \<and> reach_follow tx ps lock 4 st \<and>
     fo_last st = 1 \<and> fo_side st = Some 1 \<and> (\<forall>n. \<not> clean tx ps lock (fo_db st) n)"
proof -
  have strip: "strip_header p [x] = strip_header p d \<Longrightarrow> d = [x]" for p d and x :: byte
    by (cases d) (auto simp: strip_header_eq)
  have "\<not> clean ex_tx 1 0 [2, 3] n" for n
  proof
    assume c: "clean ex_tx 1 0 [2, 3] n"
    have cm: "tx_commit ex_tx n = 2" by (simp add: tx_commit_def ex_tx_def)
    have "shows_page ex_tx 1 [2, 3] n 1" "shows_page ex_tx 1 [2, 3] n 2" "1 \<le> n"
      using c by (simp_all add: clean_def cm)
    then have h: "hist_page ex_tx n 1 = [2]" "hist_page ex_tx n 2 = [3]"
      using strip by (fastforce simp: shows_page_def file_page_def sub_def)+
    consider "n = 1" | "n = 2" | "n = 3" | "4 \<le> n" using \<open>1 \<le> n\<close> by linarith
    then show False
    proof cases
      case 4
      have "newest ex_tx [n ..< Suc n] 1 = Some [4]" using 4 by (simp add: ex_tx_def)
      then show False using hist_newest [of ex_tx n n 1 "[4]"] 4 h(1) by simp
    qed (use h in \<open>simp_all add: hist_page_def ex_tx_def numeral_2_eq_2 numeral_3_eq_3\<close>)
  qed
  then show ?thesis
    using ex_history ex_mixed_reachable
    by (intro exI [of _ ex_tx] exI [of _ 1] exI [of _ 0] exI [of _ "ex_follower [2, 3]"])
      (simp add: ex_follower_def)
qed

end
