(* ===== verification/V3_Restore.thy ===== *)
theory V3_Restore
  imports File_Replica "HOL-Library.Multiset"
begin

text \<open>
  Restoring a v0.3.x backup, \<open>replica.go\<close> (\<open>RestoreV3\<close> and what it calls, \<open>shouldUseV3Restore\<close>, the
  time bounds) and the v0.3.x listings of \<open>file/replica_client.go\<close>. A backup is generations of
  snapshots and of WAL files cut into segments. Decompression is the package \<open>lz4\<close>'s: opening a file
  gives a stream of its contents. SQLite's checkpoint of the rebuilt WAL file is a parameter.
\<close>

section \<open>Backups\<close>

record snapshot_v3 =
  sn_Generation :: string
  sn_Index :: int
  sn_Size :: int
  sn_CreatedAt :: go_time

record wal_segment_v3 =
  sg_Generation :: string
  sg_Index :: int
  sg_Offset :: int
  sg_Size :: int
  sg_CreatedAt :: go_time

record client_v3 =
  GenerationsV3 :: "go_error + string list"
  SnapshotsV3 :: "string \<Rightarrow> go_error + snapshot_v3 list"
  WALSegmentsV3 :: "string \<Rightarrow> go_error + wal_segment_v3 list"
  OpenSnapshotV3 :: "string \<Rightarrow> int \<Rightarrow> go_error + ltx_stream"
  OpenWALSegmentV3 :: "string \<Rightarrow> int \<Rightarrow> int \<Rightarrow> go_error + ltx_stream"

section \<open>Choosing a snapshot\<close>

text \<open>The exchange sort of the code: entry \<open>i\<close> is swapped with every later entry created before it.\<close>

definition swap_later :: "nat \<Rightarrow> nat \<Rightarrow> snapshot_v3 list \<Rightarrow> snapshot_v3 list" where
  "swap_later i j xs =
     (if sn_CreatedAt (xs ! i) > sn_CreatedAt (xs ! j) then xs[i := xs ! j, j := xs ! i] else xs)"

definition sortSnapshotsV3ByCreatedAt :: "snapshot_v3 list \<Rightarrow> snapshot_v3 list" where
  "sortSnapshotsV3ByCreatedAt snapshots =
     fold (\<lambda>i xs. fold (swap_later i) [Suc i ..< length xs] xs) [0 ..< length snapshots - 1] snapshots"

definition findBestSnapshotV3 :: "snapshot_v3 list \<Rightarrow> go_time \<Rightarrow> snapshot_v3 option" where
  "findBestSnapshotV3 snapshots timestamp =
     (if snapshots = [] then None
      else if time_IsZero timestamp then Some (last snapshots)
      else find (\<lambda>s. \<not> sn_CreatedAt s > timestamp) (rev snapshots))"

definition filterWALSegmentsV3 :: "wal_segment_v3 list \<Rightarrow> int \<Rightarrow> go_time \<Rightarrow> wal_segment_v3 list" where
  "filterWALSegmentsV3 segments snapshotIndex timestamp =
     filter (\<lambda>seg. \<not> sg_Index seg < snapshotIndex \<and>
       \<not> (\<not> time_IsZero timestamp \<and> sg_CreatedAt seg > timestamp)) segments"

text \<open>The snapshots of all generations, in the order of the generations.\<close>

fun collect_snapshots :: "client_v3 \<Rightarrow> string \<Rightarrow> string list \<Rightarrow> go_error + snapshot_v3 list" where
  "collect_snapshots cl msg [] = Inr []"
| "collect_snapshots cl msg (gen # gens) =
     bindR (wrapR msg (SnapshotsV3 cl gen))
       (\<lambda>snaps. bindR (collect_snapshots cl msg gens) (\<lambda>rest. Inr (snaps @ rest)))"

section \<open>Rebuilding the WAL files\<close>

text \<open>The database file at the temporary path and the WAL file beside it.\<close>

type_synonym db_and_wal = "byte list \<times> byte list option"

record v3_os =
  v3_segOpen :: "wal_segment_v3 \<Rightarrow> go_error option"
  v3_segClose :: "go_error option"
  v3_checkpoint :: "db_and_wal \<Rightarrow> go_error option \<times> db_and_wal"

text \<open>The open WAL file is its write position; \<open>None\<close> is a nil file, which no byte can be written to.\<close>

definition applyLastWalFile :: "v3_os \<Rightarrow> nat option \<Rightarrow> db_and_wal \<Rightarrow> go_error option \<times> db_and_wal" where
  "applyLastWalFile os f st =
     (case f of
        None \<Rightarrow> (None, st)
      | Some _ \<Rightarrow> (case v3_segClose os of Some e \<Rightarrow> (Some e, st) | None \<Rightarrow> v3_checkpoint os st))"

definition appendWALSegmentV3 ::
  "client_v3 \<Rightarrow> string \<Rightarrow> wal_segment_v3 \<Rightarrow> nat option \<Rightarrow> db_and_wal \<Rightarrow> go_error option \<times> nat option \<times> db_and_wal" where
  "appendWALSegmentV3 cl gen seg f st =
     (case OpenWALSegmentV3 cl gen (sg_Index seg) (sg_Offset seg) of
        Inl e \<Rightarrow> (Some e, f, st)
      | Inr (bs, err) \<Rightarrow>
          (case f of
             None \<Rightarrow> (if bs = [] then err else Some (Errorf ''invalid argument''), f, st)
           | Some pos \<Rightarrow>
               (err, Some (pos + length bs),
                (fst st, Some (write_at (case snd st of None \<Rightarrow> [] | Some w \<Rightarrow> w) pos bs)))))"

fun apply_segments ::
  "v3_os \<Rightarrow> client_v3 \<Rightarrow> string \<Rightarrow> wal_segment_v3 list \<Rightarrow> nat option \<Rightarrow> db_and_wal \<Rightarrow> go_error option \<times> db_and_wal" where
  "apply_segments os cl gen [] f st = applyLastWalFile os f st"
| "apply_segments os cl gen (seg # segs) f st =
     (case (if sg_Offset seg = 0
            then (case applyLastWalFile os f st of
                    (Some e, st1) \<Rightarrow> (Some e, None, st1)
                  | (None, st1) \<Rightarrow>
                      (case v3_segOpen os seg of
                         Some e \<Rightarrow> (Some e, None, st1)
                       | None \<Rightarrow> (None, Some 0, (fst st1, Some (case snd st1 of None \<Rightarrow> [] | Some w \<Rightarrow> w)))))
            else (None, f, st)) of
        (Some e, _, st1) \<Rightarrow> (Some e, st1)
      | (None, f1, st1) \<Rightarrow>
          (case appendWALSegmentV3 cl gen seg f1 st1 of
             (Some e, _, st2) \<Rightarrow> (Some (Wrapf ''write WAL segment'' e), st2)
           | (None, f2, st2) \<Rightarrow> apply_segments os cl gen segs f2 st2))"

definition applyWALSegmentsV3 ::
  "v3_os \<Rightarrow> client_v3 \<Rightarrow> string \<Rightarrow> wal_segment_v3 list \<Rightarrow> db_and_wal \<Rightarrow> go_error option \<times> db_and_wal" where
  "applyWALSegmentsV3 os cl gen segments st =
     (if segments = [] then (None, st) else apply_segments os cl gen segments None st)"

section \<open>Time bounds\<close>

text \<open>\<open>before\<close> and \<open>after\<close> keep the zero time as \<open>none yet\<close>.\<close>

definition widen :: "go_time \<times> go_time \<Rightarrow> go_time \<Rightarrow> go_time \<times> go_time" where
  "widen b t =
     (if time_IsZero (fst b) \<or> t < fst b then t else fst b,
      if time_IsZero (snd b) \<or> t > snd b then t else snd b)"

fun bounds_v3 :: "client_v3 \<Rightarrow> string list \<Rightarrow> go_time \<times> go_time \<Rightarrow> go_error + go_time \<times> go_time" where
  "bounds_v3 cl [] b = Inr b"
| "bounds_v3 cl (gen # gens) b =
     bindR (SnapshotsV3 cl gen) (\<lambda>snaps.
     bindR (WALSegmentsV3 cl gen) (\<lambda>segs.
       bounds_v3 cl gens (foldl widen (foldl widen b (map sn_CreatedAt snaps)) (map sg_CreatedAt segs))))"

definition TimeBoundsV3 :: "client_v3 \<Rightarrow> go_error + go_time \<times> go_time" where
  "TimeBoundsV3 cl = bindR (GenerationsV3 cl) (\<lambda>gens. bounds_v3 cl gens (0, 0))"

fun bounds_ltx :: "ltx_lister \<Rightarrow> int list \<Rightarrow> go_time \<times> go_time \<Rightarrow> go_error + go_time \<times> go_time" where
  "bounds_ltx client [] b = Inr b"
| "bounds_ltx client (level # levels) b =
     bindR (client level 0 False) (\<lambda>it.
       (case it_close it of
          Some e \<Rightarrow> Inl e
        | None \<Rightarrow> bounds_ltx client levels (foldl widen b (map CreatedAt (it_items it)))))"

definition TimeBounds :: "ltx_lister \<Rightarrow> go_error + go_time \<times> go_time" where
  "TimeBounds client = bounds_ltx client (rev [0 .. SnapshotLevel]) (0, 0)"

definition findBestV3SnapshotForTimestamp :: "client_v3 \<Rightarrow> go_time \<Rightarrow> go_error + snapshot_v3 option" where
  "findBestV3SnapshotForTimestamp cl timestamp =
     bindR (wrapR ''list v0.3.x generations'' (GenerationsV3 cl)) (\<lambda>gens.
     bindR (collect_snapshots cl ''list v0.3.x snapshots'' gens) (\<lambda>snaps.
       if snaps = [] then Inr None
       else Inr (findBestSnapshotV3 (sortSnapshotsV3ByCreatedAt snaps) timestamp)))"

definition findBestLTXSnapshotForTimestamp :: "ltx_lister \<Rightarrow> go_time \<Rightarrow> go_error + file_info option" where
  "findBestLTXSnapshotForTimestamp client timestamp =
     (case FindLTXFiles client SnapshotLevel True (\<lambda>info. (CreatedAt info < timestamp, None)) of
        (_, Some e) \<Rightarrow> Inl (Wrapf ''find LTX snapshots'' e)
      | (snaps, None) \<Rightarrow> Inr (if snaps = [] then None else Some (last snaps)))"

definition shouldUseV3Restore :: "ltx_lister \<Rightarrow> client_v3 \<Rightarrow> go_time \<Rightarrow> go_error + bool" where
  "shouldUseV3Restore client cl timestamp =
     bindR (wrapR ''get v0.3.x time bounds'' (TimeBoundsV3 cl)) (\<lambda>(_, v3UpdatedAt).
     bindR (wrapR ''get LTX time bounds'' (TimeBounds client)) (\<lambda>(_, ltxUpdatedAt).
       if time_IsZero v3UpdatedAt then Inr False
       else if time_IsZero ltxUpdatedAt then Inr True
       else if \<not> time_IsZero timestamp
       then bindR (wrapR ''find v0.3.x snapshot'' (findBestV3SnapshotForTimestamp cl timestamp)) (\<lambda>v3Snapshot.
            bindR (wrapR ''find LTX snapshot'' (findBestLTXSnapshotForTimestamp client timestamp)) (\<lambda>ltxSnapshot.
              Inr (case v3Snapshot of
                     None \<Rightarrow> False
                   | Some v \<Rightarrow> (case ltxSnapshot of None \<Rightarrow> True | Some l \<Rightarrow> sn_CreatedAt v > CreatedAt l))))
       else Inr (v3UpdatedAt > ltxUpdatedAt)))"

definition CalcRestoreTarget :: "ltx_lister \<Rightarrow> client_v3 option \<Rightarrow> go_time \<Rightarrow> go_error + go_time" where
  "CalcRestoreTarget client v3 timestamp =
     bindR (wrapR ''created at'' (TimeBounds client)) (\<lambda>(c0, u0).
     bindR (case v3 of None \<Rightarrow> Inr (0, 0) | Some cl \<Rightarrow> wrapR ''v0.3.x time bounds'' (TimeBoundsV3 cl)) (\<lambda>(c3, u3).
       let createdAt = (if \<not> time_IsZero c3 \<and> (time_IsZero c0 \<or> c3 < c0) then c3 else c0);
           updatedAt = (if \<not> time_IsZero u3 \<and> (time_IsZero u0 \<or> u3 > u0) then u3 else u0)
       in if \<not> time_IsZero timestamp
          then (if time_IsZero createdAt \<and> time_IsZero updatedAt then Inl (Errorf ''no backups found'')
                else if timestamp < createdAt \<or> timestamp > updatedAt then Inl (Errorf ''timestamp does not exist'')
                else Inr updatedAt)
          else Inr updatedAt))"

section \<open>The exchange sort\<close>

lemma length_swap_later [simp]: "length (swap_later i j xs) = length xs"
  by (simp add: swap_later_def)

lemma mset_swap_later [simp]:
  "\<lbrakk>i < length xs; j < length xs\<rbrakk> \<Longrightarrow> mset (swap_later i j xs) = mset xs"
  by (simp add: swap_later_def mset_swap)

lemma swap_later_inner:
  assumes "i < m" "m \<le> length xs"
  shows "let ys = fold (swap_later i) [Suc i ..< m] xs in
    length ys = length xs \<and> mset ys = mset xs \<and> (\<forall>k. k < i \<or> m \<le> k \<longrightarrow> ys ! k = xs ! k) \<and>
    (\<forall>k. i < k \<and> k < m \<longrightarrow> sn_CreatedAt (ys ! i) \<le> sn_CreatedAt (ys ! k))"
  using assms
proof (induction m)
  case (Suc m)
  show ?case
  proof (cases "i = m")
    case False
    then have IH: "let ys = fold (swap_later i) [Suc i ..< m] xs in
      length ys = length xs \<and> mset ys = mset xs \<and> (\<forall>k. k < i \<or> m \<le> k \<longrightarrow> ys ! k = xs ! k) \<and>
      (\<forall>k. i < k \<and> k < m \<longrightarrow> sn_CreatedAt (ys ! i) \<le> sn_CreatedAt (ys ! k))"
      using Suc by simp
    have im: "i < m" using Suc.prems False by simp
    obtain ys where ys: "fold (swap_later i) [Suc i ..< m] xs = ys" by simp
    have f: "fold (swap_later i) [Suc i ..< Suc m] xs = swap_later i m ys" using im ys by simp
    have l: "length ys = length xs" "mset ys = mset xs" using IH by (simp_all add: ys)
    have ne: "m \<noteq> i" using im by simp
    have keep: "swap_later i m ys ! k = xs ! k" if "k < i \<or> Suc m \<le> k" for k
      using IH that im by (auto simp: ys swap_later_def Let_def)
    have le: "sn_CreatedAt (swap_later i m ys ! i) \<le> sn_CreatedAt (swap_later i m ys ! k)"
      if "i < k" "k < Suc m" for k
    proof (cases "k = m")
      case True
      then show ?thesis using ne l Suc.prems im by (auto simp: swap_later_def)
    next
      case False
      then have "sn_CreatedAt (ys ! i) \<le> sn_CreatedAt (ys ! k)" using IH that by (simp add: ys Let_def)
      then show ?thesis using False that l Suc.prems ne by (auto simp: swap_later_def)
    qed
    show ?thesis unfolding f Let_def using l keep le Suc.prems im by simp
  qed (auto simp: Let_def)
qed simp

lemma set_drop_eq:
  assumes "mset xs = mset ys" "take n xs = take n ys"
  shows "set (drop n xs) = set (drop n ys)"
proof -
  have "mset (take n xs) + mset (drop n xs) = mset (take n ys) + mset (drop n ys)"
    using assms(1) by (metis append_take_drop_id mset_append)
  then have "mset (drop n xs) = mset (drop n ys)" using assms(2) by simp
  then show ?thesis by (rule mset_eq_setD)
qed

lemma in_set_dropE:
  assumes "x \<in> set (drop m ys)"
  obtains k where "x = ys ! k" "m \<le> k" "k < length ys"
proof -
  obtain i where "i < length (drop m ys)" "drop m ys ! i = x" using assms by (auto simp: in_set_conv_nth)
  then show ?thesis using that [of "m + i"] by simp
qed

lemma exchange_outer:
  assumes "m \<le> length xs"
  shows "let ys = fold (\<lambda>i xs. fold (swap_later i) [Suc i ..< length xs] xs) [0 ..< m] xs in
    length ys = length xs \<and> mset ys = mset xs \<and>
    (\<forall>a b. a < m \<and> a < b \<and> b < length xs \<longrightarrow> sn_CreatedAt (ys ! a) \<le> sn_CreatedAt (ys ! b))"
  using assms
proof (induction m)
  case (Suc m)
  obtain ys where ys: "fold (\<lambda>i xs. fold (swap_later i) [Suc i ..< length xs] xs) [0 ..< m] xs = ys" by simp
  have IH: "length ys = length xs" "mset ys = mset xs"
    "\<And>a b. a < m \<Longrightarrow> a < b \<Longrightarrow> b < length xs \<Longrightarrow> sn_CreatedAt (ys ! a) \<le> sn_CreatedAt (ys ! b)"
    using Suc by (simp_all add: ys Let_def)
  obtain zs where zs: "fold (swap_later m) [Suc m ..< length ys] ys = zs" by simp
  note in1 = swap_later_inner [of m "length ys" ys, unfolded zs Let_def]
  have z: "length zs = length ys" "mset zs = mset ys" "\<And>k. k < m \<Longrightarrow> zs ! k = ys ! k"
    "\<And>k. m < k \<Longrightarrow> k < length ys \<Longrightarrow> sn_CreatedAt (zs ! m) \<le> sn_CreatedAt (zs ! k)"
    using in1 Suc.prems IH(1) by auto
  have tk: "take m zs = take m ys" using z Suc.prems IH(1) by (auto intro!: nth_equalityI)
  have "sn_CreatedAt (zs ! a) \<le> sn_CreatedAt (zs ! b)" if "a < Suc m" "a < b" "b < length xs" for a b
  proof (cases "a = m")
    case False
    then have am: "a < m" using that by simp
    show ?thesis
    proof (cases "b < m")
      case True
      then show ?thesis using z(3) am IH(3) that by simp
    next
      case False
      then have "zs ! b \<in> set (drop m zs)" using that z(1) IH(1)
        by (auto simp: in_set_conv_nth intro!: exI [of _ "b - m"])
      then have "zs ! b \<in> set (drop m ys)" using set_drop_eq [OF z(2) tk] by simp
      then obtain k where "zs ! b = ys ! k" "m \<le> k" "k < length ys" by (rule in_set_dropE)
      then show ?thesis using z(3) am IH(1,3) by simp
    qed
  qed (use z(4) that IH(1) in simp)
  then show ?case using z IH zs by (simp add: ys Let_def)
qed simp

lemma sortSnapshotsV3ByCreatedAt_sorts:
  "mset (sortSnapshotsV3ByCreatedAt xs) = mset xs \<and>
   sorted (map sn_CreatedAt (sortSnapshotsV3ByCreatedAt xs))"
proof -
  note x = exchange_outer [of "length xs - 1" xs, folded sortSnapshotsV3ByCreatedAt_def, unfolded Let_def]
  then show ?thesis by (auto simp: sorted_iff_nth_mono_less)
qed

lemma find_rev_max:
  "\<lbrakk>find P (rev xs) = Some x; sorted (map f xs); y \<in> set xs; P y\<rbrakk> \<Longrightarrow> f y \<le> f x"
  by (induction xs rule: rev_induct) (auto simp: sorted_append split: if_splits)

lemma find_rev_Some: "find P (rev xs) = Some x \<Longrightarrow> x \<in> set xs \<and> P x"
  by (induction xs rule: rev_induct) (auto split: if_splits)

lemma find_rev_None: "find P (rev xs) = None \<longleftrightarrow> (\<forall>y \<in> set xs. \<not> P y)"
  by (auto simp: find_None_iff)

text \<open>The abstract view of a segment list: the WAL files, each one cut at the offsets.\<close>

function wal_files :: "(wal_segment_v3 \<Rightarrow> byte list) \<Rightarrow> wal_segment_v3 list \<Rightarrow> byte list list" where
  "wal_files c [] = []"
| "wal_files c (s # ss) =
     (c s @ concat (map c (takeWhile (\<lambda>x. sg_Offset x \<noteq> 0) ss))) #
     wal_files c (dropWhile (\<lambda>x. sg_Offset x \<noteq> 0) ss)"
  by pat_completeness auto
termination by (relation "measure (length \<circ> snd)") (auto simp: less_Suc_eq_le length_dropWhile_le)

definition seg_readable :: "client_v3 \<Rightarrow> string \<Rightarrow> wal_segment_v3 \<Rightarrow> bool" where
  "seg_readable cl gen seg \<longleftrightarrow>
     (case OpenWALSegmentV3 cl gen (sg_Index seg) (sg_Offset seg) of Inl e \<Rightarrow> False | Inr r \<Rightarrow> snd r = None)"

definition seg_bytes :: "client_v3 \<Rightarrow> string \<Rightarrow> wal_segment_v3 \<Rightarrow> byte list" where
  "seg_bytes cl gen seg =
     (case OpenWALSegmentV3 cl gen (sg_Index seg) (sg_Offset seg) of Inl e \<Rightarrow> [] | Inr r \<Rightarrow> fst r)"

text \<open>SQLite's \<open>wal_checkpoint(TRUNCATE)\<close>: when it succeeds the WAL has gone into the database file and
  is empty or removed.\<close>

definition checkpoint_law :: "v3_os \<Rightarrow> (byte list \<Rightarrow> byte list \<Rightarrow> byte list) \<Rightarrow> bool" where
  "checkpoint_law os step \<longleftrightarrow>
     (\<forall>db w st. v3_checkpoint os (db, Some w) = (None, st) \<longrightarrow>
        fst st = step db w \<and> (snd st = None \<or> snd st = Some []))"

definition v3_os_ok :: "v3_os \<Rightarrow> bool" where
  "v3_os_ok os \<longleftrightarrow> (\<forall>seg. v3_segOpen os seg = None) \<and> v3_segClose os = None \<and>
     (\<forall>st. fst (v3_checkpoint os st) = None)"

text \<open>A file written from its start over older contents.\<close>

definition overlay :: "byte list \<Rightarrow> byte list \<Rightarrow> byte list" where
  "overlay old new = new @ drop (length new) old"

lemma overlay_Nil [simp]: "overlay [] x = x" "overlay old [] = old"
  by (simp_all add: overlay_def)

lemma write_overlay [simp]:
  "write_at (overlay old x) (length x) bs = overlay old (x @ bs)"
  by (simp add: write_at_def overlay_def add.commute)

abbreviation tail_files ::
  "(wal_segment_v3 \<Rightarrow> byte list) \<Rightarrow> byte list \<Rightarrow> byte list \<Rightarrow> wal_segment_v3 list \<Rightarrow> byte list list" where
  "tail_files c old x ss \<equiv> overlay old (x @ concat (map c (takeWhile (\<lambda>s. sg_Offset s \<noteq> 0) ss))) #
     wal_files c (dropWhile (\<lambda>s. sg_Offset s \<noteq> 0) ss)"

lemma append_ok_iff:
  "appendWALSegmentV3 cl gen seg (Some (length x)) (db, Some (overlay old x)) = (None, f, st) \<longleftrightarrow>
     seg_readable cl gen seg \<and> f = Some (length (x @ seg_bytes cl gen seg)) \<and>
     st = (db, Some (overlay old (x @ seg_bytes cl gen seg)))"
  by (auto simp: appendWALSegmentV3_def seg_readable_def seg_bytes_def split: sum.splits prod.splits)

lemmas append_ok_0 = append_ok_iff [where x = "[]", simplified]

lemma applyLast_ok:
  assumes "checkpoint_law os step" "applyLastWalFile os (Some k) (db, Some w) = (None, st)"
  shows "fst st = step db w \<and> (snd st = None \<or> snd st = Some [])"
  using assms unfolding applyLastWalFile_def checkpoint_law_def by (cases st) (auto split: option.splits)

lemma apply_segments_ok:
  assumes law: "checkpoint_law os step"
    and run: "apply_segments os cl gen segs (Some (length x)) (db, Some (overlay old x)) = (None, st)"
  shows "list_all (seg_readable cl gen) segs \<and>
    fst st = foldl step db (tail_files (seg_bytes cl gen) old x segs) \<and> (snd st = None \<or> snd st = Some [])"
  using run
proof (induction segs arbitrary: db x old)
  case Nil
  then show ?case using applyLast_ok [OF law] by simp
next
  case (Cons seg segs)
  show ?case
  proof (cases "sg_Offset seg = 0")
    case True
    obtain st1 where l: "applyLastWalFile os (Some (length x)) (db, Some (overlay old x)) = (None, st1)"
      using Cons.prems True by (auto split: prod.splits option.splits)
    note L = applyLast_ok [OF law l]
    have o: "v3_segOpen os seg = None" using Cons.prems True l by (auto split: option.splits prod.splits)
    have "(fst st1, Some (case snd st1 of None \<Rightarrow> [] | Some w \<Rightarrow> w)) = (step db (overlay old x), Some [])"
      using L by auto
    then obtain f2 st2 where
        a: "appendWALSegmentV3 cl gen seg (Some 0) (step db (overlay old x), Some []) = (None, f2, st2)"
      and r: "apply_segments os cl gen segs f2 st2 = (None, st)"
      using Cons.prems True l o by (auto split: option.splits prod.splits)
    have A: "seg_readable cl gen seg" "f2 = Some (length (seg_bytes cl gen seg))"
      "st2 = (step db (overlay old x), Some (seg_bytes cl gen seg))"
      using a append_ok_0 [of cl gen seg _ "[]"] by simp_all
    show ?thesis using Cons.IH [where old = "[]", simplified] r A True by auto
  next
    case False
    then obtain f2 st2 where a: "appendWALSegmentV3 cl gen seg (Some (length x)) (db, Some (overlay old x)) = (None, f2, st2)"
      and r: "apply_segments os cl gen segs f2 st2 = (None, st)"
      using Cons.prems by (auto split: option.splits prod.splits)
    have "list_all (seg_readable cl gen) segs \<and>
      fst st = foldl step db (tail_files (seg_bytes cl gen) old (x @ seg_bytes cl gen seg) segs) \<and>
      (snd st = None \<or> snd st = Some [])"
      using Cons.IH r a [unfolded append_ok_iff] by blast
    then show ?thesis using a [unfolded append_ok_iff] False by simp
  qed
qed

lemma apply_segments_runs:
  assumes law: "checkpoint_law os step" and ok: "v3_os_ok os" and rd: "list_all (seg_readable cl gen) segs"
  shows "fst (apply_segments os cl gen segs (Some (length x)) (db, Some (overlay old x))) = None"
  using rd
proof (induction segs arbitrary: db x old)
  case Nil
  then show ?case using ok by (simp add: applyLastWalFile_def v3_os_ok_def)
next
  case (Cons seg segs)
  have a: "appendWALSegmentV3 cl gen seg (Some (length v)) (d, Some (overlay u v)) =
      (None, Some (length (v @ seg_bytes cl gen seg)), d, Some (overlay u (v @ seg_bytes cl gen seg)))" for v d u
    using Cons.prems append_ok_iff by auto
  obtain st1 where l: "applyLastWalFile os (Some (length x)) (db, Some (overlay old x)) = (None, st1)"
    using ok by (cases "v3_checkpoint os (db, Some (overlay old x))")
      (auto simp: applyLastWalFile_def v3_os_ok_def, metis fst_conv)
  have s1: "(case snd st1 of None \<Rightarrow> [] | Some w \<Rightarrow> w) = []" using applyLast_ok [OF law l] by auto
  have o: "v3_segOpen os seg = None" using ok by (simp add: v3_os_ok_def)
  show ?case
    using Cons.IH [where old = "[]", simplified] Cons.IH [of "x @ seg_bytes cl gen seg"] Cons.prems
      a [of x db] a [of "[]" "fst st1" "[]", simplified] l s1 o by (cases "sg_Offset seg = 0") simp_all
qed

definition overlay_hd :: "byte list option \<Rightarrow> byte list list \<Rightarrow> byte list list" where
  "overlay_hd w fs = (case fs of [] \<Rightarrow> [] | x # xs \<Rightarrow> overlay (case w of None \<Rightarrow> [] | Some old \<Rightarrow> old) x # xs)"

text \<open>Rebuilding a v0.3.x backup is the fold of SQLite's checkpoint over the WAL files the segment
  list describes, each file the concatenation of its segments, the first of them followed by what an
  older WAL file at the temporary path held beyond it. A run that succeeds has read every segment to its
  end, and a run over readable segments succeeds when no system call fails.\<close>

lemma applyWALSegmentsV3_replay:
  assumes "checkpoint_law os step" "segs \<noteq> []" "sg_Offset (hd segs) = 0"
  shows "(fst (applyWALSegmentsV3 os cl gen segs (db, w)) = None \<longrightarrow>
      list_all (seg_readable cl gen) segs \<and>
      fst (snd (applyWALSegmentsV3 os cl gen segs (db, w))) =
        foldl step db (overlay_hd w (wal_files (seg_bytes cl gen) segs))) \<and>
    (v3_os_ok os \<and> list_all (seg_readable cl gen) segs \<longrightarrow>
      fst (applyWALSegmentsV3 os cl gen segs (db, w)) = None)"
proof -
  obtain seg rest where s: "segs = seg # rest" "sg_Offset seg = 0" using assms by (cases segs) auto
  obtain old where old: "(case w of None \<Rightarrow> [] | Some v \<Rightarrow> v) = old" by simp
  have run: "apply_segments os cl gen segs None (db, w) =
      (case v3_segOpen os seg of Some e \<Rightarrow> (Some e, db, w)
       | None \<Rightarrow> (case appendWALSegmentV3 cl gen seg (Some 0) (db, Some old) of
             (Some e, _, st2) \<Rightarrow> (Some (Wrapf ''write WAL segment'' e), st2)
           | (None, f2, st2) \<Rightarrow> apply_segments os cl gen rest f2 st2))"
    using s old by (simp add: applyLastWalFile_def split: option.splits)
  have go: "applyWALSegmentsV3 os cl gen segs (db, w) = apply_segments os cl gen segs None (db, w)"
    using assms(2) by (simp add: applyWALSegmentsV3_def)
  have one: "list_all (seg_readable cl gen) segs \<and>
      fst st = foldl step db (overlay_hd w (wal_files (seg_bytes cl gen) segs))"
    if ok: "apply_segments os cl gen segs None (db, w) = (None, st)" for st
  proof -
    obtain f2 st2 where "appendWALSegmentV3 cl gen seg (Some 0) (db, Some old) = (None, f2, st2)"
      and r: "apply_segments os cl gen rest f2 st2 = (None, st)"
      using ok unfolding run by (auto split: option.splits prod.splits)
    then have "seg_readable cl gen seg" "f2 = Some (length (seg_bytes cl gen seg))"
      "st2 = (db, Some (overlay old (seg_bytes cl gen seg)))" by (simp_all add: append_ok_0)
    with apply_segments_ok [OF assms(1)] r s old show ?thesis by (simp add: overlay_hd_def)
  qed
  have two: "fst (apply_segments os cl gen segs None (db, w)) = None"
    if "v3_os_ok os" "list_all (seg_readable cl gen) segs"
  proof -
    have "v3_segOpen os seg = None" using that(1) by (simp add: v3_os_ok_def)
    moreover have "appendWALSegmentV3 cl gen seg (Some 0) (db, Some old) =
      (None, Some (length (seg_bytes cl gen seg)), db, Some (overlay old (seg_bytes cl gen seg)))"
      unfolding append_ok_0 using that(2) s(1) by simp
    moreover have "list_all (seg_readable cl gen) rest" using that(2) s(1) by simp
    ultimately show ?thesis unfolding run using apply_segments_runs [OF assms(1) that(1)] by simp
  qed
  show ?thesis unfolding go using one two by (metis prod.collapse)
qed

text \<open>An example: two WAL files, the first of them cut in two.\<close>

definition ex_seg :: "int \<Rightarrow> int \<Rightarrow> wal_segment_v3" where
  "ex_seg i off = \<lparr>sg_Generation = ''g'', sg_Index = i, sg_Offset = off, sg_Size = 1, sg_CreatedAt = 5\<rparr>"

definition ex_v3 :: client_v3 where
  "ex_v3 = \<lparr>GenerationsV3 = Inr [''g''],
     SnapshotsV3 = (\<lambda>g. Inr [\<lparr>sn_Generation = g, sn_Index = 1, sn_Size = 2, sn_CreatedAt = 7\<rparr>,
       \<lparr>sn_Generation = g, sn_Index = 0, sn_Size = 2, sn_CreatedAt = 3\<rparr>]),
     WALSegmentsV3 = (\<lambda>g. Inr [ex_seg 0 0, ex_seg 0 1, ex_seg 1 0]),
     OpenSnapshotV3 = (\<lambda>g i. Inr ([9, 9], None)),
     OpenWALSegmentV3 = (\<lambda>g i off. Inr ([word_of_int (10 * i + off)], None))\<rparr>"

definition ex_v3_os :: v3_os where
  "ex_v3_os = \<lparr>v3_segOpen = (\<lambda>seg. None), v3_segClose = None,
     v3_checkpoint = (\<lambda>st. (None, case snd st of None \<Rightarrow> st | Some w \<Rightarrow> (fst st @ rev w, Some [])))\<rparr>"

section \<open>The snapshot that is restored\<close>

lemma collect_snapshots_all:
  "collect_snapshots cl msg gens = Inr snaps \<Longrightarrow>
   snaps = concat (map (\<lambda>g. case SnapshotsV3 cl g of Inl e \<Rightarrow> [] | Inr xs \<Rightarrow> xs) gens) \<and>
   list_all (\<lambda>g. \<not> isl (SnapshotsV3 cl g)) gens"
  by (induction gens arbitrary: snaps) (auto simp: bindR_Inr_iff)

lemma findBestSnapshotV3_sorted:
  assumes "sorted (map sn_CreatedAt xs)"
  shows "case findBestSnapshotV3 xs ts of
      None \<Rightarrow> xs = [] \<or> \<not> time_IsZero ts \<and> (\<forall>x \<in> set xs. ts < sn_CreatedAt x)
    | Some b \<Rightarrow> b \<in> set xs \<and> (time_IsZero ts \<or> sn_CreatedAt b \<le> ts) \<and>
        (\<forall>x \<in> set xs. time_IsZero ts \<or> sn_CreatedAt x \<le> ts \<longrightarrow> sn_CreatedAt x \<le> sn_CreatedAt b)"
proof (cases "xs = [] \<or> ts = 0")
  case True
  moreover have "\<forall>x \<in> set xs. sn_CreatedAt x \<le> sn_CreatedAt (last xs)"
    using assms by (induction xs rule: rev_induct) (auto simp: sorted_append)
  ultimately show ?thesis by (auto simp: findBestSnapshotV3_def)
next
  case False
  show ?thesis
  proof (cases "find (\<lambda>s. \<not> sn_CreatedAt s > ts) (rev xs)")
    case None
    moreover have "\<forall>x \<in> set xs. ts < sn_CreatedAt x" using None by (simp add: find_rev_None)
    ultimately show ?thesis using False by (simp add: findBestSnapshotV3_def)
  next
    case (Some b)
    then have "b \<in> set xs" "sn_CreatedAt b \<le> ts" using find_rev_Some [OF Some] by auto
    then show ?thesis
      using False Some find_rev_max [OF Some assms] by (auto simp: findBestSnapshotV3_def)
  qed
qed

definition snapshots_of :: "client_v3 \<Rightarrow> string list \<Rightarrow> snapshot_v3 list" where
  "snapshots_of cl gens = concat (map (\<lambda>g. case SnapshotsV3 cl g of Inl e \<Rightarrow> [] | Inr xs \<Rightarrow> xs) gens)"

text \<open>C38: The snapshot chosen for a point in time is a newest one, of all generations, among those not
  created after it (among all of them when no time is given); none is chosen only when no snapshot
  qualifies; and a choice is made only when every generation could be listed.\<close>

theorem findBestV3Snapshot_newest:
  assumes "GenerationsV3 cl = Inr gens" "findBestV3SnapshotForTimestamp cl ts = Inr r"
  shows "list_all (\<lambda>g. \<not> isl (SnapshotsV3 cl g)) gens \<and>
    (let ok = filter (\<lambda>x. time_IsZero ts \<or> sn_CreatedAt x \<le> ts) (snapshots_of cl gens) in
     case r of
       None \<Rightarrow> ok = []
     | Some b \<Rightarrow> b \<in> set ok \<and> sn_CreatedAt b = Max (sn_CreatedAt ` set ok))"
proof -
  obtain snaps where c: "collect_snapshots cl ''list v0.3.x snapshots'' gens = Inr snaps"
    and r: "r = (if snaps = [] then None else findBestSnapshotV3 (sortSnapshotsV3ByCreatedAt snaps) ts)"
    using assms by (auto simp: findBestV3SnapshotForTimestamp_def bindR_Inr_iff split: if_splits)
  have s: "snaps = snapshots_of cl gens" "list_all (\<lambda>g. \<not> isl (SnapshotsV3 cl g)) gens"
    using collect_snapshots_all [OF c] by (simp_all add: snapshots_of_def)
  define ys where "ys = sortSnapshotsV3ByCreatedAt snaps"
  have y: "set ys = set snaps" "sorted (map sn_CreatedAt ys)"
    using sortSnapshotsV3ByCreatedAt_sorts [of snaps] mset_eq_setD by (auto simp: ys_def)
  have r': "r = findBestSnapshotV3 ys ts" using r y(1) by (auto simp: ys_def findBestSnapshotV3_def)
  define ok where "ok = filter (\<lambda>x. time_IsZero ts \<or> sn_CreatedAt x \<le> ts) snaps"
  have "case r of None \<Rightarrow> ok = [] | Some b \<Rightarrow> b \<in> set ok \<and> (\<forall>x \<in> set ok. sn_CreatedAt x \<le> sn_CreatedAt b)"
    using findBestSnapshotV3_sorted [OF y(2), of ts] y(1)
    by (auto simp: r' ok_def filter_empty_conv split: option.splits)
  then have "case r of None \<Rightarrow> ok = [] | Some b \<Rightarrow> b \<in> set ok \<and> sn_CreatedAt b = Max (sn_CreatedAt ` set ok)"
    by (auto split: option.splits intro!: Max_eqI [symmetric])
  then show ?thesis using s(2) unfolding ok_def s(1) Let_def by blast
qed

theorem findBestV3Snapshot_newest_witness:
  "findBestV3SnapshotForTimestamp ex_v3 5 =
     Inr (Some \<lparr>sn_Generation = ''g'', sn_Index = 0, sn_Size = 2, sn_CreatedAt = 3\<rparr>) \<and>
   Max (sn_CreatedAt ` set (filter (\<lambda>x. sn_CreatedAt x \<le> 5) (snapshots_of ex_v3 [''g'']))) = 3"
proof -
  let ?b = "\<lparr>sn_Generation = ''g'', sn_Index = 0, sn_Size = 2, sn_CreatedAt = 3\<rparr>"
  have f: "findBestV3SnapshotForTimestamp ex_v3 5 = Inr (Some ?b)" by code_simp
  have g: "GenerationsV3 ex_v3 = Inr [''g'']" by (simp add: ex_v3_def)
  have s: "snapshots_of ex_v3 [''g''] =
      [\<lparr>sn_Generation = ''g'', sn_Index = 1, sn_Size = 2, sn_CreatedAt = 7\<rparr>, ?b]"
    by (simp add: snapshots_of_def ex_v3_def)
  show ?thesis using findBestV3Snapshot_newest [OF g f] f by (simp add: s)
qed

end
