(* ===== verification/V3_Client.thy ===== *)
theory V3_Client
  imports V3_Restore "HOL-Library.Product_Lexorder" "HOL-Library.List_Lexorder" "HOL-Library.Char_ord"
begin

text \<open>
  The v0.3.x side of the file replica client, \<open>file/replica_client.go\<close>: the listings of the
  generations, snapshots and WAL segments, and opening one of them. The locale \<open>backups_v3\<close> is what
  the interface \<open>ReplicaClientV3\<close> of \<open>v3.go\<close> promises its caller, interpreted on the file client; the
  restore's lemmas on the segments it replays are proved in it.
\<close>

section \<open>Model\<close>

text \<open>A directory holds directories and files; a path below the replica's root is a list of names.\<close>

datatype node = DirNode | FileNode fentry

type_synonym v3_tree = "string list \<Rightarrow> (string \<times> node) list option"

record v3_faults =
  v3f_readDir :: "string list \<Rightarrow> go_error option"
  v3f_info :: "string \<Rightarrow> go_error option"
  v3f_open :: "string list \<Rightarrow> string \<Rightarrow> go_error option"

definition GenerationsDirV3 :: string where "GenerationsDirV3 = ''generations''"
definition SnapshotsDirV3 :: string where "SnapshotsDirV3 = ''snapshots''"
definition WALDirV3 :: string where "WALDirV3 = ''wal''"

definition GenerationsPathV3 :: "string list" where "GenerationsPathV3 = [GenerationsDirV3]"

definition SnapshotsPathV3 :: "string \<Rightarrow> string list" where
  "SnapshotsPathV3 generation = [GenerationsDirV3, generation, SnapshotsDirV3]"

definition WALPathV3 :: "string \<Rightarrow> string list" where
  "WALPathV3 generation = [GenerationsDirV3, generation, WALDirV3]"

definition read_dir :: "v3_faults \<Rightarrow> v3_tree \<Rightarrow> string list \<Rightarrow> go_error + (string \<times> node) list" where
  "read_dir flt tree path =
     (case v3f_readDir flt path of
        Some e \<Rightarrow> if os_IsNotExist e then Inr [] else Inl e
      | None \<Rightarrow> Inr (case tree path of None \<Rightarrow> [] | Some entries \<Rightarrow> entries))"

definition file_GenerationsV3 :: "v3_faults \<Rightarrow> v3_tree \<Rightarrow> go_error + string list" where
  "file_GenerationsV3 flt tree =
     bindR (read_dir flt tree GenerationsPathV3) (\<lambda>entries.
       Inr (sort (map fst (filter (\<lambda>(name, nd). nd = DirNode \<and> IsGenerationIDV3 name) entries))))"

text \<open>The loops over the entries; a name that does not parse is skipped.\<close>

fun snapshot_entries :: "v3_faults \<Rightarrow> string \<Rightarrow> (string \<times> node) list \<Rightarrow> go_error + snapshot_v3 list" where
  "snapshot_entries flt gen [] = Inr []"
| "snapshot_entries flt gen ((name, DirNode) # es) = snapshot_entries flt gen es"
| "snapshot_entries flt gen ((name, FileNode f) # es) =
     (case ParseSnapshotFilenameV3 name of
        Inl _ \<Rightarrow> snapshot_entries flt gen es
      | Inr index \<Rightarrow>
          (case v3f_info flt name of
             Some e \<Rightarrow> Inl e
           | None \<Rightarrow> bindR (snapshot_entries flt gen es) (\<lambda>rest.
               Inr (\<lparr>sn_Generation = gen, sn_Index = index, sn_Size = int (length (fe_data f)),
                     sn_CreatedAt = fe_mtime f\<rparr> # rest))))"

fun segment_entries :: "v3_faults \<Rightarrow> string \<Rightarrow> (string \<times> node) list \<Rightarrow> go_error + wal_segment_v3 list" where
  "segment_entries flt gen [] = Inr []"
| "segment_entries flt gen ((name, DirNode) # es) = segment_entries flt gen es"
| "segment_entries flt gen ((name, FileNode f) # es) =
     (case ParseWALSegmentFilenameV3 name of
        Inl _ \<Rightarrow> segment_entries flt gen es
      | Inr (index, offset) \<Rightarrow>
          (case v3f_info flt name of
             Some e \<Rightarrow> Inl e
           | None \<Rightarrow> bindR (segment_entries flt gen es) (\<lambda>rest.
               Inr (\<lparr>sg_Generation = gen, sg_Index = index, sg_Offset = offset,
                     sg_Size = int (length (fe_data f)), sg_CreatedAt = fe_mtime f\<rparr> # rest))))"

definition file_SnapshotsV3 :: "v3_faults \<Rightarrow> v3_tree \<Rightarrow> string \<Rightarrow> go_error + snapshot_v3 list" where
  "file_SnapshotsV3 flt tree gen =
     bindR (read_dir flt tree (SnapshotsPathV3 gen)) (\<lambda>entries.
     bindR (snapshot_entries flt gen entries) (\<lambda>snapshots. Inr (sort_key sn_Index snapshots)))"

text \<open>The comparison of two segments; two entries of a directory never compare equal.\<close>

definition seg_key :: "wal_segment_v3 \<Rightarrow> int \<times> int" where
  "seg_key s = (sg_Index s, sg_Offset s)"

definition file_WALSegmentsV3 :: "v3_faults \<Rightarrow> v3_tree \<Rightarrow> string \<Rightarrow> go_error + wal_segment_v3 list" where
  "file_WALSegmentsV3 flt tree gen =
     bindR (read_dir flt tree (WALPathV3 gen)) (\<lambda>entries.
     bindR (segment_entries flt gen entries) (\<lambda>segments. Inr (sort_key seg_key segments)))"

text \<open>Opening a directory succeeds; reading from it does not. \<open>lz4\<close> decompresses a stream.\<close>

definition open_v3 ::
  "(ltx_stream \<Rightarrow> ltx_stream) \<Rightarrow> v3_faults \<Rightarrow> v3_tree \<Rightarrow> string list \<Rightarrow> string \<Rightarrow> go_error + ltx_stream" where
  "open_v3 lz4 flt tree path name =
     (case v3f_open flt path name of
        Some e \<Rightarrow> Inl e
      | None \<Rightarrow>
          (case (case tree path of None \<Rightarrow> None | Some es \<Rightarrow> map_of es name) of
             None \<Rightarrow> Inl ErrNotExist
           | Some DirNode \<Rightarrow> Inr (lz4 ([], Some (Errorf ''is a directory'')))
           | Some (FileNode f) \<Rightarrow> Inr (lz4 (fe_data f, None))))"

definition file_OpenSnapshotV3 where
  "file_OpenSnapshotV3 lz4 flt tree gen index =
     open_v3 lz4 flt tree (SnapshotsPathV3 gen) (FormatSnapshotFilenameV3 index)"

definition file_OpenWALSegmentV3 where
  "file_OpenWALSegmentV3 lz4 flt tree gen index offset =
     open_v3 lz4 flt tree (WALPathV3 gen) (FormatWALSegmentFilenameV3 index offset)"

definition file_client_v3 :: "(ltx_stream \<Rightarrow> ltx_stream) \<Rightarrow> v3_faults \<Rightarrow> v3_tree \<Rightarrow> client_v3" where
  "file_client_v3 lz4 flt tree =
     \<lparr>GenerationsV3 = file_GenerationsV3 flt tree,
      SnapshotsV3 = file_SnapshotsV3 flt tree,
      WALSegmentsV3 = file_WALSegmentsV3 flt tree,
      OpenSnapshotV3 = file_OpenSnapshotV3 lz4 flt tree,
      OpenWALSegmentV3 = file_OpenWALSegmentV3 lz4 flt tree\<rparr>"

section \<open>The listing of the segments\<close>

text \<open>The names in a directory are distinct.\<close>

definition tree_ok :: "v3_tree \<Rightarrow> bool" where
  "tree_ok tree \<longleftrightarrow> (\<forall>path es. tree path = Some es \<longrightarrow> distinct (map fst es))"

definition seg_of :: "string \<Rightarrow> string \<times> node \<Rightarrow> wal_segment_v3 option" where
  "seg_of gen e =
     (case snd e of
        DirNode \<Rightarrow> None
      | FileNode f \<Rightarrow>
          (case ParseWALSegmentFilenameV3 (fst e) of
             Inl _ \<Rightarrow> None
           | Inr (i, off) \<Rightarrow> Some \<lparr>sg_Generation = gen, sg_Index = i, sg_Offset = off,
               sg_Size = int (length (fe_data f)), sg_CreatedAt = fe_mtime f\<rparr>))"

lemma segment_entries_map:
  "segment_entries flt gen es = Inr segs \<Longrightarrow> segs = List.map_filter (seg_of gen) es"
  by (induction flt gen es arbitrary: segs rule: segment_entries.induct)
    (auto simp: List.map_filter_simps seg_of_def bindR_Inr_iff split: sum.splits option.splits)

lemma segment_entries_runs:
  "\<forall>n. v3f_info flt n = None \<Longrightarrow> segment_entries flt gen es = Inr (List.map_filter (seg_of gen) es)"
  by (induction flt gen es rule: segment_entries.induct)
    (auto simp: List.map_filter_simps seg_of_def split: sum.splits)

text \<open>The file names of segments.\<close>

definition seg_name :: "wal_segment_v3 \<Rightarrow> string" where
  "seg_name s = FormatWALSegmentFilenameV3 (sg_Index s) (sg_Offset s)"

definition seg_valid :: "string \<Rightarrow> wal_segment_v3 \<Rightarrow> bool" where
  "seg_valid gen s \<longleftrightarrow> sg_Generation s = gen \<and>
     0 \<le> sg_Index s \<and> sg_Index s < 2 ^ 32 \<and> 0 \<le> sg_Offset s \<and> sg_Offset s < 2 ^ 32"

lemma seg_of_Some:
  "seg_of gen e = Some s \<longleftrightarrow> seg_valid gen s \<and> fst e = seg_name s \<and>
     (\<exists>f. snd e = FileNode f \<and> sg_Size s = int (length (fe_data f)) \<and> sg_CreatedAt s = fe_mtime f)"
proof (cases "snd e")
  case (FileNode f)
  have "seg_of gen e = Some s \<longleftrightarrow>
      ParseWALSegmentFilenameV3 (fst e) = Inr (sg_Index s, sg_Offset s) \<and> sg_Generation s = gen \<and>
      sg_Size s = int (length (fe_data f)) \<and> sg_CreatedAt s = fe_mtime f"
    by (cases s) (auto simp: seg_of_def FileNode split: sum.splits)
  then show ?thesis by (auto simp: ParseWALSegment_iff seg_valid_def seg_name_def FileNode)
qed (simp add: seg_of_def)

lemma distinct_seg_keys:
  "distinct (map fst es) \<Longrightarrow> distinct (map seg_key (List.map_filter (seg_of gen) es))"
proof (induction es)
  case (Cons e es)
  have "seg_key s \<noteq> seg_key t" if "seg_of gen e = Some s" "e' \<in> set es" "seg_of gen e' = Some t" for s t e'
    using that Cons.prems by (auto simp: seg_of_Some seg_key_def seg_name_def image_iff)
  with Cons show ?case by (fastforce simp: List.map_filter_simps map_filter_in split: option.splits)
qed (simp add: List.map_filter_simps)

lemma file_WALSegmentsV3_listing:
  assumes "tree_ok tree" "file_WALSegmentsV3 flt tree gen = Inr segs"
  shows "sorted_wrt (<) (map seg_key segs) \<and> (\<forall>s \<in> set segs. seg_valid gen s)"
proof -
  obtain es where es: "read_dir flt tree (WALPathV3 gen) = Inr es"
    and s: "segs = sort_key seg_key (List.map_filter (seg_of gen) es)"
    using assms(2) by (auto simp: file_WALSegmentsV3_def bindR_Inr_iff dest: segment_entries_map)
  have "distinct (map fst es)"
    using es assms(1) by (auto simp: read_dir_def tree_ok_def split: option.splits if_splits)
  from distinct_seg_keys [OF this, of gen] show ?thesis
    by (auto simp: s strict_sorted_iff distinct_map inj_on_def map_filter_in seg_of_Some)
qed

section \<open>What the interface promises\<close>

locale backups_v3 =
  fixes ok :: "'t \<Rightarrow> bool" and cl :: "'t \<Rightarrow> client_v3"
  assumes segments_sorted:
      "ok t \<Longrightarrow> WALSegmentsV3 (cl t) gen = Inr segs \<Longrightarrow> sorted_wrt (<) (map seg_key segs)"
    and segments_valid:
      "ok t \<Longrightarrow> WALSegmentsV3 (cl t) gen = Inr segs \<Longrightarrow> s \<in> set segs \<Longrightarrow> seg_valid gen s"
begin

lemma filtered_sorted:
  assumes "ok t" "WALSegmentsV3 (cl t) gen = Inr segs"
  shows "sorted_wrt (<) (map seg_key (filterWALSegmentsV3 segs n ts))"
  using segments_sorted [OF assms]
  by (simp add: filterWALSegmentsV3_def sorted_wrt_map sorted_wrt_filter)

lemma first_segment:
  assumes "ok t" "WALSegmentsV3 (cl t) gen = Inr segs"
    and "s \<in> set (filterWALSegmentsV3 segs n ts)" "seg_key s = (n, 0)"
  shows "hd (filterWALSegmentsV3 segs n ts) = s"
proof (cases "filterWALSegmentsV3 segs n ts")
  case (Cons h r)
  then have "h \<in> set (filterWALSegmentsV3 segs n ts)" by simp
  then have h: "h \<in> set segs" "n \<le> sg_Index h" by (auto simp: filterWALSegmentsV3_def)
  have "0 \<le> sg_Offset h" using segments_valid [OF assms(1,2) h(1)] by (simp add: seg_valid_def)
  then have "\<not> seg_key h < seg_key s" using h(2) assms(4) by (auto simp: seg_key_def)
  moreover have "\<forall>x \<in> set r. seg_key h < seg_key x"
    using filtered_sorted [OF assms(1,2), of n ts] by (simp add: Cons)
  ultimately show ?thesis using assms(3) Cons by auto
qed (use assms in simp)

end

interpretation file_v3: backups_v3 tree_ok "file_client_v3 lz4 flt"
  by unfold_locales (auto simp: file_client_v3_def dest: file_WALSegmentsV3_listing)

section \<open>Listing and opening agree\<close>

definition tree_lookup :: "v3_tree \<Rightarrow> string list \<Rightarrow> string \<Rightarrow> node option" where
  "tree_lookup tree path name = (case tree path of None \<Rightarrow> None | Some es \<Rightarrow> map_of es name)"

definition no_v3_faults :: v3_faults where
  "no_v3_faults = \<lparr>v3f_readDir = (\<lambda>p. None), v3f_info = (\<lambda>n. None), v3f_open = (\<lambda>p n. None)\<rparr>"

lemma in_tree:
  assumes "tree_ok tree"
  shows "(n, nd) \<in> set (case tree path of None \<Rightarrow> [] | Some es \<Rightarrow> es) \<longleftrightarrow> tree_lookup tree path n = Some nd"
  using assms by (auto simp: tree_ok_def tree_lookup_def split: option.splits)

text \<open>C39: Over a readable replica directory the v0.3.x client lists the WAL segments in strictly ascending
  order of index and offset; it lists a segment exactly when the regular file of its name is there, with
  the size and time of that file; and opening a listed segment gives the decompressed contents of that
  file.\<close>

theorem file_v3_segments_exact:
  assumes "tree_ok tree"
  shows "case WALSegmentsV3 (file_client_v3 lz4 no_v3_faults tree) gen of
      Inl e \<Rightarrow> False
    | Inr segs \<Rightarrow>
        sorted_wrt (<) (map seg_key segs) \<and>
        (\<forall>s. s \<in> set segs \<longleftrightarrow> seg_valid gen s \<and>
          (\<exists>f. tree_lookup tree (WALPathV3 gen) (seg_name s) = Some (FileNode f) \<and>
             sg_Size s = int (length (fe_data f)) \<and> sg_CreatedAt s = fe_mtime f)) \<and>
        (\<forall>s f. s \<in> set segs \<and> tree_lookup tree (WALPathV3 gen) (seg_name s) = Some (FileNode f) \<longrightarrow>
          OpenWALSegmentV3 (file_client_v3 lz4 no_v3_faults tree) gen (sg_Index s) (sg_Offset s) =
            Inr (lz4 (fe_data f, None)))"
proof -
  define es where "es = (case tree (WALPathV3 gen) of None \<Rightarrow> [] | Some es \<Rightarrow> es)"
  define segs where "segs = sort_key seg_key (List.map_filter (seg_of gen) es)"
  have w: "WALSegmentsV3 (file_client_v3 lz4 no_v3_faults tree) gen = Inr segs"
    using segment_entries_runs [of no_v3_faults gen es]
    by (simp add: file_client_v3_def file_WALSegmentsV3_def read_dir_def no_v3_faults_def es_def segs_def)
  have srt: "sorted_wrt (<) (map seg_key segs)"
    using file_v3.segments_sorted [OF assms w] .
  have mem: "s \<in> set segs \<longleftrightarrow> seg_valid gen s \<and>
      (\<exists>f. tree_lookup tree (WALPathV3 gen) (seg_name s) = Some (FileNode f) \<and>
         sg_Size s = int (length (fe_data f)) \<and> sg_CreatedAt s = fe_mtime f)" for s
    by (simp add: segs_def map_filter_in seg_of_Some in_tree [OF assms, symmetric] es_def [symmetric] Bex_def)
      (metis fst_conv snd_conv prod.collapse)
  have opn: "OpenWALSegmentV3 (file_client_v3 lz4 no_v3_faults tree) gen (sg_Index s) (sg_Offset s) =
      Inr (lz4 (fe_data f, None))"
    if "tree_lookup tree (WALPathV3 gen) (seg_name s) = Some (FileNode f)" for s f
    using that by (simp add: file_client_v3_def file_OpenWALSegmentV3_def open_v3_def no_v3_faults_def
        tree_lookup_def seg_name_def)
  show ?thesis unfolding w using srt mem opn by simp
qed

text \<open>A directory with a segment, a file of another name and a segment of a later offset.\<close>

definition ex_tree :: v3_tree where
  "ex_tree path =
     (if path = WALPathV3 ''g''
      then Some [(FormatWALSegmentFilenameV3 1 32, FileNode \<lparr>fe_data = [7], fe_mtime = 4\<rparr>),
                 (''notes'', FileNode \<lparr>fe_data = [], fe_mtime = 4\<rparr>),
                 (FormatWALSegmentFilenameV3 1 0, FileNode \<lparr>fe_data = [5, 6], fe_mtime = 3\<rparr>)]
      else None)"

theorem file_v3_segments_exact_witness:
  "\<exists>segs. WALSegmentsV3 (file_client_v3 id no_v3_faults ex_tree) ''g'' = Inr segs \<and>
     \<lparr>sg_Generation = ''g'', sg_Index = 1, sg_Offset = 0, sg_Size = 2, sg_CreatedAt = 3\<rparr> \<in> set segs"
proof -
  have n: "FormatWALSegmentFilenameV3 1 32 = ''00000001_00000020.wal.lz4''"
    "FormatWALSegmentFilenameV3 1 0 = ''00000001_00000000.wal.lz4''" by code_simp+
  have "tree_ok ex_tree" by (auto simp: tree_ok_def ex_tree_def n)
  note t = file_v3_segments_exact [OF this, of "''g''" id]
  have "tree_lookup ex_tree (WALPathV3 ''g'') (FormatWALSegmentFilenameV3 1 0) =
      Some (FileNode \<lparr>fe_data = [5, 6], fe_mtime = 3\<rparr>)"
    by (simp add: tree_lookup_def ex_tree_def n)
  then show ?thesis using t by (auto simp: seg_valid_def seg_name_def split: sum.splits)
qed

end
