(* ===== verification/Restore.thy ===== *)
theory Restore
  imports V3_Client Restore_Plan Follow
begin

text \<open>
  \<open>Restore\<close> and \<open>RestoreV3\<close> of \<open>replica.go\<close>: the checks of the options, the resumption of follow mode,
  the choice of the format, the restore into a temporary file and its rename to the output path, the
  integrity check, and the entry of follow mode.

  The files beside the output path are a map from the suffix of their name to their contents; the
  TXID sidecar is kept as its value. System calls fail as \<open>rv_os\<close> says. The package \<open>ltx\<close> compacts the
  files of the plan and decodes the database: \<open>rv_decode\<close> is the stream it writes, from the open
  readers. SQLite's answer to a pragma is \<open>rv_query\<close>. \<open>Following\<close> is the entry of the follow loop, whose
  ticks are \<open>follow_tick\<close>; \<open>Crashed\<close> is the panic of an empty plan, which never happens.
\<close>

section \<open>Model\<close>

definition IntegrityCheckNone :: int where "IntegrityCheckNone = 0"
definition IntegrityCheckQuick :: int where "IntegrityCheckQuick = 1"
definition IntegrityCheckFull :: int where "IntegrityCheckFull = 2"

record restore_options =
  OutputPath :: string
  opt_TXID :: u64
  opt_Timestamp :: go_time
  opt_Follow :: bool
  opt_FollowInterval :: int
  opt_IntegrityCheck :: int

datatype rs_op = RsStatFollow | RsReadTXID | RsParseTXID | RsStat | RsMkdir | RsCreate | RsSync | RsClose
  | RsRename | RsSqlOpen | RsOpenFollow

record 'rc restore_env =
  rv_list :: ltx_lister
  rv_open :: "int \<Rightarrow> u64 \<Rightarrow> u64 \<Rightarrow> go_error + 'rc"
  rv_v3 :: "client_v3 option"
  rv_v3os :: v3_os
  rv_MaxTXID :: "file_info list \<Rightarrow> u64"
  rv_HeaderSize :: int
  rv_decode :: "'rc resumable list \<Rightarrow> ltx_stream"
  rv_query :: "string \<Rightarrow> byte list option \<Rightarrow> go_error + string"
  rv_canceled :: bool
  rv_os :: "rs_op \<Rightarrow> go_error option"
  rv_txid :: "txid_op \<Rightarrow> go_error option"

record out_dir =
  od_file :: "string \<Rightarrow> byte list option"
  od_side :: "u64 option"

datatype restore_result = Returned "go_error option" | Following u64 u32 | Crashed

definition put :: "string \<Rightarrow> byte list option \<Rightarrow> out_dir \<Rightarrow> out_dir" where
  "put suffix c st = st\<lparr>od_file := (od_file st)(suffix := c)\<rparr>"

definition os_Stat :: "'rc restore_env \<Rightarrow> rs_op \<Rightarrow> out_dir \<Rightarrow> go_error option" where
  "os_Stat env call st =
     (case rv_os env call of
        Some e \<Rightarrow> Some e
      | None \<Rightarrow> (case od_file st '''' of None \<Rightarrow> Some ErrNotExist | Some _ \<Rightarrow> None))"

definition valid_mode :: "int \<Rightarrow> bool" where
  "valid_mode mode \<longleftrightarrow> \<not> (mode \<noteq> IntegrityCheckNone \<and> mode \<noteq> IntegrityCheckQuick \<and> mode \<noteq> IntegrityCheckFull)"

subsection \<open>Integrity check\<close>

definition checkIntegrity :: "'rc restore_env \<Rightarrow> int \<Rightarrow> out_dir \<Rightarrow> go_error option \<times> out_dir" where
  "checkIntegrity env mode st =
     (if mode = IntegrityCheckNone then (None, st)
      else (case rv_os env RsSqlOpen of
        Some e \<Rightarrow> (Some (Wrapf ''open database for integrity check'' e), st)
      | None \<Rightarrow>
          (if mode \<noteq> IntegrityCheckQuick \<and> mode \<noteq> IntegrityCheckFull
           then (Some (Errorf ''unsupported integrity check mode''), st)
           else (case rv_query env (if mode = IntegrityCheckQuick then ''quick_check'' else ''integrity_check'')
                        (od_file st '''') of
                   Inl e \<Rightarrow> (Some (Wrapf ''integrity check'' e), st)
                 | Inr result \<Rightarrow>
                     if result \<noteq> ''ok'' then (Some (Errorf ''integrity check failed''), st)
                     else (None, put ''-wal'' None (put ''-shm'' None st))))))"

text \<open>The check after the rename; a database that fails it is removed, unless the caller gave up.\<close>

definition post_check :: "'rc restore_env \<Rightarrow> int \<Rightarrow> out_dir \<Rightarrow> go_error option \<times> out_dir" where
  "post_check env mode st =
     (if mode = IntegrityCheckNone then (None, st)
      else (case checkIntegrity env mode st of
        (Some e, st') \<Rightarrow>
          (Some (Wrapf ''post-restore integrity check'' e),
           if \<not> rv_canceled env then put ''-wal'' None (put ''-shm'' None (put '''' None st')) else st')
      | (None, st') \<Rightarrow> (None, st')))"

subsection \<open>The v0.3.x format\<close>

definition downloadSnapshotV3 ::
  "'rc restore_env \<Rightarrow> client_v3 \<Rightarrow> string \<Rightarrow> int \<Rightarrow> out_dir \<Rightarrow> go_error option \<times> out_dir" where
  "downloadSnapshotV3 env cl gen index st =
     (case OpenSnapshotV3 cl gen index of
        Inl e \<Rightarrow> (Some e, st)
      | Inr (bs, err) \<Rightarrow>
          (case rv_os env RsCreate of
             Some e \<Rightarrow> (Some e, st)
           | None \<Rightarrow>
               (case err of
                  Some e \<Rightarrow> (Some e, put ''.tmp'' (Some bs) st)
                | None \<Rightarrow> (rv_os env RsSync, put ''.tmp'' (Some bs) st))))"

definition choose_v3 :: "client_v3 \<Rightarrow> go_time \<Rightarrow> go_error + snapshot_v3" where
  "choose_v3 cl timestamp =
     bindR (wrapR ''list generations'' (GenerationsV3 cl)) (\<lambda>gens.
       if gens = [] then Inl ErrNoSnapshots
       else bindR (collect_snapshots cl ''list snapshots for generation'' gens) (\<lambda>snaps.
         if snaps = [] then Inl ErrNoSnapshots
         else (case findBestSnapshotV3 (sortSnapshotsV3ByCreatedAt snaps) timestamp of
                 None \<Rightarrow> Inl ErrNoSnapshots
               | Some snapshot \<Rightarrow> Inr snapshot)))"

text \<open>The part with the temporary file, which is removed on every return.\<close>

definition restore_tmp_v3 ::
  "'rc restore_env \<Rightarrow> client_v3 \<Rightarrow> snapshot_v3 \<Rightarrow> wal_segment_v3 list \<Rightarrow> int \<Rightarrow> out_dir \<Rightarrow>
     go_error option \<times> out_dir" where
  "restore_tmp_v3 env cl snapshot segments mode st =
     (case downloadSnapshotV3 env cl (sn_Generation snapshot) (sn_Index snapshot) st of
        (Some e, st1) \<Rightarrow> (Some (Wrapf ''download snapshot'' e), st1)
      | (None, st1) \<Rightarrow>
          (case applyWALSegmentsV3 (rv_v3os env) cl (sn_Generation snapshot) segments
                  (the (od_file st1 ''.tmp''), od_file st1 ''.tmp-wal'') of
             (err, db, w) \<Rightarrow>
               (let st2 = put ''.tmp-wal'' w (put ''.tmp'' (Some db) st1) in
                (case err of
                   Some e \<Rightarrow> (Some (Wrapf ''apply WAL segments'' e), st2)
                 | None \<Rightarrow>
                     (case rv_os env RsRename of
                        Some e \<Rightarrow> (Some (Wrapf ''rename to output path'' e), st2)
                      | None \<Rightarrow> post_check env mode (put ''.tmp'' None (put '''' (Some db) st2)))))))"

definition RestoreV3 :: "'rc restore_env \<Rightarrow> restore_options \<Rightarrow> out_dir \<Rightarrow> go_error option \<times> out_dir" where
  "RestoreV3 env opt st =
     (case rv_v3 env of
        None \<Rightarrow> (Some (Errorf ''replica client does not support v0.3.x restore''), st)
      | Some cl \<Rightarrow>
          (if OutputPath opt = '''' then (Some (Errorf ''output path required''), st)
           else if \<not> valid_mode (opt_IntegrityCheck opt) then (Some (Errorf ''unsupported integrity check mode''), st)
           else (case os_Stat env RsStat st of
             None \<Rightarrow> (Some (Errorf ''cannot restore, output path already exists''), st)
           | Some se \<Rightarrow>
               if \<not> os_IsNotExist se then (Some se, st)
               else (case bindR (choose_v3 cl (opt_Timestamp opt)) (\<lambda>snapshot.
                           bindR (wrapR ''list WAL segments'' (WALSegmentsV3 cl (sn_Generation snapshot))) (\<lambda>segments.
                             Inr (snapshot, filterWALSegmentsV3 segments (sn_Index snapshot) (opt_Timestamp opt)))) of
                       Inl e \<Rightarrow> (Some e, st)
                     | Inr (snapshot, segments) \<Rightarrow>
                         (case rv_os env RsMkdir of
                            Some e \<Rightarrow> (Some (Wrapf ''create parent directory'' e), st)
                          | None \<Rightarrow>
                              (case restore_tmp_v3 env cl snapshot segments (opt_IntegrityCheck opt) st of
                                 (r, st') \<Rightarrow> (r, put ''.tmp'' None st')))))))"

subsection \<open>LTX files\<close>

fun open_plan :: "'rc restore_env \<Rightarrow> file_info list \<Rightarrow> go_error + 'rc resumable list" where
  "open_plan env [] = Inr []"
| "open_plan env (info # infos) =
     (if Size info < rv_HeaderSize env then Inl (Errorf ''invalid ltx file'')
      else bindR (wrapR ''open ltx file'' (rv_open env (Level info) (MinTXID info) (MaxTXID info))) (\<lambda>f.
           bindR (open_plan env infos) (\<lambda>rdrs. Inr (NewResumableReader (Size info) f # rdrs))))"

text \<open>\<open>follow\<close> up to its loop.\<close>

definition enter_follow :: "'rc restore_env \<Rightarrow> u64 \<Rightarrow> out_dir \<Rightarrow> restore_result" where
  "enter_follow env txid st =
     (case (case rv_os env RsOpenFollow of
              Some e \<Rightarrow> Inl e
            | None \<Rightarrow> (case od_file st '''' of None \<Rightarrow> Inl ErrNotExist | Some f \<Rightarrow> Inr f)) of
        Inl e \<Rightarrow> Returned (Some (Wrapf ''open database for follow'' e))
      | Inr f \<Rightarrow> (case header_page_size f of
                    Inl e \<Rightarrow> Returned (Some e)
                  | Inr ps \<Rightarrow> Following txid ps))"

definition resume_follow :: "'rc restore_env \<Rightarrow> out_dir \<Rightarrow> restore_result" where
  "resume_follow env st =
     (case ReadTXIDFile (rv_os env RsReadTXID) (rv_os env RsParseTXID) (od_side st) of
        Inl e \<Rightarrow> Returned (Some (Wrapf ''read txid file for crash recovery'' e))
      | Inr txid \<Rightarrow>
          if txid = 0 then Returned (Some (Errorf ''cannot resume follow mode: no -txid file found''))
          else (case rv_list env SnapshotLevel 0 False of
                  Inl e \<Rightarrow> Returned (Some (Wrapf ''cannot validate saved TXID for crash recovery'' e))
                | Inr it \<Rightarrow>
                    (case it_err it of
                       Some e \<Rightarrow> Returned (Some (Wrapf ''iterate snapshots for crash recovery validation'' e))
                     | None \<Rightarrow>
                         (if it_items it \<noteq> [] \<and> MinTXID (last (it_items it)) > txid
                          then Returned (Some (Errorf ''cannot resume follow mode: saved TXID is behind the earliest snapshot''))
                          else if it_items it \<noteq> [] \<and> txid > MaxTXID (last (it_items it))
                          then Returned (Some (Errorf ''cannot resume follow mode: saved TXID is ahead of latest snapshot''))
                          else enter_follow env txid st))))"

text \<open>The temporary file, the rename, the check and the entry of follow mode.\<close>

definition restore_tmp ::
  "'rc restore_env \<Rightarrow> restore_options \<Rightarrow> file_info list \<Rightarrow> 'rc resumable list \<Rightarrow> out_dir \<Rightarrow> restore_result \<times> out_dir" where
  "restore_tmp env opt infos rdrs st =
     (case rv_os env RsCreate of Some e \<Rightarrow> (Returned (Some (Wrapf ''create temp database path'' e)), st) | None \<Rightarrow>
     (case rv_decode env rdrs of (bs, derr) \<Rightarrow>
       (let st1 = put ''.tmp'' (Some bs) st in
        (case derr of Some e \<Rightarrow> (Returned (Some (Wrapf ''decode database'' e)), st1) | None \<Rightarrow>
        (case rv_os env RsSync of Some e \<Rightarrow> (Returned (Some e), st1) | None \<Rightarrow>
        (case rv_os env RsClose of Some e \<Rightarrow> (Returned (Some e), st1) | None \<Rightarrow>
        (case rv_os env RsRename of Some e \<Rightarrow> (Returned (Some e), st1) | None \<Rightarrow>
        (case post_check env (opt_IntegrityCheck opt) (put ''.tmp'' None (put '''' (Some bs) st1)) of
           (Some e, st2) \<Rightarrow> (Returned (Some e), st2)
         | (None, st2) \<Rightarrow>
             if opt_Follow opt
             then (case WriteTXIDFile (rv_txid env) (MaxTXID (last infos)) (od_side st2) of
                     (Some e, side) \<Rightarrow> (Returned (Some (Wrapf ''write initial txid file'' e)), st2\<lparr>od_side := side\<rparr>)
                   | (None, side) \<Rightarrow>
                       (let st3 = st2\<lparr>od_side := side\<rparr> in (enter_follow env (MaxTXID (last infos)) st3, st3)))
             else (Returned None, st2)))))))))"

definition restore_ltx :: "'rc restore_env \<Rightarrow> restore_options \<Rightarrow> out_dir \<Rightarrow> restore_result \<times> out_dir" where
  "restore_ltx env opt st =
     (case CalcRestorePlan (rv_MaxTXID env) (rv_list env) (opt_TXID opt) (opt_Timestamp opt) of
        Inl e \<Rightarrow> (Returned (Some (Wrapf ''cannot calc restore plan'' e)), st)
      | Inr infos \<Rightarrow>
          if infos = [] then (Crashed, st)
          else (case open_plan env infos of
                  Inl e \<Rightarrow> (Returned (Some e), st)
                | Inr rdrs \<Rightarrow>
                    if rdrs = [] then (Returned (Some (Errorf ''no matching backup files available'')), st)
                    else (case rv_os env RsMkdir of
                            Some e \<Rightarrow> (Returned (Some (Wrapf ''create parent directory'' e)), st)
                          | None \<Rightarrow> restore_tmp env opt infos rdrs st)))"

definition Restore_full :: "'rc restore_env \<Rightarrow> restore_options \<Rightarrow> out_dir \<Rightarrow> restore_result \<times> out_dir" where
  "Restore_full env opt st =
     (case os_Stat env RsStat st of
        None \<Rightarrow> (Returned (Some (Errorf ''cannot restore, output path already exists'')), st)
      | Some se \<Rightarrow>
          if \<not> os_IsNotExist se then (Returned (Some se), st)
          else (case (case rv_v3 env of
                        Some cl \<Rightarrow>
                          if opt_TXID opt = 0 \<and> \<not> opt_Follow opt
                          then shouldUseV3Restore (rv_list env) cl (opt_Timestamp opt) else Inr False
                      | None \<Rightarrow> Inr False) of
                  Inl e \<Rightarrow> (Returned (Some e), st)
                | Inr True \<Rightarrow> (case RestoreV3 env opt st of (r, st') \<Rightarrow> (Returned r, st'))
                | Inr False \<Rightarrow> restore_ltx env opt st))"

definition Restore :: "'rc restore_env \<Rightarrow> restore_options \<Rightarrow> out_dir \<Rightarrow> restore_result \<times> out_dir" where
  "Restore env opt st =
     (if OutputPath opt = '''' then (Returned (Some (Errorf ''output path required'')), st)
      else if opt_TXID opt \<noteq> 0 \<and> \<not> time_IsZero (opt_Timestamp opt)
      then (Returned (Some (Errorf ''cannot specify index & timestamp to restore'')), st)
      else if opt_Follow opt \<and> opt_TXID opt \<noteq> 0
      then (Returned (Some (Errorf ''cannot use follow mode with -txid'')), st)
      else if opt_Follow opt \<and> \<not> time_IsZero (opt_Timestamp opt)
      then (Returned (Some (Errorf ''cannot use follow mode with -timestamp'')), st)
      else if \<not> valid_mode (opt_IntegrityCheck opt)
      then (Returned (Some (Errorf ''unsupported integrity check mode'')), st)
      else if opt_Follow opt \<and> os_Stat env RsStatFollow st = None then (resume_follow env st, st)
      else Restore_full env opt st)"

section \<open>What a restore leaves at the output path\<close>

definition ltx_complete :: "'rc restore_env \<Rightarrow> restore_options \<Rightarrow> byte list \<Rightarrow> bool" where
  "ltx_complete env opt db \<longleftrightarrow>
     (\<exists>infos rdrs. CalcRestorePlan (rv_MaxTXID env) (rv_list env) (opt_TXID opt) (opt_Timestamp opt) = Inr infos \<and>
        open_plan env infos = Inr rdrs \<and> rv_decode env rdrs = (db, None))"

definition v3_complete :: "'rc restore_env \<Rightarrow> restore_options \<Rightarrow> byte list option \<Rightarrow> byte list \<Rightarrow> bool" where
  "v3_complete env opt w db \<longleftrightarrow>
     (\<exists>cl snapshot segs bs w'. rv_v3 env = Some cl \<and> choose_v3 cl (opt_Timestamp opt) = Inr snapshot \<and>
        WALSegmentsV3 cl (sn_Generation snapshot) = Inr segs \<and>
        OpenSnapshotV3 cl (sn_Generation snapshot) (sn_Index snapshot) = Inr (bs, None) \<and>
        applyWALSegmentsV3 (rv_v3os env) cl (sn_Generation snapshot)
          (filterWALSegmentsV3 segs (sn_Index snapshot) (opt_Timestamp opt)) (bs, w) = (None, db, w'))"

lemma put_simps [simp]:
  "od_file (put s c st) t = (if t = s then c else od_file st t)"
  "od_side (put s c st) = od_side st"
  by (simp_all add: put_def)

lemma checkIntegrity_keeps:
  "checkIntegrity env mode st = (r, st') \<Longrightarrow>
     od_side st' = od_side st \<and> (\<forall>s. s \<noteq> ''-wal'' \<and> s \<noteq> ''-shm'' \<longrightarrow> od_file st' s = od_file st s)"
  by (auto simp: checkIntegrity_def split: if_splits option.splits sum.splits)

lemma post_check_output:
  "post_check env mode st = (r, st') \<Longrightarrow>
     od_side st' = od_side st \<and>
     od_file st' '''' = (if r \<noteq> None \<and> \<not> rv_canceled env then None else od_file st '''')"
proof (cases "checkIntegrity env mode st")
  case (Pair c st1)
  have k: "od_side st1 = od_side st" "od_file st1 '''' = od_file st ''''"
    using checkIntegrity_keeps [OF Pair] by simp_all
  assume "post_check env mode st = (r, st')"
  then show ?thesis
    unfolding post_check_def Pair using k by (cases c) (auto split: if_splits)
qed

lemma restore_tmp_v3_output:
  assumes "restore_tmp_v3 env cl snapshot segments mode st = (r, st')"
  shows "od_side st' = od_side st \<and>
    (case r of
       None \<Rightarrow> \<exists>bs db w'. OpenSnapshotV3 cl (sn_Generation snapshot) (sn_Index snapshot) = Inr (bs, None) \<and>
          applyWALSegmentsV3 (rv_v3os env) cl (sn_Generation snapshot) segments (bs, od_file st ''.tmp-wal'') =
            (None, db, w') \<and> od_file st' '''' = Some db
     | Some e \<Rightarrow> od_file st' '''' = od_file st '''' \<or> od_file st' '''' = None \<or>
         rv_canceled env \<and> (\<exists>bs db w'. OpenSnapshotV3 cl (sn_Generation snapshot) (sn_Index snapshot) = Inr (bs, None) \<and>
          applyWALSegmentsV3 (rv_v3os env) cl (sn_Generation snapshot) segments (bs, od_file st ''.tmp-wal'') =
            (None, db, w') \<and> od_file st' '''' = Some db))"
proof (cases "downloadSnapshotV3 env cl (sn_Generation snapshot) (sn_Index snapshot) st")
  case (Pair d st1)
  have d1: "od_side st1 = od_side st" "od_file st1 '''' = od_file st ''''" "od_file st1 ''.tmp-wal'' = od_file st ''.tmp-wal''"
    using Pair by (auto simp: downloadSnapshotV3_def split: option.splits sum.splits prod.splits)
  show ?thesis
  proof (cases d)
    case (Some e)
    then show ?thesis using assms Pair d1 by (auto simp: restore_tmp_v3_def)
  next
    case None
    obtain bs where bs: "OpenSnapshotV3 cl (sn_Generation snapshot) (sn_Index snapshot) = Inr (bs, None)"
      "od_file st1 ''.tmp'' = Some bs"
      using Pair None by (auto simp: downloadSnapshotV3_def split: option.splits sum.splits prod.splits)
    obtain err db w where a: "applyWALSegmentsV3 (rv_v3os env) cl (sn_Generation snapshot) segments
        (bs, od_file st ''.tmp-wal'') = (err, db, w)" by (metis prod_cases3)
    show ?thesis
    proof (cases "err = None \<and> rv_os env RsRename = None")
      case True
      then have "post_check env mode (put ''.tmp'' None (put '''' (Some db)
          (put ''.tmp-wal'' w (put ''.tmp'' (Some db) st1)))) = (r, st')"
        using assms Pair None a bs d1 by (simp add: restore_tmp_v3_def Let_def)
      from post_check_output [OF this] show ?thesis
        using True a bs d1 by (cases r) auto
    next
      case False
      then show ?thesis
        using assms Pair None a bs d1 by (auto simp: restore_tmp_v3_def Let_def split: option.splits)
    qed
  qed
qed

lemma RestoreV3_output:
  assumes "RestoreV3 env opt st = (r, st')" "rv_os env RsStat \<noteq> Some ErrNotExist"
  shows "od_side st' = od_side st \<and>
    (case r of
       None \<Rightarrow> od_file st '''' = None \<and>
         (\<exists>db. od_file st' '''' = Some db \<and> v3_complete env opt (od_file st ''.tmp-wal'') db)
     | Some e \<Rightarrow> od_file st' '''' = od_file st '''' \<or> od_file st '''' = None \<and> rv_canceled env \<and>
         (\<exists>db. od_file st' '''' = Some db \<and> v3_complete env opt (od_file st ''.tmp-wal'') db))"
proof (cases "\<exists>cl snapshot segments. rv_v3 env = Some cl \<and> OutputPath opt \<noteq> '''' \<and> valid_mode (opt_IntegrityCheck opt) \<and>
    os_Stat env RsStat st = Some ErrNotExist \<and>
    choose_v3 cl (opt_Timestamp opt) = Inr snapshot \<and>
    WALSegmentsV3 cl (sn_Generation snapshot) = Inr segments \<and> rv_os env RsMkdir = None")
  case True
  then obtain cl snapshot segments where c: "rv_v3 env = Some cl" "OutputPath opt \<noteq> ''''"
    "valid_mode (opt_IntegrityCheck opt)" "os_Stat env RsStat st = Some ErrNotExist"
    "choose_v3 cl (opt_Timestamp opt) = Inr snapshot" "WALSegmentsV3 cl (sn_Generation snapshot) = Inr segments"
    "rv_os env RsMkdir = None" by blast
  have absent: "od_file st '''' = None" using c(4) assms(2) by (auto simp: os_Stat_def split: option.splits)
  obtain st1 where t: "restore_tmp_v3 env cl snapshot
      (filterWALSegmentsV3 segments (sn_Index snapshot) (opt_Timestamp opt)) (opt_IntegrityCheck opt) st = (r, st1)"
    and s: "st' = put ''.tmp'' None st1"
    using assms(1) c by (auto simp: RestoreV3_def os_IsNotExist_def split: prod.splits)
  have comp: "v3_complete env opt (od_file st ''.tmp-wal'') db"
    if "OpenSnapshotV3 cl (sn_Generation snapshot) (sn_Index snapshot) = Inr (bs, None)"
      "applyWALSegmentsV3 (rv_v3os env) cl (sn_Generation snapshot)
         (filterWALSegmentsV3 segments (sn_Index snapshot) (opt_Timestamp opt)) (bs, od_file st ''.tmp-wal'') =
         (None, db, w')" for bs db w'
    unfolding v3_complete_def using that c by blast
  show ?thesis
    using restore_tmp_v3_output [OF t] absent comp by (cases r) (auto simp: s)
next
  case False
  then have "st' = st \<and> r \<noteq> None"
    using assms(1) unfolding RestoreV3_def
    by (auto simp: bindR_def wrapR_def os_IsNotExist_def split: if_splits option.splits sum.splits prod.splits)
      metis+
  then show ?thesis by auto
qed

lemma WriteTXIDFile_None: "WriteTXIDFile flt txid side = (None, side') \<Longrightarrow> side' = Some txid"
  by (auto simp: WriteTXIDFile_def split: option.splits)

lemma enter_follow_Following: "enter_follow env txid st = Following t ps \<Longrightarrow>
    t = txid \<and> (\<exists>db. od_file st '''' = Some db \<and> header_page_size db = Inr ps)"
  by (auto simp: enter_follow_def split: option.splits sum.splits)

lemma enter_follow_cases: "enter_follow env txid st \<noteq> Crashed \<and> enter_follow env txid st \<noteq> Returned None"
  by (auto simp: enter_follow_def split: option.splits sum.splits)

lemma restore_tmp_output:
  assumes "restore_tmp env opt infos rdrs st = (r, st')"
  shows "case r of
      Crashed \<Rightarrow> False
    | Following t ps \<Rightarrow> opt_Follow opt \<and> t = MaxTXID (last infos) \<and> od_side st' = Some t \<and>
        (\<exists>db. rv_decode env rdrs = (db, None) \<and> od_file st' '''' = Some db \<and> header_page_size db = Inr ps)
    | Returned None \<Rightarrow> \<not> opt_Follow opt \<and> od_side st' = od_side st \<and>
        (\<exists>db. rv_decode env rdrs = (db, None) \<and> od_file st' '''' = Some db)
    | Returned (Some e) \<Rightarrow> od_file st' '''' = od_file st '''' \<or> od_file st' '''' = None \<or>
        (rv_canceled env \<or> opt_Follow opt) \<and>
        (\<exists>db. rv_decode env rdrs = (db, None) \<and> od_file st' '''' = Some db)"
proof (cases "\<exists>db. rv_os env RsCreate = None \<and> rv_decode env rdrs = (db, None) \<and> rv_os env RsSync = None \<and>
    rv_os env RsClose = None \<and> rv_os env RsRename = None")
  case False
  then have "(\<exists>e. r = Returned (Some e)) \<and> od_file st' '''' = od_file st ''''"
    using assms unfolding restore_tmp_def by (auto simp: Let_def split: option.splits prod.splits)
  then show ?thesis by auto
next
  case True
  then obtain db where d: "rv_os env RsCreate = None" "rv_decode env rdrs = (db, None)" "rv_os env RsSync = None"
    "rv_os env RsClose = None" "rv_os env RsRename = None" by blast
  obtain c st2 where p: "post_check env (opt_IntegrityCheck opt)
      (put ''.tmp'' None (put '''' (Some db) (put ''.tmp'' (Some db) st))) = (c, st2)" by force
  note P = post_check_output [OF p]
  obtain w side where w: "WriteTXIDFile (rv_txid env) (MaxTXID (last infos)) (od_side st2) = (w, side)" by force
  show ?thesis
  proof (cases "c = None \<and> opt_Follow opt \<and> w = None")
    case True
    then have s: "st' = st2\<lparr>od_side := side\<rparr>"
      using assms d p w by (simp add: restore_tmp_def Let_def)
    then have r: "r = enter_follow env (MaxTXID (last infos)) st'"
      using assms d p w True by (simp add: restore_tmp_def Let_def)
    have o: "od_file st' '''' = Some db" "od_side st' = Some (MaxTXID (last infos))"
      using P True s w WriteTXIDFile_None by auto
    show ?thesis
    proof (cases r)
      case (Following t ps)
      then have "enter_follow env (MaxTXID (last infos)) st' = Following t ps" using r by simp
      from enter_follow_Following [OF this] show ?thesis using Following o d True by simp
    next
      case (Returned e)
      then obtain x where "e = Some x" using r enter_follow_cases [of env _ st'] by (cases e) metis+
      then show ?thesis using Returned o d True by simp
    qed (use r enter_follow_cases in metis)
  next
    case False
    then show ?thesis
      using assms d p w P by (auto simp: restore_tmp_def Let_def split: option.splits if_splits)
  qed
qed

lemma open_plan_Nil: "open_plan env infos = Inr rdrs \<Longrightarrow> rdrs = [] \<longleftrightarrow> infos = []"
  by (cases infos) (auto simp: bindR_Inr_iff split: if_splits)

definition plan_ends :: "'rc restore_env \<Rightarrow> restore_options \<Rightarrow> u64 \<Rightarrow> bool" where
  "plan_ends env opt t \<longleftrightarrow>
     (\<exists>infos. CalcRestorePlan (rv_MaxTXID env) (rv_list env) (opt_TXID opt) (opt_Timestamp opt) = Inr infos \<and>
        t = MaxTXID (last infos))"

text \<open>A restore from v0.3.x backups is chosen.\<close>

definition picks_v3 :: "'rc restore_env \<Rightarrow> restore_options \<Rightarrow> bool" where
  "picks_v3 env opt \<longleftrightarrow> opt_TXID opt = 0 \<and> \<not> opt_Follow opt \<and>
     (\<exists>cl. rv_v3 env = Some cl \<and> shouldUseV3Restore (rv_list env) cl (opt_Timestamp opt) = Inr True)"

lemma restore_ltx_output:
  assumes "restore_ltx env opt st = (r, st')" "slice_max_law (rv_MaxTXID env)"
  shows "case r of
      Crashed \<Rightarrow> False
    | Following t ps \<Rightarrow> opt_Follow opt \<and> od_side st' = Some t \<and> plan_ends env opt t \<and>
        (\<exists>db. ltx_complete env opt db \<and> od_file st' '''' = Some db \<and> header_page_size db = Inr ps)
    | Returned None \<Rightarrow> \<not> opt_Follow opt \<and> od_side st' = od_side st \<and>
        (\<exists>db. ltx_complete env opt db \<and> od_file st' '''' = Some db)
    | Returned (Some e) \<Rightarrow> od_file st' '''' = od_file st '''' \<or> od_file st' '''' = None \<or>
        (rv_canceled env \<or> opt_Follow opt) \<and> (\<exists>db. ltx_complete env opt db \<and> od_file st' '''' = Some db)"
proof (cases "CalcRestorePlan (rv_MaxTXID env) (rv_list env) (opt_TXID opt) (opt_Timestamp opt)")
  case (Inl e)
  then show ?thesis using assms(1) by (auto simp: restore_ltx_def)
next
  case (Inr infos)
  have ne: "infos \<noteq> []" by (rule CalcRestorePlan_anatomy [OF Inr assms(2)])
  show ?thesis
  proof (cases "\<exists>rdrs. open_plan env infos = Inr rdrs \<and> rv_os env RsMkdir = None")
    case True
    then obtain rdrs where o: "open_plan env infos = Inr rdrs" "rv_os env RsMkdir = None" by blast
    then have t: "restore_tmp env opt infos rdrs st = (r, st')"
      using assms(1) Inr ne open_plan_Nil [OF o(1)] by (simp add: restore_ltx_def)
    have "ltx_complete env opt db" if "rv_decode env rdrs = (db, None)" for db
      using that Inr o by (auto simp: ltx_complete_def)
    moreover have "plan_ends env opt (MaxTXID (last infos))" using Inr by (auto simp: plan_ends_def)
    ultimately show ?thesis using restore_tmp_output [OF t] by (auto split: restore_result.splits option.splits)
  next
    case False
    then show ?thesis
      using assms(1) Inr ne by (auto simp: restore_ltx_def split: sum.splits option.splits if_splits)
  qed
qed

lemma ReadTXIDFile_nonzero: "ReadTXIDFile re pe side = Inr t \<Longrightarrow> t \<noteq> 0 \<Longrightarrow> side = Some t"
  by (auto simp: ReadTXIDFile_def split: option.splits sum.splits if_splits)

lemma resume_follow_cases:
  "(\<exists>e. resume_follow env st = Returned (Some e)) \<or>
   (\<exists>t. od_side st = Some t \<and> resume_follow env st = enter_follow env t st)"
proof (cases "ReadTXIDFile (rv_os env RsReadTXID) (rv_os env RsParseTXID) (od_side st)")
  case (Inr t)
  then show ?thesis
    using ReadTXIDFile_nonzero [OF Inr]
    by (cases "rv_list env SnapshotLevel 0 False") (auto simp: resume_follow_def split: option.splits)
qed (simp add: resume_follow_def)

lemma Restore_cases:
  "(\<exists>e. Restore env opt st = (Returned (Some e), st)) \<or>
   Restore env opt st = (resume_follow env st, st) \<and> opt_Follow opt \<and> os_Stat env RsStatFollow st = None \<or>
   Restore env opt st = Restore_full env opt st"
  by (simp add: Restore_def)

lemma Restore_full_cases:
  "(\<exists>e. Restore_full env opt st = (Returned (Some e), st)) \<or> os_Stat env RsStat st = Some ErrNotExist"
  by (cases "os_Stat env RsStat st") (auto simp: Restore_full_def os_IsNotExist_def)

lemma Restore_output:
  assumes "slice_max_law (rv_MaxTXID env)" "rv_os env RsStat \<noteq> Some ErrNotExist"
  shows "case Restore env opt st of
      (Crashed, st') \<Rightarrow> False
    | (Following t ps, st') \<Rightarrow> opt_Follow opt \<and> od_side st' = Some t \<and>
        (st' = st \<and> od_file st '''' \<noteq> None \<or>
         plan_ends env opt t \<and> (\<exists>db. od_file st '''' = None \<and> ltx_complete env opt db \<and> od_file st' '''' = Some db \<and> header_page_size db = Inr ps))
    | (Returned None, st') \<Rightarrow> \<not> opt_Follow opt \<and> od_file st '''' = None \<and>
        (\<exists>db. (ltx_complete env opt db \<or> picks_v3 env opt \<and> v3_complete env opt (od_file st ''.tmp-wal'') db) \<and>
           od_file st' '''' = Some db)
    | (Returned (Some e), st') \<Rightarrow> od_file st' '''' = od_file st '''' \<or>
        od_file st '''' = None \<and> (rv_canceled env \<or> opt_Follow opt) \<and>
        (\<exists>db. (ltx_complete env opt db \<or> picks_v3 env opt \<and> v3_complete env opt (od_file st ''.tmp-wal'') db) \<and>
           od_file st' '''' = Some db)"
proof (cases "Restore env opt st")
  case (Pair r st')
  show ?thesis
  proof (cases "Restore env opt st = Restore_full env opt st \<and> os_Stat env RsStat st = Some ErrNotExist")
    case True
    then have absent: "od_file st '''' = None" using assms(2) by (auto simp: os_Stat_def split: option.splits)
    have full: "Restore_full env opt st = (r, st')" using True Pair by simp
    define v3 where "v3 = (case rv_v3 env of
        Some cl \<Rightarrow> if opt_TXID opt = 0 \<and> \<not> opt_Follow opt
                   then shouldUseV3Restore (rv_list env) cl (opt_Timestamp opt) else Inr False
      | None \<Rightarrow> Inr False)"
    consider (err) e where "v3 = Inl e" | (v3) "v3 = Inr True" | (ltx) "v3 = Inr False"
      by (cases v3) auto
    then show ?thesis
    proof cases
      case err
      then have "r = Returned (Some e)" "st' = st"
        using full True unfolding Restore_full_def v3_def [symmetric] by (simp_all add: os_IsNotExist_def)
      then show ?thesis by (simp add: Pair)
    next
      case v3
      obtain r3 where r3: "RestoreV3 env opt st = (r3, st')" "r = Returned r3"
        using full True v3 unfolding Restore_full_def v3_def [symmetric]
        by (cases "RestoreV3 env opt st") (auto simp: os_IsNotExist_def)
      have "picks_v3 env opt" "\<not> opt_Follow opt" using v3 by (auto simp: picks_v3_def v3_def split: option.splits if_splits)
      then show ?thesis using RestoreV3_output [OF r3(1) assms(2)] absent r3(2)
        by (cases r3) (auto simp: Pair)
    next
      case ltx
      then have l: "restore_ltx env opt st = (r, st')"
        using full True unfolding Restore_full_def v3_def [symmetric] by (simp add: os_IsNotExist_def)
      show ?thesis using restore_ltx_output [OF l assms(1)] absent
        by (auto simp: Pair split: restore_result.splits option.splits)
    qed
  next
    case False
    show ?thesis
    proof (cases "Restore env opt st = (resume_follow env st, st) \<and> opt_Follow opt \<and> os_Stat env RsStatFollow st = None")
      case True
      then have p: "od_file st '''' \<noteq> None" by (auto simp: os_Stat_def split: option.splits)
      have "case resume_follow env st of Crashed \<Rightarrow> False | Following t ps \<Rightarrow> od_side st = Some t
          | Returned None \<Rightarrow> False | Returned (Some e) \<Rightarrow> True"
        using resume_follow_cases [of env st]
      proof (elim disjE exE conjE)
        fix t
        assume t: "od_side st = Some t" "resume_follow env st = enter_follow env t st"
        show ?thesis
          using t enter_follow_cases [of env t st] enter_follow_Following [of env t st]
          by (cases "enter_follow env t st") (auto split: option.splits)
      qed simp
      then show ?thesis using True p by (auto split: restore_result.splits option.splits)
    next
      case F: False
      have "\<exists>e. Restore env opt st = (Returned (Some e), st)"
        using False F Restore_cases [of env opt st] Restore_full_cases [of env opt st] by auto
      then show ?thesis by auto
    qed
  qed
qed

text \<open>C12: Whatever fails, the output path never holds a partially written database. A restore that
  succeeds starts from an absent output path and leaves there the complete database of its plan, or of the
  v0.3.x backup; follow mode starts on a complete database whose sidecar names its last transaction, or
  resumes on the existing one. A restore that fails leaves the output path as it was, or absent, or, when
  the caller gave up or the entry of follow mode failed, with the complete database. No restore panics.\<close>

theorem Restore_atomic:
  assumes "slice_max_law (rv_MaxTXID env)" "rv_os env RsStat \<noteq> Some ErrNotExist"
  shows "case Restore env opt st of
      (Crashed, st') \<Rightarrow> False
    | (Following t ps, st') \<Rightarrow> opt_Follow opt \<and> od_side st' = Some t \<and>
        (st' = st \<and> od_file st '''' \<noteq> None \<or>
         (\<exists>db. od_file st '''' = None \<and> ltx_complete env opt db \<and> od_file st' '''' = Some db \<and> header_page_size db = Inr ps))
    | (Returned None, st') \<Rightarrow> \<not> opt_Follow opt \<and> od_file st '''' = None \<and>
        (\<exists>db. (ltx_complete env opt db \<or> v3_complete env opt (od_file st ''.tmp-wal'') db) \<and>
           od_file st' '''' = Some db)
    | (Returned (Some e), st') \<Rightarrow> od_file st' '''' = od_file st '''' \<or>
        od_file st '''' = None \<and> (rv_canceled env \<or> opt_Follow opt) \<and>
        (\<exists>db. (ltx_complete env opt db \<or> v3_complete env opt (od_file st ''.tmp-wal'') db) \<and>
           od_file st' '''' = Some db)"
  using Restore_output [OF assms, of opt st] by (auto split: prod.splits restore_result.splits option.splits)

text \<open>A snapshot of transactions 1 to 4, restored without follow mode.\<close>

definition ex_snap :: file_info where
  "ex_snap = \<lparr>Level = 9, MinTXID = 1, MaxTXID = 4, Size = 200, CreatedAt = 5\<rparr>"

definition ex_renv :: "unit restore_env" where
  "ex_renv = \<lparr>rv_list = (\<lambda>l sk um. Inr \<lparr>it_items = (if l = 9 then [ex_snap] else []), it_err = None, it_close = None\<rparr>),
     rv_open = (\<lambda>l mn mx. Inr ()), rv_v3 = Some ex_v3, rv_v3os = ex_v3_os, rv_MaxTXID = ex_max,
     rv_HeaderSize = 100, rv_decode = (\<lambda>rdrs. ([1, 2, 3], None)), rv_query = (\<lambda>p db. Inr ''ok''),
     rv_canceled = False, rv_os = (\<lambda>x. None), rv_txid = (\<lambda>x. None)\<rparr>"

definition ex_ropt :: restore_options where
  "ex_ropt = \<lparr>OutputPath = ''db'', opt_TXID = 4, opt_Timestamp = 0, opt_Follow = False,
     opt_FollowInterval = 1, opt_IntegrityCheck = IntegrityCheckFull\<rparr>"

definition ex_dir :: out_dir where
  "ex_dir = \<lparr>od_file = (\<lambda>s. None), od_side = None\<rparr>"

lemma ex_restore_plan: "CalcRestorePlan (rv_MaxTXID ex_renv) (rv_list ex_renv) 4 0 = Inr [ex_snap]"
  by (simp add: CalcRestorePlan_def ex_renv_def SnapshotLevel_def ex_snap_def ex_max_def)

theorem Restore_atomic_witness:
  "\<exists>db st'. Restore ex_renv ex_ropt ex_dir = (Returned None, st') \<and> od_file st' '''' = Some db \<and>
     (ltx_complete ex_renv ex_ropt db \<or> v3_complete ex_renv ex_ropt None db)"
proof -
  have l: "slice_max_law (rv_MaxTXID ex_renv)" using ex_max_law by (simp add: ex_renv_def)
  have "opt_TXID ex_ropt = 4" "opt_Timestamp ex_ropt = 0" by (simp_all add: ex_ropt_def)
  then have "restore_ltx ex_renv ex_ropt ex_dir = restore_tmp ex_renv ex_ropt [ex_snap] [NewResumableReader 200 ()] ex_dir"
    using ex_restore_plan by (simp add: restore_ltx_def) (simp add: ex_renv_def ex_snap_def)
  also have "fst \<dots> = Returned None"
    by (simp add: restore_tmp_def ex_renv_def ex_ropt_def post_check_def checkIntegrity_def
        IntegrityCheckFull_def IntegrityCheckNone_def IntegrityCheckQuick_def Let_def)
  finally have f: "fst (restore_ltx ex_renv ex_ropt ex_dir) = Returned None" .
  have "OutputPath ex_ropt = ''db''" "opt_Follow ex_ropt = False" "valid_mode (opt_IntegrityCheck ex_ropt)"
    "opt_TXID ex_ropt = 4" "opt_Timestamp ex_ropt = 0" "rv_v3 ex_renv = Some ex_v3" "rv_os ex_renv RsStat = None"
    "od_file ex_dir '''' = None"
    by (simp_all add: ex_ropt_def ex_renv_def ex_dir_def valid_mode_def)
  with f have "fst (Restore ex_renv ex_ropt ex_dir) = Returned None"
    by (simp add: Restore_def Restore_full_def os_Stat_def os_IsNotExist_def)
  then obtain st' where r: "Restore ex_renv ex_ropt ex_dir = (Returned None, st')" by (metis prod.collapse)
  show ?thesis using Restore_atomic [OF l, of ex_ropt ex_dir] r by (auto simp: ex_renv_def ex_dir_def)
qed

section \<open>The database a v0.3.x restore leaves\<close>


text \<open>A backup of one snapshot and two segments of its WAL file.\<close>

definition ex_gen :: string where "ex_gen = ''0123456789abcdef''"

definition ex_backup :: v3_tree where
  "ex_backup path =
     (if path = GenerationsPathV3 then Some [(ex_gen, DirNode), (''tmp'', DirNode)]
      else if path = SnapshotsPathV3 ex_gen
      then Some [(FormatSnapshotFilenameV3 1, FileNode \<lparr>fe_data = [9, 9], fe_mtime = 2\<rparr>)]
      else if path = WALPathV3 ex_gen
      then Some [(FormatWALSegmentFilenameV3 1 32, FileNode \<lparr>fe_data = [7], fe_mtime = 4\<rparr>),
                 (FormatWALSegmentFilenameV3 1 0, FileNode \<lparr>fe_data = [5, 6], fe_mtime = 3\<rparr>)]
      else None)"

definition ex_backup_client :: client_v3 where
  "ex_backup_client = file_client_v3 id no_v3_faults ex_backup"

definition ex_v3snap :: snapshot_v3 where
  "ex_v3snap = \<lparr>sn_Generation = ex_gen, sn_Index = 1, sn_Size = 2, sn_CreatedAt = 2\<rparr>"

definition ex_segs :: "wal_segment_v3 list" where
  "ex_segs = [\<lparr>sg_Generation = ex_gen, sg_Index = 1, sg_Offset = 0, sg_Size = 2, sg_CreatedAt = 3\<rparr>,
     \<lparr>sg_Generation = ex_gen, sg_Index = 1, sg_Offset = 32, sg_Size = 1, sg_CreatedAt = 4\<rparr>]"

lemma ex_backup_facts:
  "choose_v3 ex_backup_client 0 = Inr ex_v3snap"
  "WALSegmentsV3 ex_backup_client ex_gen = Inr ex_segs"
  "OpenSnapshotV3 ex_backup_client ex_gen 1 = Inr ([9, 9], None)"
  "OpenWALSegmentV3 ex_backup_client ex_gen 1 0 = Inr ([5, 6], None)"
  "OpenWALSegmentV3 ex_backup_client ex_gen 1 32 = Inr ([7], None)"
  "filterWALSegmentsV3 ex_segs 1 0 = ex_segs"
  by code_simp+

lemma ex_backup_ok: "tree_ok ex_backup"
proof -
  have "FormatWALSegmentFilenameV3 1 32 \<noteq> FormatWALSegmentFilenameV3 1 0" "ex_gen \<noteq> ''tmp''" by code_simp+
  then show ?thesis by (simp add: tree_ok_def ex_backup_def)
qed

definition ex_renv3 :: "unit restore_env" where
  "ex_renv3 = ex_renv\<lparr>rv_v3 := Some ex_backup_client\<rparr>"

definition ex_ropt3 :: restore_options where
  "ex_ropt3 = ex_ropt\<lparr>opt_TXID := 0\<rparr>"

lemma ex_apply3:
  "applyWALSegmentsV3 ex_v3_os ex_backup_client ex_gen ex_segs ([9, 9], None) = (None, [9, 9, 7, 6, 5], Some [])"
  using ex_backup_facts
  by (simp add: applyWALSegmentsV3_def ex_segs_def applyLastWalFile_def appendWALSegmentV3_def ex_v3_os_def write_at_def)


end
