(* ===== verification/Restore_Replay.thy ===== *)
theory Restore_Replay
  imports Restore Follow_Consistency
begin

text \<open>
  What the files of a restore plan add up to, \<open>replica.go\<close>: with a history of transactions as the sync loop
  writes them and files that merge ranges of it, the database \<open>Restore\<close> leaves is that of the plan's last
  transaction, and it is one that follow mode can start from.

  The package \<open>ltx\<close> reads the files and writes the database: \<open>content\<close> is what it decodes from a reader, and
  \<open>decode_law\<close> its documented result, the newest version of each page of the files, in their order.
\<close>

section \<open>Overlaying files\<close>

fun overlaid :: "ltx_file list \<Rightarrow> u32 \<Rightarrow> byte list option" where
  "overlaid [] p = None"
| "overlaid (f # fs) p = (case overlaid fs p of Some d \<Rightarrow> Some d | None \<Rightarrow> map_of (lpages f) p)"

lemma overlaid_snoc:
  "overlaid (fs @ [f]) p = (case map_of (lpages f) p of Some d \<Rightarrow> Some d | None \<Rightarrow> overlaid fs p)"
  by (induction fs) (auto split: option.splits)

definition merges :: "(nat \<Rightarrow> ltx_file) \<Rightarrow> file_info \<Rightarrow> ltx_file \<Rightarrow> bool" where
  "merges tx info f \<longleftrightarrow> 1 \<le> MinTXID info \<and> MinTXID info \<le> MaxTXID info \<and> lpages_err f = None \<and>
     merged_ltx tx (unat (MinTXID info)) (unat (MaxTXID info)) (f, None)"

lemma merges_page:
  assumes "merges tx info f" "map_of (lpages f) p = Some d"
  shows "newest tx [unat (MinTXID info) ..< Suc (unat (MaxTXID info))] p = Some d"
  using assms map_of_SomeD [OF assms(2)] by (auto simp: merges_def merged_ltx_def simp del: upt_Suc)

lemma merges_all:
  assumes "merges tx info f" "p \<le> tx_commit tx (unat (MaxTXID info))" "map_of (lpages f) p = None"
    and "unat (MinTXID info) \<le> i" "i \<le> unat (MaxTXID info)"
  shows "\<not> changed tx i p"
proof -
  have "newest tx [unat (MinTXID info) ..< Suc (unat (MaxTXID info))] p = None"
    using assms(1-3) by (auto simp: merges_def merged_ltx_def map_of_eq_None_iff simp del: upt_Suc)
  then show ?thesis using assms(4,5) by (simp add: newest_None del: upt_Suc)
qed

text \<open>A contiguous run of files from transaction 1 has every page of the database it ends with.\<close>

lemma overlaid_history:
  assumes "history_ok tx ps lock" "infos \<noteq> []" "contiguous 0 infos" "list_all2 (merges tx) infos fs"
    and "p \<noteq> 0" "p \<noteq> lock" "p \<le> tx_commit tx (unat (MaxTXID (last infos)))"
  shows "overlaid fs p = Some (hist_page tx (unat (MaxTXID (last infos))) p)"
  using assms(2-4,7)
proof (induction infos arbitrary: fs rule: rev_induct)
  case (snoc info infos)
  let ?a = "unat (MinTXID info)" and ?b = "unat (MaxTXID info)"
  obtain gs f where fs: "fs = gs @ [f]" "list_all2 (merges tx) infos gs" "merges tx info f"
    using snoc.prems(3) by (auto simp: list_all2_append1 list_all2_Cons1)
  have ab: "1 \<le> ?a" "?a \<le> ?b"
    using fs(3) by (simp_all add: merges_def word_le_nat_alt)
  have pb: "p \<le> tx_commit tx ?b" using snoc.prems(4) by simp
  show ?case
  proof (cases "map_of (lpages f) p")
    case (Some d)
    from hist_newest [OF merges_page [OF fs(3) Some] ab] Some show ?thesis
      by (simp add: fs(1) overlaid_snoc)
  next
    case None
    have unch: "\<not> changed tx i p" if "?a \<le> i" "i \<le> ?b" for i
      by (rule merges_all [OF fs(3) pb None that])
    show ?thesis
    proof (cases "infos = []")
      case True
      then have "?a = 1" using snoc.prems(2) ab(1) by simp
      then have u: "\<forall>i. 1 < i \<and> i \<le> ?b \<longrightarrow> \<not> changed tx i p" "\<not> changed tx 1 p" using unch ab(2) by simp_all
      have "p \<le> tx_commit tx 1"
        by (rule page_throughout [OF assms(1) _ assms(5,6) u(1) pb]) (use ab in simp_all)
      then have "changed tx 1 p" using assms(1,5,6) by (simp add: history_ok_def)
      with u(2) show ?thesis by simp
    next
      case False
      let ?m = "MaxTXID (last infos)"
      have e: "end_txid 0 infos = ?m" using False by (induction infos rule: rev_induct) simp_all
      have m: "?a \<le> unat ?m + 1" "unat ?m < ?b" "contiguous 0 infos"
        using snoc.prems(2) by (simp_all add: e word_less_nat_alt)
      have m1: "1 \<le> unat ?m"
      proof -
        have "merges tx (last infos) (last gs)"
          using fs(2) False by (metis list_all2_lengthD last_conv_nth length_0_conv list_all2_nthD diff_less length_greater_0_conv zero_less_one)
        then have "1 \<le> MaxTXID (last infos)" by (auto simp: merges_def)
        then show ?thesis by (simp add: word_le_nat_alt)
      qed
      have u: "\<forall>i. unat ?m < i \<and> i \<le> ?b \<longrightarrow> \<not> changed tx i p" using unch m(1) by simp
      have "p \<le> tx_commit tx (unat ?m)"
        by (rule page_throughout [OF assms(1) m1 assms(5,6) u pb]) (use m in simp_all)
      from snoc.IH [OF False m(3) fs(2) this] None hist_unchanged [OF _ u] m(2)
      show ?thesis by (simp add: fs(1) overlaid_snoc)
    qed
  qed
qed simp

section \<open>The restored database\<close>

definition replica_history ::
  "'rc restore_env \<Rightarrow> (nat \<Rightarrow> ltx_file) \<Rightarrow> ('rc resumable \<Rightarrow> ltx_file) \<Rightarrow> bool" where
  "replica_history env tx content \<longleftrightarrow>
     (\<forall>level seek um it info. rv_list env level seek um = Inr it \<and> info \<in> set (it_items it) \<longrightarrow>
        (level = SnapshotLevel \<longrightarrow> MinTXID info = 1) \<and>
        (\<forall>rc. rv_open env (Level info) (MinTXID info) (MaxTXID info) = Inr rc \<longrightarrow>
           merges tx info (content (NewResumableReader (Size info) rc))))"

definition decode_law ::
  "nat \<Rightarrow> u32 \<Rightarrow> ('rc resumable \<Rightarrow> ltx_file) \<Rightarrow> ('rc resumable list \<Rightarrow> ltx_stream) \<Rightarrow> bool" where
  "decode_law ps lock content dec \<longleftrightarrow>
     (\<forall>rdrs db. rdrs \<noteq> [] \<and> dec rdrs = (db, None) \<longrightarrow>
        (let c = hCommit (lheader (content (last rdrs))) in
         length db = unat c * ps \<and>
         (\<forall>p d. p \<noteq> 0 \<and> p \<noteq> lock \<and> p \<le> c \<and> overlaid (map content rdrs) p = Some d \<longrightarrow> file_page ps db p = d)))"

text \<open>A file is the database after transaction \<open>n\<close>.\<close>

definition database_at :: "(nat \<Rightarrow> ltx_file) \<Rightarrow> nat \<Rightarrow> u32 \<Rightarrow> nat \<Rightarrow> byte list \<Rightarrow> bool" where
  "database_at tx ps lock n db \<longleftrightarrow>
     length db = unat (tx_commit tx n) * ps \<and>
     (\<forall>p. p \<noteq> 0 \<and> p \<noteq> lock \<and> p \<le> tx_commit tx n \<longrightarrow> file_page ps db p = hist_page tx n p)"

lemma database_at_clean: "database_at tx ps lock n db \<Longrightarrow> 1 \<le> n \<Longrightarrow> clean tx ps lock db n"
  by (auto simp: database_at_def clean_def shows_page_def word_le_nat_alt intro: mult_le_mono1)

lemma open_plan_readers:
  "open_plan env infos = Inr rdrs \<Longrightarrow>
   list_all2 (\<lambda>info rdr. \<exists>rc. rv_open env (Level info) (MinTXID info) (MaxTXID info) = Inr rc \<and>
     rdr = NewResumableReader (Size info) rc) infos rdrs"
  by (induction infos arbitrary: rdrs) (auto simp: bindR_Inr_iff split: if_splits)

lemma listing_elem: "info \<in> set (listing client um level) \<Longrightarrow>
    \<exists>it. client level 0 um = Inr it \<and> info \<in> set (it_items it)"
  by (cases "client level 0 um") (auto simp: listing_def)

lemma plan_start_elem:
  assumes "plan_start client t ts = s # r"
  shows "r = [] \<and> s \<in> set (listing client (\<not> time_IsZero ts) SnapshotLevel)"
proof (cases "filter (in_target t ts) (listing client (\<not> time_IsZero ts) SnapshotLevel)")
  case Nil
  then show ?thesis using assms by (simp add: plan_start_def)
next
  case (Cons x xs)
  then have "s = last (x # xs)" "r = []" using assms by (simp_all add: plan_start_def)
  moreover have "last (x # xs) \<in> set (filter (in_target t ts) (listing client (\<not> time_IsZero ts) SnapshotLevel))"
    unfolding Cons by (rule last_in_set) simp
  ultimately show ?thesis by simp
qed

lemma plan_database:
  assumes h: "history_ok tx ps lock" "replica_history env tx content" "decode_law ps lock content (rv_decode env)"
    and m: "slice_max_law (rv_MaxTXID env)"
    and p: "CalcRestorePlan (rv_MaxTXID env) (rv_list env) t ts = Inr infos"
    and o: "open_plan env infos = Inr rdrs" "rv_decode env rdrs = (db, None)"
  shows "database_at tx ps lock (unat (MaxTXID (last infos))) db \<and> 1 \<le> MaxTXID (last infos)"
proof -
  obtain ext where S: "infos = plan_start (rv_list env) t ts @ ext" "infos \<noteq> []"
    "contiguous (end_txid 0 (plan_start (rv_list env) t ts)) ext" "set ext \<subseteq> set (level_files (rv_list env) ts)"
    using CalcRestorePlan_sound' [OF p m] by blast
  have listed: "\<exists>level it. rv_list env level 0 (\<not> time_IsZero ts) = Inr it \<and> info \<in> set (it_items it)"
    if i: "info \<in> set infos" for info
  proof -
    consider "info \<in> set (plan_start (rv_list env) t ts)" | "info \<in> set (level_files (rv_list env) ts)"
      using i S(1,4) by auto
    then show ?thesis
    proof cases
      case 1
      then obtain x r where x: "plan_start (rv_list env) t ts = x # r" by (cases "plan_start (rv_list env) t ts") auto
      from plan_start_elem [OF x] 1 x have "info \<in> set (listing (rv_list env) (\<not> time_IsZero ts) SnapshotLevel)" by simp
      then show ?thesis using listing_elem by blast
    next
      case 2
      then show ?thesis using listing_elem unfolding level_files_def by fastforce
    qed
  qed
  have merge: "list_all2 (merges tx) infos (map content rdrs)"
    unfolding list_all2_map2
    using open_plan_readers [OF o(1)]
  proof (rule list.rel_mono_strong)
    fix info rdr
    assume i: "info \<in> set infos" and "\<exists>rc. rv_open env (Level info) (MinTXID info) (MaxTXID info) = Inr rc \<and>
      rdr = NewResumableReader (Size info) rc"
    with listed [OF i] h(2) show "merges tx info (content rdr)" unfolding replica_history_def by metis
  qed
  have ne: "rdrs \<noteq> []" using open_plan_Nil [OF o(1)] S(2) by simp
  have "merges tx (last infos) (content (last rdrs))"
    using merge S(2) ne by (metis list_all2_conv_all_nth last_conv_nth length_map last_map diff_less length_greater_0_conv zero_less_one map_is_Nil_conv)
  then have c: "hCommit (lheader (content (last rdrs))) = tx_commit tx (unat (MaxTXID (last infos)))"
    "1 \<le> MaxTXID (last infos)"
    by (auto simp: merges_def merged_ltx_def)
  have cont: "contiguous 0 infos"
  proof (cases "plan_start (rv_list env) t ts")
    case Nil
    then show ?thesis using S(1,3) by simp
  next
    case (Cons s r)
    then have s: "r = []" "s \<in> set (listing (rv_list env) (\<not> time_IsZero ts) SnapshotLevel)"
      using plan_start_elem by blast+
    obtain it where "rv_list env SnapshotLevel 0 (\<not> time_IsZero ts) = Inr it" "s \<in> set (it_items it)"
      using listing_elem [OF s(2)] by blast
    then have "MinTXID s = 1" using h(2) unfolding replica_history_def by blast
    moreover have "merges tx s (hd (map content rdrs))" using merge Cons S(1) by (auto simp: list_all2_Cons1)
    ultimately have "0 < MaxTXID s" by (auto simp: merges_def word_le_nat_alt word_less_nat_alt)
    then show ?thesis using S(1,3) Cons s(1) \<open>MinTXID s = 1\<close> by simp
  qed
  have page: "overlaid (map content rdrs) p = Some (hist_page tx (unat (MaxTXID (last infos))) p)"
    if "p \<noteq> 0" "p \<noteq> lock" "p \<le> tx_commit tx (unat (MaxTXID (last infos)))" for p
    by (rule overlaid_history [OF h(1) S(2) cont merge that])
  have "length db = unat (tx_commit tx (unat (MaxTXID (last infos)))) * ps \<and>
    (\<forall>p d. p \<noteq> 0 \<and> p \<noteq> lock \<and> p \<le> tx_commit tx (unat (MaxTXID (last infos))) \<and> overlaid (map content rdrs) p = Some d \<longrightarrow>
       file_page ps db p = d)"
    using h(3) ne o(2) unfolding decode_law_def Let_def c(1) [symmetric] by blast
  then show ?thesis using page c(2) by (simp add: database_at_def)
qed

lemma ltx_complete_database:
  assumes "history_ok tx ps lock" "replica_history env tx content" "decode_law ps lock content (rv_decode env)"
    and "slice_max_law (rv_MaxTXID env)" "ltx_complete env opt db"
  shows "\<exists>t. plan_ends env opt t \<and> (opt_TXID opt \<noteq> 0 \<longrightarrow> t = opt_TXID opt) \<and> 1 \<le> unat t \<and> database_at tx ps lock (unat t) db"
proof -
  obtain infos rdrs where c: "CalcRestorePlan (rv_MaxTXID env) (rv_list env) (opt_TXID opt) (opt_Timestamp opt) = Inr infos"
    "open_plan env infos = Inr rdrs" "rv_decode env rdrs = (db, None)"
    using assms(5) by (auto simp: ltx_complete_def)
  from plan_database [OF assms(1-4) c] CalcRestorePlan_sound' [OF c(1) assms(4)] c(1) show ?thesis
    by (auto simp: plan_ends_def word_le_nat_alt)
qed

text \<open>C4: A replica whose files merge ranges of a history of transactions, each snapshot from the first, restored without
  the v0.3.x format. Success leaves, page by page save the lock page, the database after the last
  transaction of the plan, which is the one asked for when one is; follow mode starts on such a database, clean
  at the transaction it continues from; and a failure leaves the output as it was, absent, or such a
  database. No intermediate state and no mixture of transactions is ever left.\<close>

theorem Restore_replays:
  assumes "slice_max_law (rv_MaxTXID env)" "rv_os env RsStat \<noteq> Some ErrNotExist" "\<not> picks_v3 env opt"
    and "history_ok tx ps lock" "replica_history env tx content" "decode_law ps lock content (rv_decode env)"
  shows "case Restore env opt st of
      (Crashed, st') \<Rightarrow> False
    | (Following t pz, st') \<Rightarrow> st' = st \<and> od_file st '''' \<noteq> None \<or>
        (\<exists>db. od_file st' '''' = Some db \<and> database_at tx ps lock (unat t) db \<and> clean tx ps lock db (unat t))
    | (Returned None, st') \<Rightarrow>
        (\<exists>t db. od_file st' '''' = Some db \<and> plan_ends env opt t \<and> (opt_TXID opt \<noteq> 0 \<longrightarrow> t = opt_TXID opt) \<and>
           database_at tx ps lock (unat t) db)
    | (Returned (Some e), st') \<Rightarrow> od_file st' '''' = od_file st '''' \<or>
        od_file st '''' = None \<and>
        (\<exists>t db. od_file st' '''' = Some db \<and> plan_ends env opt t \<and> database_at tx ps lock (unat t) db)"
proof -
  have D: "\<exists>t. plan_ends env opt t \<and> (opt_TXID opt \<noteq> 0 \<longrightarrow> t = opt_TXID opt) \<and> 1 \<le> unat t \<and> database_at tx ps lock (unat t) db"
    if "ltx_complete env opt db" for db
    by (rule ltx_complete_database [OF assms(4-6,1) that])
  have F: "database_at tx ps lock (unat t) db \<and> clean tx ps lock db (unat t)"
    if c: "ltx_complete env opt db" and e: "plan_ends env opt t" for db t
  proof -
    obtain u where u: "plan_ends env opt u" "1 \<le> unat u" "database_at tx ps lock (unat u) db" using D [OF c] by blast
    then have "u = t" using e by (auto simp: plan_ends_def)
    with u show ?thesis using database_at_clean by blast
  qed
  obtain r st' where r: "Restore env opt st = (r, st')" by (cases "Restore env opt st")
  note R = Restore_output [OF assms(1,2), of opt st, unfolded r]
  show ?thesis
  proof (cases r)
    case Crashed
    then show ?thesis using R by simp
  next
    case (Following t pz)
    then show ?thesis using R F by (auto simp: r)
  next
    case (Returned e)
    then show ?thesis using R D assms(3) by (cases e) (auto simp: r, blast+)
  qed
qed

text \<open>Four transactions on a database of two pages, restored from a snapshot of all of them.\<close>

definition ex_two :: "(u32 \<times> byte list) list \<Rightarrow> ltx_file" where
  "ex_two pages = \<lparr>lheader = \<lparr>hPageSize = 2, hCommit = 2, hMinTXID = 1, hMaxTXID = 4, hTimestamp = 0, hWALOffset = 0,
     hWALSize = 0, hWALSalt1 = 0, hWALSalt2 = 0\<rparr>, lpages = pages, lpages_err = None\<rparr>"

definition ex_hist :: "nat \<Rightarrow> ltx_file" where
  "ex_hist i = ex_two (if i = 1 then [(1, [1, 1]), (2, [2, 2])] else [(1, [word_of_nat i, word_of_nat i])])"

definition ex_merged :: ltx_file where
  "ex_merged = ex_two [(1, [4, 4]), (2, [2, 2])]"

definition ex_renv4 :: "unit restore_env" where
  "ex_renv4 = ex_renv\<lparr>rv_decode := (\<lambda>rdrs. ([4, 4, 2, 2], None))\<rparr>"

lemma ex_newest: "newest ex_hist [1 ..< Suc 4] p = (if p = 1 then Some [4, 4] else if p = 2 then Some [2, 2] else None)"
proof -
  have "[1 ..< Suc 4] = [1, 2, 3, 4]" by (simp add: upt_rec)
  then show ?thesis by (simp add: ex_hist_def ex_two_def)
qed

lemma ex_history_ok: "history_ok ex_hist 2 2097153"
proof -
  have one_two: "p = 1 \<or> p = 2" if "p \<noteq> 0" "p \<le> 2" for p :: u32
  proof -
    have "unat p = 1 \<or> unat p = 2" using that by (auto simp: word_le_nat_alt unat_gt_0 [symmetric])
    then show ?thesis by (auto simp: word_unat_eq_iff)
  qed
  show ?thesis
    unfolding history_ok_def
  proof (intro allI impI conjI)
    fix i :: nat and p :: u32
    assume "1 \<le> i" and p: "p \<noteq> 0 \<and> p \<noteq> 2097153 \<and> p \<le> tx_commit ex_hist i \<and> (i = 1 \<or> tx_commit ex_hist (i - 1) < p)"
    then have "p = 1 \<or> p = 2" "i = 1" using one_two by (auto simp: tx_commit_def ex_hist_def ex_two_def)
    then show "changed ex_hist i p" by (auto simp: changed_def ex_hist_def ex_two_def)
  qed (auto simp: ex_hist_def ex_two_def tx_commit_def)
qed

lemma ex_merges: "merges ex_hist ex_snap ex_merged"
  using ex_newest
  by (auto simp: merges_def ex_snap_def ex_merged_def ex_two_def merged_ltx_def tx_commit_def ex_hist_def
      simp del: upt_Suc split: if_splits)

lemma ex_decode_law: "decode_law 2 2097153 (\<lambda>rdr. ex_merged) (rv_decode ex_renv4)"
proof -
  have o: "map_of (lpages ex_merged) p = Some d" if "overlaid (map (\<lambda>rdr. ex_merged) rdrs) p = Some d" for rdrs :: "unit resumable list" and p d
    using that by (induction rdrs) (auto split: option.splits)
  have "file_page 2 [4, 4, 2, 2] p = d" if "map_of (lpages ex_merged) p = Some d" for p d
    using that by (auto simp: ex_merged_def ex_two_def file_page_def sub_def split: if_splits)
  with o show ?thesis by (auto simp: decode_law_def ex_renv4_def ex_merged_def ex_two_def)
qed

theorem Restore_replays_witness:
  "\<exists>st' db. Restore ex_renv4 ex_ropt ex_dir = (Returned None, st') \<and> od_file st' '''' = Some db \<and>
     database_at ex_hist 2 2097153 4 db \<and> hist_page ex_hist 4 1 = [4, 4] \<and> hist_page ex_hist 4 2 = [2, 2]"
proof -
  have sel: "rv_MaxTXID ex_renv4 = ex_max" "rv_list ex_renv4 = rv_list ex_renv" "rv_open ex_renv4 = (\<lambda>l mn mx. Inr ())"
    "rv_os ex_renv4 = (\<lambda>x. None)" "rv_v3 ex_renv4 = Some ex_v3" "opt_TXID ex_ropt = 4" "opt_Timestamp ex_ropt = 0"
    "OutputPath ex_ropt = ''db''" "opt_Follow ex_ropt = False" "valid_mode (opt_IntegrityCheck ex_ropt)" "od_file ex_dir '''' = None"
    by (simp_all add: ex_renv4_def ex_renv_def ex_ropt_def ex_dir_def valid_mode_def)
  have l: "slice_max_law (rv_MaxTXID ex_renv4)" using ex_max_law by (simp add: sel)
  have h: "replica_history ex_renv4 ex_hist (\<lambda>rdr. ex_merged)"
    using ex_merges by (auto simp: replica_history_def sel ex_renv_def ex_snap_def)
  have v: "\<not> picks_v3 ex_renv4 ex_ropt" "rv_os ex_renv4 RsStat \<noteq> Some ErrNotExist" by (simp_all add: picks_v3_def sel)
  have "CalcRestorePlan (rv_MaxTXID ex_renv4) (rv_list ex_renv4) 4 0 = Inr [ex_snap]"
    using ex_restore_plan by (simp add: sel) (simp add: ex_renv_def)
  then have "restore_ltx ex_renv4 ex_ropt ex_dir = restore_tmp ex_renv4 ex_ropt [ex_snap] [NewResumableReader 200 ()] ex_dir"
    by (simp add: restore_ltx_def sel) (simp add: ex_renv4_def ex_renv_def ex_snap_def)
  also have "fst \<dots> = Returned None"
    by (simp add: restore_tmp_def ex_renv4_def ex_renv_def ex_ropt_def post_check_def checkIntegrity_def
        IntegrityCheckFull_def IntegrityCheckNone_def IntegrityCheckQuick_def Let_def)
  finally have "fst (Restore ex_renv4 ex_ropt ex_dir) = Returned None"
    by (simp add: Restore_def Restore_full_def os_Stat_def os_IsNotExist_def sel)
  then obtain st' where r: "Restore ex_renv4 ex_ropt ex_dir = (Returned None, st')" by (metis prod.collapse)
  have "hist_page ex_hist 4 1 = [4, 4]" "hist_page ex_hist 4 2 = [2, 2]"
    using ex_newest by (simp_all add: hist_page_def del: upt_Suc)
  then show ?thesis
    using Restore_replays [OF l v(2,1) ex_history_ok h ex_decode_law, of ex_dir] r by (auto simp: sel)
qed

end
