(* ===== verification/Vfs_File.thy ===== *)
theory Vfs_File
  imports Wal_Sync Compaction
begin

text \<open>
  A file of the SQLite VFS, \<open>vfs.go\<close>: page reads through the write buffer, the hydrated copy, the cache and
  the page index; page writes into the buffer; truncation; the upload of the buffered pages with its
  conflict check; and the poll of the replica.

  \<open>vfs_file\<close> is \<open>VFSFile\<close>. Maps that are iterated are association lists, the page cache a partial map:
  what the LRU library keeps when an entry is added is \<open>ve_cacheAdd\<close>. \<open>vf_hydrated\<close> is the hydrated copy once it
  is complete. The environment \<open>vfs_env\<close> gives what fetching a page, a page index or a header from the
  replica returns, the failures of the buffer file, random bytes, and the lock page. Offsets are
  natural numbers. A Go panic (a slice out of range) is \<open>Panicked\<close>; the buffer SQLite passes has no capacity beyond
  its length.
\<close>

section \<open>State\<close>

datatype lock_type = LockNone | LockShared | LockReserved | LockPending | LockExclusive

fun lock_level :: "lock_type \<Rightarrow> nat" where
  "lock_level LockNone = 0"
| "lock_level LockShared = 1"
| "lock_level LockReserved = 2"
| "lock_level LockPending = 3"
| "lock_level LockExclusive = 4"

instantiation lock_type :: linorder
begin

definition less_eq_lock_type :: "lock_type \<Rightarrow> lock_type \<Rightarrow> bool" where
  "a \<le> b \<longleftrightarrow> lock_level a \<le> lock_level b"

definition less_lock_type :: "lock_type \<Rightarrow> lock_type \<Rightarrow> bool" where
  "a < b \<longleftrightarrow> lock_level a < lock_level b"

instance
proof
  show "a = b" if "a \<le> b" "b \<le> a" for a b :: lock_type
    using that by (cases a; cases b) (simp_all add: less_eq_lock_type_def)
qed (auto simp: less_eq_lock_type_def less_lock_type_def)

end

record page_elem =
  pe_Level :: int
  pe_MinTXID :: u64
  pe_MaxTXID :: u64
  pe_Offset :: int
  pe_Size :: int

type_synonym page_index = "(u32 \<times> page_elem) list"

record vfs_file =
  vf_pos :: u64
  vf_maxTXID1 :: u64
  vf_index :: page_index
  vf_pending :: page_index
  vf_pendingReplace :: bool
  vf_cache :: "u32 \<rightharpoonup> byte list"
  vf_targetTime :: bool
  vf_lockType :: lock_type
  vf_pageSize :: u32
  vf_commit :: u32
  vf_writeEnabled :: bool
  vf_dirty :: "(u32 \<times> nat) list"
  vf_pendingTXID :: u64
  vf_expectedTXID :: u64
  vf_buffer :: "byte list"
  vf_bufferOpen :: bool
  vf_bufferNextOff :: nat
  vf_inTransaction :: bool
  vf_disabling :: bool
  vf_hydrated :: "byte list option"
  vf_hydratedTXID :: u64

record vfs_env =
  ve_fetch :: "nat \<Rightarrow> page_elem \<Rightarrow> go_error + byte list"
  ve_index :: "file_info \<Rightarrow> go_error + page_index"
  ve_header :: "file_info \<Rightarrow> go_error + u32"
  ve_cacheAdd :: "u32 \<Rightarrow> byte list \<Rightarrow> (u32 \<rightharpoonup> byte list) \<Rightarrow> (u32 \<rightharpoonup> byte list)"
  ve_mentionsEOF :: "go_error \<Rightarrow> bool"
  ve_ctxDone :: "nat \<Rightarrow> bool"
  ve_rand :: "byte \<times> byte \<times> byte \<times> byte"
  ve_lockPgno :: "u32 \<Rightarrow> u32"
  ve_bufWrite :: "(nat \<times> go_error) option"
  ve_bufTruncate :: "go_error option"
  ve_encode :: "ltx_file \<Rightarrow> ltx_stream"

section \<open>Reading\<close>

text \<open>Go's \<open>copy\<close> into a buffer; the number of bytes copied is the smaller length.\<close>

definition copy_into :: "byte list \<Rightarrow> byte list \<Rightarrow> byte list" where
  "copy_into p src = take (length p) src @ drop (length src) p"

definition journal_mode :: "byte \<times> byte \<times> byte \<times> byte \<Rightarrow> byte list \<Rightarrow> byte list" where
  "journal_mode rnd p = (case rnd of (a, b, c, d) \<Rightarrow> p[18 := 1, 19 := 1, 24 := a, 25 := b, 26 := c, 27 := d])"

definition isRetryablePageError :: "vfs_env \<Rightarrow> go_error \<Rightarrow> bool" where
  "isRetryablePageError env err \<longleftrightarrow>
     errors_Is err DeadlineExceeded \<or> errors_Is err Canceled \<or> errors_Is err ErrUnexpectedEOF \<or>
     ve_mentionsEOF env err \<or> errors_Is err ErrNotExist"

definition pageFetchRetryAttempts :: nat where "pageFetchRetryAttempts = 6"

fun fetch_loop :: "vfs_env \<Rightarrow> page_elem \<Rightarrow> nat \<Rightarrow> nat \<Rightarrow> go_error + byte list" where
  "fetch_loop env elem attempt 0 = Inr []"
| "fetch_loop env elem attempt (Suc left) =
     (case ve_fetch env attempt elem of
        Inr data \<Rightarrow> Inr data
      | Inl e \<Rightarrow>
          if \<not> isRetryablePageError env e then Inl (Wrapf ''fetch page'' e)
          else if left = 0 then Inl ErrBusy
          else if ve_ctxDone env attempt then Inl (Wrapf ''fetch page'' e)
          else fetch_loop env elem (attempt + 1) left)"

text \<open>The copy of a page's bytes from an offset and the patch of the first page, as after a cache hit or a
  fetch.\<close>

definition serve_page :: "vfs_env \<Rightarrow> byte list \<Rightarrow> nat \<Rightarrow> byte list \<Rightarrow> nat \<Rightarrow> (nat \<times> byte list \<times> go_error option) run" where
  "serve_page env p off data pageOffset =
     (if pageOffset > length data \<or> off = 0 \<and> length p < 28 then Panicked
      else let p' = copy_into p (drop pageOffset data)
           in Done (min (length p) (length data - pageOffset), if off = 0 then journal_mode (ve_rand env) p' else p', None))"

definition pgno_at :: "vfs_file \<Rightarrow> nat \<Rightarrow> u32" where
  "pgno_at f off = word_of_nat (off div unat (vf_pageSize f)) + 1"

definition pageSizeBytes :: "vfs_file \<Rightarrow> go_error + nat" where
  "pageSizeBytes f =
     (if vf_pageSize f = 0 then Inl (DBNotReady ''page size not initialized'') else Inr (unat (vf_pageSize f)))"

definition Hydrator_ReadAt :: "vfs_env \<Rightarrow> byte list \<Rightarrow> byte list \<Rightarrow> nat \<Rightarrow> nat \<times> byte list \<times> go_error option" where
  "Hydrator_ReadAt env h p off =
     (case file_ReadAt h (length p) (int off) of
        (got, err) \<Rightarrow>
          (let p' = copy_into p got in
           (case err of
              Some e \<Rightarrow> if e \<noteq> EOF then (length got, p', Some (Wrapf ''read hydrated file'' e))
                        else (length got, if off = 0 \<and> length p \<ge> 28 then journal_mode (ve_rand env) p' else p', None)
            | None \<Rightarrow> (length got, if off = 0 \<and> length p \<ge> 28 then journal_mode (ve_rand env) p' else p', None))))"

definition vfs_ReadAt ::
  "vfs_env \<Rightarrow> vfs_file \<Rightarrow> byte list \<Rightarrow> nat \<Rightarrow> (nat \<times> byte list \<times> go_error option) run \<times> vfs_file" where
  "vfs_ReadAt env f p off =
     (case pageSizeBytes f of
        Inl e \<Rightarrow> (Done (0, p, Some e), f)
      | Inr ps \<Rightarrow>
          (let pgno = pgno_at f off; pageOffset = off mod ps in
           (case (if vf_writeEnabled f then map_of (vf_dirty f) pgno else None) of
              Some bufferOff \<Rightarrow>
                (case file_ReadAt (vf_buffer f) ps (int bufferOff) of
                   (_, Some e) \<Rightarrow> (Done (0, p, Some (Wrapf ''read dirty page from buffer'' e)), f)
                 | (data, None) \<Rightarrow>
                     (let p' = copy_into p (drop pageOffset data)
                      in (Done (min (length p) (ps - pageOffset),
                            if off = 0 \<and> length p \<ge> 28 then journal_mode (ve_rand env) p' else p', None), f)))
            | None \<Rightarrow>
                (case vf_hydrated f of
                   Some h \<Rightarrow> (Done (Hydrator_ReadAt env h p off), f)
                 | None \<Rightarrow>
                     (case vf_cache f pgno of
                        Some data \<Rightarrow> (serve_page env p off data pageOffset, f)
                      | None \<Rightarrow>
                          (case map_of (vf_index f) pgno of
                             None \<Rightarrow>
                               if vf_writeEnabled f then (Done (length p, replicate (length p) 0, None), f)
                               else (Done (0, p, Some (Errorf ''page not found'')), f)
                           | Some elem \<Rightarrow>
                               (case fetch_loop env elem 0 pageFetchRetryAttempts of
                                  Inl e \<Rightarrow> (Done (0, p, Some e), f)
                                | Inr data \<Rightarrow>
                                    (serve_page env p off data pageOffset,
                                     f\<lparr>vf_cache := ve_cacheAdd env pgno data (vf_cache f)\<rparr>))))))))"

section \<open>Writing\<close>

definition readPageForWrite :: "vfs_env \<Rightarrow> vfs_file \<Rightarrow> u32 \<Rightarrow> byte list \<Rightarrow> go_error option \<times> byte list \<times> vfs_file" where
  "readPageForWrite env f pgno buf =
     (case vf_cache f pgno of
        Some data \<Rightarrow> (None, copy_into buf data, f)
      | None \<Rightarrow>
          (case map_of (vf_index f) pgno of
             None \<Rightarrow> (Some (Errorf ''page not found''), buf, f)
           | Some elem \<Rightarrow>
               (case ve_fetch env 0 elem of
                  Inl e \<Rightarrow> (Some e, buf, f)
                | Inr data \<Rightarrow>
                    if length data \<noteq> length buf then (Some (Errorf ''page size mismatch''), buf, f)
                    else (None, copy_into buf data, f\<lparr>vf_cache := ve_cacheAdd env pgno data (vf_cache f)\<rparr>))))"

definition writeToBuffer :: "vfs_env \<Rightarrow> vfs_file \<Rightarrow> u32 \<Rightarrow> byte list \<Rightarrow> go_error option \<times> vfs_file" where
  "writeToBuffer env f pgno data =
     (case (case map_of (vf_dirty f) pgno of
              Some existingOff \<Rightarrow> (existingOff, f)
            | None \<Rightarrow> (vf_bufferNextOff f, f\<lparr>vf_bufferNextOff := vf_bufferNextOff f + length data\<rparr>)) of
        (writeOffset, f1) \<Rightarrow>
          (case ve_bufWrite env of
             Some (n, e) \<Rightarrow>
               (Some (Wrapf ''write page to buffer'' e), f1\<lparr>vf_buffer := write_at (vf_buffer f1) writeOffset (take n data)\<rparr>)
           | None \<Rightarrow>
               (None, f1\<lparr>vf_buffer := write_at (vf_buffer f1) writeOffset data,
                         vf_dirty := AList.update pgno writeOffset (vf_dirty f1)\<rparr>)))"

definition vfs_WriteAt :: "vfs_env \<Rightarrow> vfs_file \<Rightarrow> byte list \<Rightarrow> nat \<Rightarrow> (nat \<times> go_error option) \<times> vfs_file" where
  "vfs_WriteAt env f b off =
     (case pageSizeBytes f of
        Inl e \<Rightarrow> ((0, Some e), f)
      | Inr ps \<Rightarrow>
          (let pgno = pgno_at f off; pageOffset = off mod ps in
           if pgno = ve_lockPgno env (vf_pageSize f) then ((0, Some (Errorf ''cannot write to lock page'')), f)
           else if \<not> vf_writeEnabled f then ((0, Some ErrReadOnly), f)
           else (case (case map_of (vf_dirty f) pgno of
                         Some bufferOff \<Rightarrow>
                           (case file_ReadAt (vf_buffer f) ps (int bufferOff) of
                              (_, Some e) \<Rightarrow> Inl (Wrapf ''read dirty page from buffer'' e)
                            | (data, None) \<Rightarrow> Inr (data, f))
                       | None \<Rightarrow>
                           (case readPageForWrite env f pgno (replicate ps 0) of (_, page, f1) \<Rightarrow> Inr (page, f1))) of
                   Inl e \<Rightarrow> ((0, Some e), f)
                 | Inr (page, f1) \<Rightarrow>
                     (let page' = take pageOffset page @ copy_into (drop pageOffset page) b;
                          f2 = (if pgno > vf_commit f1 then f1\<lparr>vf_commit := pgno\<rparr> else f1)
                      in (case writeToBuffer env f2 pgno page' of
                            (Some e, f3) \<Rightarrow> ((0, Some (Wrapf ''write to buffer'' e)), f3)
                          | (None, f3) \<Rightarrow> ((min (ps - pageOffset) (length b), None), f3))))))"

definition vfs_Truncate :: "vfs_file \<Rightarrow> nat \<Rightarrow> go_error option \<times> vfs_file" where
  "vfs_Truncate f sz =
     (case pageSizeBytes f of
        Inl e \<Rightarrow> (Some e, f)
      | Inr ps \<Rightarrow>
          (let newCommit = word_of_nat (sz div ps) in
           if \<not> vf_writeEnabled f then (Some ErrReadOnly, f)
           else (None, f\<lparr>vf_dirty := filter (\<lambda>(pgno, _). \<not> pgno > newCommit) (vf_dirty f),
                         vf_commit := newCommit,
                         vf_hydrated := map_option (\<lambda>h. truncate_to h sz) (vf_hydrated f)\<rparr>)))"

definition vfs_FileSize :: "vfs_file \<Rightarrow> go_error + nat" where
  "vfs_FileSize f =
     bindR (pageSizeBytes f) (\<lambda>ps.
       Inr (fold (\<lambda>pgno sz. max sz (unat pgno * ps))
              (map fst (vf_index f) @ map fst (vf_pending f) @ map fst (vf_dirty f)) 0))"

section \<open>Uploading\<close>

text \<open>The page bytes of a dirty page.\<close>

definition dirty_page :: "vfs_file \<Rightarrow> nat \<Rightarrow> go_error + byte list" where
  "dirty_page f bufferOff =
     (case file_ReadAt (vf_buffer f) (unat (vf_pageSize f)) (int bufferOff) of
        (_, Some e) \<Rightarrow> Inl e | (data, None) \<Rightarrow> Inr data)"

fun encode_dirty :: "vfs_file \<Rightarrow> u32 \<Rightarrow> u32 list \<Rightarrow> (u32 \<times> byte list) list \<times> go_error option" where
  "encode_dirty f lockPgno [] = ([], None)"
| "encode_dirty f lockPgno (pgno # pgnos) =
     (if pgno = lockPgno then encode_dirty f lockPgno pgnos
      else (case dirty_page f (the (map_of (vf_dirty f) pgno)) of
              Inl e \<Rightarrow> ([], Some (Wrapf ''read page from buffer'' e))
            | Inr data \<Rightarrow> (case encode_dirty f lockPgno pgnos of (ps, err) \<Rightarrow> ((pgno, data) # ps, err))))"

definition createLTXFromDirty :: "vfs_env \<Rightarrow> go_time \<Rightarrow> vfs_file \<Rightarrow> ltx_file" where
  "createLTXFromDirty env now f =
     (case encode_dirty f (ve_lockPgno env (vf_pageSize f)) (sort (map fst (vf_dirty f))) of
        (pages, err) \<Rightarrow>
          \<lparr>lheader = \<lparr>hPageSize = vf_pageSize f, hCommit = vf_commit f, hMinTXID = vf_pendingTXID f,
             hMaxTXID = vf_pendingTXID f, hTimestamp = now, hWALOffset = 0, hWALSize = 0, hWALSalt1 = 0, hWALSalt2 = 0\<rparr>,
           lpages = pages, lpages_err = err\<rparr>)"

definition checkForConflict :: "ltx_lister \<Rightarrow> vfs_file \<Rightarrow> go_error option" where
  "checkForConflict client f =
     (case client 0 (vf_expectedTXID f) False of
        Inl e \<Rightarrow> Some (Wrapf ''check remote position'' e)
      | Inr it \<Rightarrow>
          (case it_close it of
             Some e \<Rightarrow> Some (Wrapf ''iterate remote files'' e)
           | None \<Rightarrow>
               if MaxTXID (max_info (it_items it)) > vf_expectedTXID f
               then Some (Wrapf ''expected TXID but remote has'' ErrConflict) else None))"

definition clearWriteBuffer :: "vfs_env \<Rightarrow> vfs_file \<Rightarrow> go_error option \<times> vfs_file" where
  "clearWriteBuffer env f =
     (case ve_bufTruncate env of
        Some e \<Rightarrow> (Some (Wrapf ''truncate buffer'' e), f)
      | None \<Rightarrow> (None, f\<lparr>vf_buffer := [], vf_bufferNextOff := 0\<rparr>))"

fun cache_dirty :: "vfs_env \<Rightarrow> (u32 \<times> nat) list \<Rightarrow> vfs_file \<Rightarrow> go_error option \<times> vfs_file" where
  "cache_dirty env [] f = (None, f)"
| "cache_dirty env ((pgno, bufferOff) # ds) f =
     (case dirty_page f bufferOff of
        Inl e \<Rightarrow> (Some (Wrapf ''read page from buffer for cache'' e), f)
      | Inr data \<Rightarrow> cache_dirty env ds (f\<lparr>vf_cache := ve_cacheAdd env pgno data (vf_cache f)\<rparr>))"

text \<open>A failure stops the application to the hydrated copy and is only logged.\<close>

fun apply_dirty :: "vfs_file \<Rightarrow> (u32 \<times> nat) list \<Rightarrow> byte list \<Rightarrow> bool \<times> byte list" where
  "apply_dirty f [] h = (True, h)"
| "apply_dirty f ((pgno, bufferOff) # ds) h =
     (case dirty_page f bufferOff of
        Inl e \<Rightarrow> (False, h)
      | Inr data \<Rightarrow> apply_dirty f ds (write_at h (unat (pgno - 1) * unat (vf_pageSize f)) data))"

definition applySyncedPagesToHydratedFile :: "vfs_file \<Rightarrow> vfs_file" where
  "applySyncedPagesToHydratedFile f =
     (case vf_hydrated f of
        None \<Rightarrow> f
      | Some h \<Rightarrow>
          (case apply_dirty f (vf_dirty f) h of
             (ok, h') \<Rightarrow> f\<lparr>vf_hydrated := Some h', vf_hydratedTXID := (if ok then vf_expectedTXID f else vf_hydratedTXID f)\<rparr>))"

text \<open>The file, the highest TXID any connection of the process has synced, and the replica.\<close>

definition syncToRemote ::
  "vfs_env \<Rightarrow> 's client \<Rightarrow> go_time \<Rightarrow> vfs_file \<Rightarrow> u64 \<Rightarrow> 's \<Rightarrow> go_error option \<times> vfs_file \<times> u64 \<times> 's" where
  "syncToRemote env cl now f lastSynced s =
     (if vf_dirty f = [] then (None, f, lastSynced, s)
      else (case checkForConflict (cl_LTXFiles cl s) f of
        Some e \<Rightarrow> (Some e, f, lastSynced, s)
      | None \<Rightarrow>
          (case cl_WriteLTXFile cl s 0 (vf_pendingTXID f) (vf_pendingTXID f) (ve_encode env (createLTXFromDirty env now f)) of
             (Inl e, s') \<Rightarrow> (Some (Wrapf ''upload LTX'' e), f, lastSynced, s')
           | (Inr info, s') \<Rightarrow>
               (let f1 = f\<lparr>vf_expectedTXID := vf_pendingTXID f, vf_pendingTXID := vf_pendingTXID f + 1, vf_pos := vf_pendingTXID f\<rparr>;
                    lastSynced' = (if vf_expectedTXID f1 > lastSynced then vf_expectedTXID f1 else lastSynced)
                in (case cache_dirty env (vf_dirty f1) f1 of
                      (Some e, f2) \<Rightarrow> (Some e, f2, lastSynced', s')
                    | (None, f2) \<Rightarrow>
                        (case clearWriteBuffer env ((applySyncedPagesToHydratedFile f2)\<lparr>vf_dirty := []\<rparr>) of
                           (Some e, f3) \<Rightarrow> (Some (Wrapf ''clear write buffer'' e), f3, lastSynced', s')
                         | (None, f3) \<Rightarrow> (None, f3, lastSynced', s')))))))"

definition vfs_Sync ::
  "vfs_env \<Rightarrow> 's client \<Rightarrow> go_time \<Rightarrow> vfs_file \<Rightarrow> u64 \<Rightarrow> 's \<Rightarrow> go_error option \<times> vfs_file \<times> u64 \<times> 's" where
  "vfs_Sync env cl now f lastSynced s =
     (if \<not> vf_writeEnabled f then (None, f, lastSynced, s)
      else if vf_dirty f = [] then (None, f, lastSynced, s)
      else if vf_inTransaction f then (None, f, lastSynced, s)
      else syncToRemote env cl now f lastSynced s)"

section \<open>Polling\<close>

record level_poll =
  lp_max :: u64
  lp_index :: page_index
  lp_commit :: u32
  lp_replace :: bool

definition merge_index :: "page_index \<Rightarrow> page_index \<Rightarrow> page_index" where
  "merge_index new old = fold (\<lambda>(k, v). AList.update k v) new old"

fun poll_items :: "vfs_env \<Rightarrow> int \<Rightarrow> file_info list \<Rightarrow> u32 \<Rightarrow> level_poll \<Rightarrow> go_error + level_poll" where
  "poll_items env level [] lastCommit acc = Inr acc"
| "poll_items env level (info # items) lastCommit acc =
     (if MinTXID info \<noteq> lp_max acc + 1
      then (if level = 0 \<and> MinTXID info > lp_max acc + 1 then Inr acc
            else Inl (Errorf ''non-contiguous ltx file''))
      else bindR (wrapR ''fetch page index'' (ve_index env info)) (\<lambda>idx.
           bindR (wrapR ''fetch header'' (ve_header env info)) (\<lambda>commit.
             poll_items env level items commit
               \<lparr>lp_max = MaxTXID info,
                lp_index = merge_index idx (if commit < lastCommit then [] else lp_index acc),
                lp_commit = commit,
                lp_replace = (lp_replace acc \<or> commit < lastCommit)\<rparr>)))"

definition pollLevel :: "vfs_env \<Rightarrow> ltx_lister \<Rightarrow> int \<Rightarrow> u64 \<Rightarrow> u32 \<Rightarrow> go_error + level_poll" where
  "pollLevel env client level prevMaxTXID baseCommit =
     bindR (wrapR ''ltx files'' (client level (prevMaxTXID + 1) False)) (\<lambda>it.
       poll_items env level (it_items it) baseCommit
         \<lparr>lp_max = prevMaxTXID, lp_index = [], lp_commit = baseCommit, lp_replace = False\<rparr>)"

text \<open>The fetching half of a poll, which runs without the lock, and the half that applies its result.\<close>

definition poll_fetch :: "vfs_env \<Rightarrow> ltx_lister \<Rightarrow> vfs_file \<Rightarrow> go_error + level_poll \<times> u64" where
  "poll_fetch env client f =
     bindR (wrapR ''poll L0'' (pollLevel env client 0 (vf_pos f) (vf_commit f))) (\<lambda>p0.
       let base1 = (if lp_replace p0 \<or> lp_index p0 \<noteq> [] then lp_commit p0 else vf_commit f);
           new1 = (if lp_replace p0 \<or> lp_commit p0 > vf_commit f then lp_commit p0 else vf_commit f)
       in bindR (wrapR ''poll L1'' (pollLevel env client 1 (vf_maxTXID1 f) base1)) (\<lambda>p1.
            Inr (\<lparr>lp_max = lp_max p0,
                  lp_index = (if lp_replace p1 then lp_index p1 else merge_index (lp_index p1) (lp_index p0)),
                  lp_commit = (if lp_replace p1 \<or> lp_commit p1 > new1 then lp_commit p1 else new1),
                  lp_replace = (lp_replace p0 \<or> lp_replace p1)\<rparr>, lp_max p1)))"

text \<open>The pages of the hydrated copy are fetched and written one by one until one fails.\<close>

fun hydrate_updates :: "vfs_env \<Rightarrow> nat \<Rightarrow> page_index \<Rightarrow> byte list \<Rightarrow> byte list" where
  "hydrate_updates env ps [] h = h"
| "hydrate_updates env ps ((pgno, elem) # es) h =
     (case ve_fetch env 0 elem of
        Inl e \<Rightarrow> h
      | Inr data \<Rightarrow> hydrate_updates env ps es (write_at h (unat (pgno - 1) * ps) data))"

definition poll_apply :: "vfs_env \<Rightarrow> level_poll \<times> u64 \<Rightarrow> vfs_file \<Rightarrow> vfs_file" where
  "poll_apply env r f =
     (case r of (p, maxTXID1) \<Rightarrow>
       if vf_targetTime f then f
       else
         (let shared = (vf_lockType f \<ge> LockShared);
              f1 = (if shared
                    then f\<lparr>vf_pending := merge_index (lp_index p) (if lp_replace p then [] else vf_pending f),
                           vf_pendingReplace := (vf_pendingReplace f \<or> lp_replace p)\<rparr>
                    else f\<lparr>vf_index := merge_index (lp_index p) (if lp_replace p then [] else vf_index f),
                           vf_pendingReplace := False,
                           vf_cache := (vf_cache f) |` (- fst ` set (lp_index p))\<rparr>)
          in f1\<lparr>vf_commit := (if lp_replace p \<or> lp_index p \<noteq> [] \<and> lp_commit p > vf_commit f then lp_commit p else vf_commit f),
                vf_pos := (if lp_max p > maxTXID1 then lp_max p else maxTXID1),
                vf_maxTXID1 := maxTXID1,
                vf_hydrated := (case vf_hydrated f of
                   None \<Rightarrow> None
                 | Some h \<Rightarrow> Some (if lp_index p \<noteq> [] then hydrate_updates env (unat (vf_pageSize f)) (lp_index p) h else h))\<rparr>))"

definition pollReplicaClient :: "vfs_env \<Rightarrow> ltx_lister \<Rightarrow> vfs_file \<Rightarrow> go_error option \<times> vfs_file" where
  "pollReplicaClient env client f =
     (case poll_fetch env client f of Inl e \<Rightarrow> (Some e, f) | Inr r \<Rightarrow> (None, poll_apply env r f))"

section \<open>Rebuilding the index\<close>

definition maxLevelTXID :: "file_info list \<Rightarrow> int \<Rightarrow> u64" where
  "maxLevelTXID infos level =
     fold (\<lambda>info m. if Level info = level \<and> MaxTXID info > m then MaxTXID info else m) infos 0"

fun buildIndexMap :: "vfs_env \<Rightarrow> file_info list \<Rightarrow> page_index \<Rightarrow> u32 \<Rightarrow> go_error + page_index \<times> u32" where
  "buildIndexMap env [] idx commit = Inr (idx, commit)"
| "buildIndexMap env (info # infos) idx commit =
     bindR (wrapR ''fetch page index'' (ve_index env info)) (\<lambda>new.
     bindR (wrapR ''fetch header'' (ve_header env info)) (\<lambda>c.
       buildIndexMap env infos (merge_index new idx) c))"

definition rebuildIndex :: "vfs_env \<Rightarrow> file_info list \<Rightarrow> bool \<Rightarrow> vfs_file \<Rightarrow> go_error option \<times> vfs_file" where
  "rebuildIndex env infos target f =
     (case buildIndexMap env infos [] 0 of
        Inl e \<Rightarrow> (Some e, f)
      | Inr (idx, commit) \<Rightarrow>
          (let pos = (if infos = [] then 0 else MaxTXID (last infos)); m1 = maxLevelTXID infos 1
           in (None, f\<lparr>vf_index := idx, vf_pending := [], vf_pendingReplace := False, vf_pos := pos,
                       vf_maxTXID1 := (if m1 = 0 then pos else m1), vf_cache := Map.empty,
                       vf_commit := commit, vf_targetTime := target\<rparr>)))"

definition vfs_SetTargetTime ::
  "vfs_env \<Rightarrow> (file_info list \<Rightarrow> u64) \<Rightarrow> ltx_lister \<Rightarrow> go_time \<Rightarrow> vfs_file \<Rightarrow> go_error option \<times> vfs_file" where
  "vfs_SetTargetTime env mx client timestamp f =
     (if time_IsZero timestamp then (Some (Errorf ''target time required''), f)
      else (case CalcRestorePlan mx client 0 timestamp of
              Inl e \<Rightarrow> (Some (Wrapf ''cannot calc restore plan'' e), f)
            | Inr infos \<Rightarrow>
                if infos = [] then (Some (Errorf ''no backup files available''), f)
                else rebuildIndex env infos True (f\<lparr>vf_hydrated := None\<rparr>)))"

definition vfs_ResetTime ::
  "vfs_env \<Rightarrow> (file_info list \<Rightarrow> u64) \<Rightarrow> ltx_lister \<Rightarrow> vfs_file \<Rightarrow> go_error option \<times> vfs_file" where
  "vfs_ResetTime env mx client f =
     (case CalcRestorePlan mx client 0 0 of
        Inl e \<Rightarrow> (Some (Wrapf ''cannot calc restore plan'' e), f)
      | Inr infos \<Rightarrow>
          if infos = [] then (Some (Errorf ''no backup files available''), f)
          else rebuildIndex env infos False f)"

end
