(* ===== verification/Vfs_Machine.thy ===== *)
theory Vfs_Machine
  imports Vfs_File Replica_Sync
begin

text \<open>
  The connections of one process on a VFS as a state machine, \<open>vfs.go\<close>: the lock calls of SQLite, with the
  VFS's single writer; switching writes on and off; opening and closing; and the single-file operations of
  Vfs_File, in any order.

  \<open>vw_file\<close> holds the open connections, \<open>vw_writeFile\<close> the one in a write transaction, \<open>vw_rep\<close> the
  replica, which other processes change at will. A call that has to wait is \<open>None\<close>. Each write buffer is a file of
  its own; two connections that switch writes on late without a configured path would share one.
\<close>

section \<open>Locks\<close>

record 's vfs_world =
  vw_file :: "nat \<Rightarrow> vfs_file option"
  vw_writeFile :: "nat option"
  vw_lastSynced :: u64
  vw_rep :: 's

definition set_file :: "nat \<Rightarrow> vfs_file \<Rightarrow> 's vfs_world \<Rightarrow> 's vfs_world" where
  "set_file i f w = w\<lparr>vw_file := (vw_file w)(i \<mapsto> f)\<rparr>"

definition vfs_Lock :: "nat \<Rightarrow> vfs_file \<Rightarrow> lock_type \<Rightarrow> 's vfs_world \<Rightarrow> (go_error option \<times> 's vfs_world) option" where
  "vfs_Lock i f elock w =
     (if elock < vf_lockType f then Some (Some (Errorf ''invalid lock downgrade''), w)
      else if elock \<ge> LockReserved \<and> vf_disabling f then None
      else if elock \<ge> LockReserved \<and> \<not> vf_writeEnabled f then Some (Some ErrReadOnly, w)
      else if vf_writeEnabled f \<and> elock \<ge> LockReserved \<and> \<not> vf_inTransaction f
      then (if vw_writeFile w \<noteq> None \<and> vw_writeFile w \<noteq> Some i then Some (Some ErrBusy, w)
            else (let f1 = (if vw_lastSynced w > vf_expectedTXID f \<and> vf_dirty f = []
                            then f\<lparr>vf_expectedTXID := vw_lastSynced w, vf_pendingTXID := vw_lastSynced w + 1,
                                   vf_pos := vw_lastSynced w\<rparr>
                            else f)
                  in Some (None, set_file i (f1\<lparr>vf_inTransaction := True, vf_lockType := elock\<rparr>)
                                   (w\<lparr>vw_writeFile := Some i\<rparr>))))
      else Some (None, set_file i (f\<lparr>vf_lockType := elock\<rparr>) w))"

definition take_pending :: "vfs_file \<Rightarrow> vfs_file" where
  "take_pending f =
     (if vf_pendingReplace f
      then f\<lparr>vf_index := vf_pending f, vf_cache := Map.empty, vf_pending := [], vf_pendingReplace := False\<rparr>
      else f\<lparr>vf_index := merge_index (vf_pending f) (vf_index f),
             vf_cache := (vf_cache f) |` (- fst ` set (vf_pending f)), vf_pending := [], vf_pendingReplace := False\<rparr>)"

definition vfs_Unlock :: "nat \<Rightarrow> vfs_file \<Rightarrow> lock_type \<Rightarrow> 's vfs_world \<Rightarrow> go_error option \<times> 's vfs_world" where
  "vfs_Unlock i f elock w =
     (if elock \<noteq> LockShared \<and> elock \<noteq> LockNone then (Some (Errorf ''invalid unlock target''), w)
      else (let ends = (vf_writeEnabled f \<and> vf_inTransaction f \<and> elock < LockReserved);
                f1 = (if ends then f\<lparr>vf_inTransaction := False\<rparr> else f);
                w1 = (if ends \<and> vw_writeFile w = Some i then w\<lparr>vw_writeFile := None\<rparr> else w)
            in (None, set_file i (take_pending (f1\<lparr>vf_lockType := elock\<rparr>)) w1)))"

definition vfs_CheckReservedLock :: "vfs_file \<Rightarrow> 's vfs_world \<Rightarrow> bool" where
  "vfs_CheckReservedLock f w \<longleftrightarrow> vf_lockType f \<ge> LockReserved \<or> vw_writeFile w \<noteq> None"

section \<open>Switching writes, opening and closing\<close>

text \<open>Disabling waits, with the lock released, for the transaction to end: it begins, and later finishes or is
  given up.\<close>

definition disable_begin :: "vfs_file \<Rightarrow> vfs_file" where
  "disable_begin f = (if vf_writeEnabled f then f\<lparr>vf_disabling := True\<rparr> else f)"

definition disable_abort :: "vfs_file \<Rightarrow> vfs_file" where
  "disable_abort f = f\<lparr>vf_disabling := False\<rparr>"

definition disable_finish ::
  "vfs_env \<Rightarrow> 's client \<Rightarrow> go_time \<Rightarrow> vfs_file \<Rightarrow> u64 \<Rightarrow> 's \<Rightarrow> (go_error option \<times> vfs_file \<times> u64 \<times> 's) option" where
  "disable_finish env cl now f lastSynced s =
     (if vf_inTransaction f then None
      else (case (if vf_dirty f \<noteq> [] then syncToRemote env cl now f lastSynced s else (None, f, lastSynced, s)) of
              (Some e, f1, l1, s1) \<Rightarrow> Some (Some (Wrapf ''sync before disable'' e), f1\<lparr>vf_disabling := False\<rparr>, l1, s1)
            | (None, f1, l1, s1) \<Rightarrow>
                Some (None, f1\<lparr>vf_writeEnabled := False, vf_disabling := False\<rparr>, l1, s1)))"

definition enable_writes :: "go_error option \<Rightarrow> vfs_file \<Rightarrow> go_error option \<times> vfs_file" where
  "enable_writes initErr f =
     (if vf_writeEnabled f then (None, f)
      else (case (if vf_bufferOpen f then (None, f)
                  else (case initErr of
                          Some e \<Rightarrow> (Some (Wrapf ''init write buffer'' e), f)
                        | None \<Rightarrow> (None, f\<lparr>vf_buffer := [], vf_bufferNextOff := 0, vf_bufferOpen := True\<rparr>))) of
              (Some e, f1) \<Rightarrow> (Some e, f1)
            | (None, f1) \<Rightarrow>
                (let f2 = (if vf_pendingTXID f1 = 0
                           then f1\<lparr>vf_expectedTXID := vf_pos f1, vf_pendingTXID := vf_pos f1 + 1\<rparr> else f1)
                 in (None, f2\<lparr>vf_writeEnabled := True\<rparr>))))"

text \<open>A connection as \<open>Open\<close> leaves it, with the page index built from the restore plan, or empty for a new
  database.\<close>

definition opened :: "bool \<Rightarrow> u32 \<Rightarrow> u64 \<Rightarrow> u64 \<Rightarrow> page_index \<Rightarrow> u32 \<Rightarrow> vfs_file" where
  "opened wr ps pos max1 idx commit =
     \<lparr>vf_pos = pos, vf_maxTXID1 = max1, vf_index = idx, vf_pending = [], vf_pendingReplace = False,
      vf_cache = Map.empty, vf_targetTime = False, vf_lockType = LockNone, vf_pageSize = ps, vf_commit = commit,
      vf_writeEnabled = wr, vf_dirty = [], vf_pendingTXID = (if wr then pos + 1 else 0),
      vf_expectedTXID = (if wr then pos else 0), vf_buffer = [], vf_bufferOpen = wr, vf_bufferNextOff = 0,
      vf_inTransaction = False, vf_disabling = False, vf_hydrated = None, vf_hydratedTXID = 0\<rparr>"

definition vfs_Open :: "nat \<Rightarrow> vfs_file \<Rightarrow> bool \<Rightarrow> 's vfs_world \<Rightarrow> 's vfs_world" where
  "vfs_Open i f vfsWriteEnabled w =
     (let w1 = set_file i f w
      in if vfsWriteEnabled \<and> vf_expectedTXID f > vw_lastSynced w then w1\<lparr>vw_lastSynced := vf_expectedTXID f\<rparr> else w1)"

definition vfs_Close :: "vfs_env \<Rightarrow> 's client \<Rightarrow> go_time \<Rightarrow> nat \<Rightarrow> vfs_file \<Rightarrow> 's vfs_world \<Rightarrow> 's vfs_world" where
  "vfs_Close env cl now i f w =
     (case (if vf_writeEnabled f \<and> vf_dirty f \<noteq> [] then syncToRemote env cl now f (vw_lastSynced w) (vw_rep w)
            else (None, f, vw_lastSynced w, vw_rep w)) of
        (_, f1, l1, s1) \<Rightarrow>
          w\<lparr>vw_file := (vw_file w)(i := None), vw_lastSynced := l1, vw_rep := s1,
            vw_writeFile := (if vf_writeEnabled f1 \<and> vw_writeFile w = Some i then None else vw_writeFile w)\<rparr>)"

section \<open>The machine\<close>

inductive vfs_step :: "'s client \<Rightarrow> 's vfs_world \<Rightarrow> 's vfs_world \<Rightarrow> bool" for cl where
  lock: "vw_file w i = Some f \<Longrightarrow> vfs_Lock i f elock w = Some (e, w') \<Longrightarrow> vfs_step cl w w'"
| unlock: "vw_file w i = Some f \<Longrightarrow> vfs_Unlock i f elock w = (e, w') \<Longrightarrow> vfs_step cl w w'"
| read: "vw_file w i = Some f \<Longrightarrow> vfs_ReadAt env f p off = (r, f') \<Longrightarrow> vfs_step cl w (set_file i f' w)"
| wrote: "vw_file w i = Some f \<Longrightarrow> vfs_WriteAt env f b off = (r, f') \<Longrightarrow> vfs_step cl w (set_file i f' w)"
| truncated: "vw_file w i = Some f \<Longrightarrow> vfs_Truncate f sz = (r, f') \<Longrightarrow> vfs_step cl w (set_file i f' w)"
| synced: "vw_file w i = Some f \<Longrightarrow> vfs_Sync env cl now f (vw_lastSynced w) (vw_rep w) = (r, f', l', s') \<Longrightarrow>
    vfs_step cl w ((set_file i f' w)\<lparr>vw_lastSynced := l', vw_rep := s'\<rparr>)"
| polled: "vw_file w i = Some f \<Longrightarrow> vfs_step cl w (set_file i (poll_apply env r f) w)"
| time_travel: "vw_file w i = Some f \<Longrightarrow> rebuildIndex env infos t f = (r, f') \<Longrightarrow> vfs_step cl w (set_file i f' w)"
| hydrated: "vw_file w i = Some f \<Longrightarrow> vfs_step cl w (set_file i (f\<lparr>vf_hydrated := h, vf_hydratedTXID := t\<rparr>) w)"
| disabling: "vw_file w i = Some f \<Longrightarrow> vfs_step cl w (set_file i (disable_begin f) w)"
| gave_up: "vw_file w i = Some f \<Longrightarrow> vfs_step cl w (set_file i (disable_abort f) w)"
| disabled: "vw_file w i = Some f \<Longrightarrow> disable_finish env cl now f (vw_lastSynced w) (vw_rep w) = Some (r, f', l', s') \<Longrightarrow>
    vfs_step cl w ((set_file i f' w)\<lparr>vw_lastSynced := l', vw_rep := s'\<rparr>)"
| enabled: "vw_file w i = Some f \<Longrightarrow> enable_writes initErr f = (r, f') \<Longrightarrow> vfs_step cl w (set_file i f' w)"
| opens: "vw_file w i = None \<Longrightarrow> ps \<noteq> 0 \<Longrightarrow> vfs_step cl w (vfs_Open i (opened wr ps pos m1 idx c) wr w)"
| closes: "vw_file w i = Some f \<Longrightarrow> vfs_step cl w (vfs_Close env cl now i f w)"
| remote: "vfs_step cl w (w\<lparr>vw_rep := s\<rparr>)"

inductive vfs_reachable :: "'s client \<Rightarrow> 's vfs_world \<Rightarrow> bool" for cl where
  init: "vw_file w = (\<lambda>i. None) \<Longrightarrow> vw_writeFile w = None \<Longrightarrow> vfs_reachable cl w"
| step: "vfs_reachable cl w \<Longrightarrow> vfs_step cl w w' \<Longrightarrow> vfs_reachable cl w'"

inductive_cases vfs_stepE: "vfs_step cl w w'"

section \<open>The write buffer\<close>

definition buffer_ok :: "vfs_file \<Rightarrow> bool" where
  "buffer_ok f \<longleftrightarrow>
     distinct (map fst (vf_dirty f)) \<and> distinct (map snd (vf_dirty f)) \<and>
     unat (vf_pageSize f) dvd vf_bufferNextOff f \<and>
     (\<forall>d \<in> set (vf_dirty f). unat (vf_pageSize f) dvd snd d \<and>
        snd d + unat (vf_pageSize f) \<le> length (vf_buffer f) \<and>
        snd d + unat (vf_pageSize f) \<le> vf_bufferNextOff f)"

text \<open>What the locks and the transaction numbers obey in one connection.\<close>

definition file_inv :: "vfs_file \<Rightarrow> bool" where
  "file_inv f \<longleftrightarrow> vf_pageSize f \<noteq> 0 \<and>
     (vf_inTransaction f \<longleftrightarrow> vf_lockType f \<ge> LockReserved) \<and>
     (vf_inTransaction f \<longrightarrow> vf_writeEnabled f) \<and>
     (vf_writeEnabled f \<or> vf_pendingTXID f \<noteq> 0 \<longrightarrow> vf_pendingTXID f = vf_expectedTXID f + 1) \<and>
     (vf_writeEnabled f \<or> vf_dirty f \<noteq> [] \<longrightarrow> vf_bufferOpen f) \<and>
     buffer_ok f"

definition same_locks :: "vfs_file \<Rightarrow> vfs_file \<Rightarrow> bool" where
  "same_locks f f' \<longleftrightarrow> vf_inTransaction f' = vf_inTransaction f \<and> vf_lockType f' = vf_lockType f \<and>
     vf_writeEnabled f' = vf_writeEnabled f \<and> vf_pageSize f' = vf_pageSize f \<and>
     vf_bufferOpen f' = vf_bufferOpen f"

abbreviation same_buffer :: "vfs_file \<Rightarrow> vfs_file \<Rightarrow> bool" where
  "same_buffer f f' \<equiv> vf_dirty f' = vf_dirty f \<and> vf_buffer f' = vf_buffer f \<and>
     vf_bufferNextOff f' = vf_bufferNextOff f"

lemma buffer_ok_same: "buffer_ok f \<Longrightarrow> same_buffer f f' \<Longrightarrow> vf_pageSize f' = vf_pageSize f \<Longrightarrow> buffer_ok f'"
  by (simp add: buffer_ok_def)

lemma buffer_ok_upd [simp]:
  "buffer_ok (f\<lparr>vf_lockType := a\<rparr>) = buffer_ok f"
  "buffer_ok (f\<lparr>vf_inTransaction := b\<rparr>) = buffer_ok f"
  "buffer_ok (f\<lparr>vf_expectedTXID := c\<rparr>) = buffer_ok f"
  "buffer_ok (f\<lparr>vf_pendingTXID := d\<rparr>) = buffer_ok f"
  "buffer_ok (f\<lparr>vf_pos := e\<rparr>) = buffer_ok f"
  "buffer_ok (f\<lparr>vf_writeEnabled := g\<rparr>) = buffer_ok f"
  "buffer_ok (f\<lparr>vf_disabling := h\<rparr>) = buffer_ok f"
  by (simp_all add: buffer_ok_def)

lemma file_inv_same:
  "file_inv f \<Longrightarrow> same_locks f f' \<Longrightarrow> vf_pendingTXID f' = vf_pendingTXID f \<Longrightarrow>
   vf_expectedTXID f' = vf_expectedTXID f \<Longrightarrow> (vf_dirty f' \<noteq> [] \<longrightarrow> vf_bufferOpen f) \<Longrightarrow>
   buffer_ok f' \<Longrightarrow> file_inv f'"
  by (auto simp: file_inv_def same_locks_def)

text \<open>Operations that leave the locks, the transaction numbers and the buffer alone.\<close>

definition quiet :: "vfs_file \<Rightarrow> vfs_file \<Rightarrow> bool" where
  "quiet f f' \<longleftrightarrow> same_locks f f' \<and> same_buffer f f' \<and>
     vf_pendingTXID f' = vf_pendingTXID f \<and> vf_expectedTXID f' = vf_expectedTXID f"

lemma quiet_inv: "quiet f f' \<Longrightarrow> file_inv f \<Longrightarrow> file_inv f'"
  unfolding quiet_def by (rule file_inv_same) (auto simp: same_locks_def file_inv_def intro: buffer_ok_same)

lemma quiet_refl [simp]: "quiet f f"
  by (simp add: quiet_def same_locks_def)

lemma quiet_trans: "quiet f g \<Longrightarrow> quiet g h \<Longrightarrow> quiet f h"
  by (simp add: quiet_def same_locks_def)

lemma quiet_cache [simp]: "quiet f (f\<lparr>vf_cache := c\<rparr>)"
  by (simp add: quiet_def same_locks_def)

lemma quiet_ReadAt: "vfs_ReadAt env f p off = (r, f') \<Longrightarrow> quiet f f'"
  by (auto simp: vfs_ReadAt_def Let_def split: sum.splits option.splits prod.splits if_splits)

lemma quiet_poll: "quiet f (poll_apply env r f)"
  by (simp add: poll_apply_def quiet_def same_locks_def Let_def split: prod.split)

lemma quiet_rebuild: "rebuildIndex env infos t f = (r, f') \<Longrightarrow> quiet f f'"
  by (auto simp: rebuildIndex_def Let_def quiet_def same_locks_def split: sum.splits)

lemma quiet_readPage: "readPageForWrite env f pgno buf = (e, pg, f') \<Longrightarrow> quiet f f' \<and> length pg = length buf"
  by (auto simp: readPageForWrite_def copy_into_def split: option.splits sum.splits if_splits)

lemma dirty_read:
  assumes "buffer_ok f" "(pgno, off) \<in> set (vf_dirty f)"
  shows "file_ReadAt (vf_buffer f) (unat (vf_pageSize f)) (int off) = (sub off (unat (vf_pageSize f)) (vf_buffer f), None)"
    "length (sub off (unat (vf_pageSize f)) (vf_buffer f)) = unat (vf_pageSize f)"
proof -
  have "off + unat (vf_pageSize f) \<le> length (vf_buffer f)" using assms by (auto simp: buffer_ok_def)
  then show "length (sub off (unat (vf_pageSize f)) (vf_buffer f)) = unat (vf_pageSize f)" by simp
  then show "file_ReadAt (vf_buffer f) (unat (vf_pageSize f)) (int off) = (sub off (unat (vf_pageSize f)) (vf_buffer f), None)"
    by (simp add: file_ReadAt_def Let_def)
qed

text \<open>An update of an association list with distinct keys: a new key goes to the end, a key bound to the same
  value changes nothing.\<close>

lemma update_None: "map_of ds k = None \<Longrightarrow> AList.update k v ds = ds @ [(k, v)]"
  by (induction ds) (auto split: if_splits)

lemma update_present: "map_of ds k = Some v \<Longrightarrow> AList.update k v ds = ds"
  by (induction ds) (auto split: if_splits)

lemma writeToBuffer_inv:
  assumes w: "writeToBuffer env f pgno data = (e, f')" and l: "length data = unat (vf_pageSize f)"
    and b: "buffer_ok f" "vf_pageSize f \<noteq> 0"
  shows "buffer_ok f'" "same_locks f f'" "vf_pendingTXID f' = vf_pendingTXID f" "vf_expectedTXID f' = vf_expectedTXID f"
proof -
  have nz: "data \<noteq> []" using l b(2) by (auto simp: unat_eq_0)
  have up: "distinct (map snd (AList.update pgno (vf_bufferNextOff f) (vf_dirty f)))"
    if n: "map_of (vf_dirty f) pgno = None"
  proof -
    have "vf_bufferNextOff f \<notin> snd ` set (vf_dirty f)"
      using b l nz by (fastforce simp: buffer_ok_def)
    then show ?thesis using n b(1) by (simp add: update_None buffer_ok_def)
  qed
  show "buffer_ok f'"
  proof (cases "map_of (vf_dirty f) pgno")
    case None
    then show ?thesis using w b(1) l nz up [OF None]
      by (auto simp: writeToBuffer_def buffer_ok_def update_None length_write_at le_max_iff_disj
          split: option.splits) (fastforce+)
  next
    case (Some k)
    then show ?thesis using w b(1) l nz
      by (auto simp: writeToBuffer_def buffer_ok_def length_write_at le_max_iff_disj update_present
          split: option.splits) (fastforce+)?
  qed
  show "same_locks f f'" "vf_pendingTXID f' = vf_pendingTXID f" "vf_expectedTXID f' = vf_expectedTXID f"
    using w by (auto simp: writeToBuffer_def same_locks_def split: option.splits)
qed

lemma vfs_WriteAt_inv:
  assumes w: "vfs_WriteAt env f b off = (r, f')" and i: "file_inv f"
  shows "file_inv f'" "same_locks f f'"
proof -
  let ?ps = "unat (vf_pageSize f)"
  have b: "buffer_ok f" "vf_pageSize f \<noteq> 0" using i by (simp_all add: file_inv_def)
  have "file_inv f' \<and> same_locks f f'"
  proof (cases "vf_pageSize f = 0 \<or> pgno_at f off = ve_lockPgno env (vf_pageSize f) \<or> \<not> vf_writeEnabled f")
    case True
    then have "f' = f" using w b(2) by (auto simp: vfs_WriteAt_def pageSizeBytes_def Let_def split: if_splits)
    then show ?thesis using i by (simp add: same_locks_def)
  next
    case False
    define pg where "pg = (case map_of (vf_dirty f) (pgno_at f off) of
        Some bufferOff \<Rightarrow>
          (case file_ReadAt (vf_buffer f) ?ps (int bufferOff) of
             (_, Some e) \<Rightarrow> Inl (Wrapf ''read dirty page from buffer'' e)
           | (data, None) \<Rightarrow> Inr (data, f))
      | None \<Rightarrow> (case readPageForWrite env f (pgno_at f off) (replicate ?ps 0) of (_, page, f1) \<Rightarrow> Inr (page, f1)))"
    have "\<exists>page f1. pg = Inr (page, f1) \<and> length page = ?ps \<and> quiet f f1"
    proof (cases "map_of (vf_dirty f) (pgno_at f off)")
      case None
      then show ?thesis unfolding pg_def
        by (auto split: prod.splits dest!: quiet_readPage)
    next
      case (Some k)
      from dirty_read [OF b(1) map_of_SomeD [OF Some]] Some show ?thesis unfolding pg_def by simp
    qed
    then obtain page f1 where pg: "pg = Inr (page, f1)" "length page = ?ps" "quiet f f1" by blast
    define f2 where "f2 = (if pgno_at f off > vf_commit f1 then f1\<lparr>vf_commit := pgno_at f off\<rparr> else f1)"
    define page' where "page' = take (off mod ?ps) page @ copy_into (drop (off mod ?ps) page) b"
    have q2: "quiet f f2" using pg(3) by (auto simp: f2_def quiet_def same_locks_def)
    have l: "length page' = ?ps" using pg(2) by (auto simp: page'_def copy_into_def min_def)
    obtain e f3 where w3: "writeToBuffer env f2 (pgno_at f off) page' = (e, f3)" by fastforce
    have f3: "f' = f3"
      using w w3 False pg(1)
      by (auto simp: vfs_WriteAt_def pageSizeBytes_def Let_def pg_def [symmetric] f2_def [symmetric]
          page'_def [symmetric] split: option.splits)
    have ps2: "vf_pageSize f2 = vf_pageSize f" and b2: "buffer_ok f2"
      using q2 b(1) buffer_ok_same by (auto simp: quiet_def same_locks_def)
    note W = writeToBuffer_inv [OF w3 _ b2, unfolded ps2, OF l b(2)]
    have "file_inv f2" using quiet_inv [OF q2 i] .
    moreover have "vf_bufferOpen f2"
      using False i q2 by (auto simp: file_inv_def quiet_def same_locks_def)
    ultimately have "file_inv f3" by (intro file_inv_same [OF _ W(2,3,4) _ W(1)]) simp_all
    moreover have "same_locks f f3" using W(2) q2 by (simp add: quiet_def same_locks_def)
    ultimately show ?thesis by (simp add: f3)
  qed
  then show "file_inv f'" "same_locks f f'" by simp_all
qed

lemma buffer_ok_filter: "buffer_ok f \<Longrightarrow> buffer_ok (f\<lparr>vf_dirty := filter P (vf_dirty f), vf_commit := c, vf_hydrated := h\<rparr>)"
  by (simp add: buffer_ok_def distinct_map_filter)

lemma vfs_Truncate_inv:
  assumes w: "vfs_Truncate f sz = (r, f')" and i: "file_inv f"
  shows "file_inv f' \<and> same_locks f f'"
proof (cases "vf_writeEnabled f")
  case False
  with w i show ?thesis by (auto simp: vfs_Truncate_def pageSizeBytes_def Let_def same_locks_def split: if_splits)
next
  case True
  have "vf_pageSize f \<noteq> 0" using i by (simp add: file_inv_def)
  with w True obtain P c h where f': "f' = f\<lparr>vf_dirty := filter P (vf_dirty f), vf_commit := c, vf_hydrated := h\<rparr>"
    by (simp add: vfs_Truncate_def pageSizeBytes_def Let_def) blast
  have "buffer_ok f" "vf_bufferOpen f" using i True by (simp_all add: file_inv_def)
  then show ?thesis using file_inv_same [OF i, of f'] buffer_ok_filter [where P = P]
    by (simp add: f' same_locks_def)
qed

lemma cache_dirty_quiet: "cache_dirty env ds f = (e, f') \<Longrightarrow> quiet f f' \<and> vf_pos f' = vf_pos f"
proof (induction ds arbitrary: f)
  case (Cons d ds)
  obtain pgno k where d: "d = (pgno, k)" by (cases d)
  show ?case
  proof (cases "dirty_page f k")
    case (Inr data)
    from Cons.prems Inr have "cache_dirty env ds (f\<lparr>vf_cache := ve_cacheAdd env pgno data (vf_cache f)\<rparr>) = (e, f')"
      by (simp add: d)
    from Cons.IH [OF this] show ?thesis using quiet_trans [OF quiet_cache] by auto
  qed (use Cons.prems in \<open>simp add: d\<close>)
qed simp

definition published :: "vfs_file \<Rightarrow> vfs_file" where
  "published f = f\<lparr>vf_expectedTXID := vf_pendingTXID f, vf_pendingTXID := vf_pendingTXID f + 1, vf_pos := vf_pendingTXID f\<rparr>"

lemma published_inv: "file_inv f \<Longrightarrow> file_inv (published f) \<and> same_locks f (published f)"
  by (simp add: published_def file_inv_def same_locks_def buffer_ok_def)

lemma cleared_inv:
  assumes "file_inv f" "clearWriteBuffer env ((applySyncedPagesToHydratedFile f)\<lparr>vf_dirty := []\<rparr>) = (e, f')"
  shows "file_inv f' \<and> same_locks f f'"
proof -
  obtain h t where "applySyncedPagesToHydratedFile f = f\<lparr>vf_hydrated := h, vf_hydratedTXID := t\<rparr>"
  proof (cases "vf_hydrated f")
    case None
    then show ?thesis using that [where h = None and t = "vf_hydratedTXID f"] by (simp add: applySyncedPagesToHydratedFile_def)
  next
    case (Some h)
    then show ?thesis using that by (cases "apply_dirty f (vf_dirty f) h") (simp add: applySyncedPagesToHydratedFile_def)
  qed
  with assms(2) have f': "same_locks f f'" "vf_pendingTXID f' = vf_pendingTXID f" "vf_expectedTXID f' = vf_expectedTXID f"
      "vf_dirty f' = []" "vf_bufferNextOff f' = 0 \<or> vf_bufferNextOff f' = vf_bufferNextOff f"
    by (cases "ve_bufTruncate env"; fastforce simp: clearWriteBuffer_def same_locks_def)+
  moreover have "buffer_ok f'" using f' assms(1) by (auto simp: buffer_ok_def file_inv_def same_locks_def)
  ultimately show ?thesis using file_inv_same [OF assms(1), of f'] by simp
qed

lemma same_locks_trans: "same_locks f g \<Longrightarrow> same_locks g h \<Longrightarrow> same_locks f h"
  by (simp add: same_locks_def)

lemma same_locks_refl [simp]: "same_locks f f"
  by (simp add: same_locks_def)

text \<open>A sync whose upload succeeds, in one equation.\<close>

lemma syncToRemote_uploaded:
  assumes "vf_dirty f \<noteq> []" "checkForConflict (cl_LTXFiles cl s) f = None"
    "cl_WriteLTXFile cl s 0 (vf_pendingTXID f) (vf_pendingTXID f) (ve_encode env (createLTXFromDirty env now f)) = (Inr info, s1)"
    "cache_dirty env (vf_dirty f) (published f) = (e1, f2)"
    "clearWriteBuffer env ((applySyncedPagesToHydratedFile f2)\<lparr>vf_dirty := []\<rparr>) = (e2, f3)"
  shows "syncToRemote env cl now f l s =
    (if e1 = None then map_option (Wrapf ''clear write buffer'') e2 else e1, if e1 = None then f3 else f2,
     if vf_pendingTXID f > l then vf_pendingTXID f else l, s1)"
  using assms by (cases e1; cases e2) (simp_all add: syncToRemote_def Let_def published_def)

lemma syncToRemote_inv:
  assumes w: "syncToRemote env cl now f l s = (e, f', l', s')" and i: "file_inv f"
  shows "file_inv f' \<and> same_locks f f'"
proof (cases "vf_dirty f = [] \<or> checkForConflict (cl_LTXFiles cl s) f \<noteq> None")
  case True
  with w have "f' = f" by (auto simp: syncToRemote_def split: if_splits)
  with i show ?thesis by simp
next
  case False
  obtain u s1 where u: "cl_WriteLTXFile cl s 0 (vf_pendingTXID f) (vf_pendingTXID f)
      (ve_encode env (createLTXFromDirty env now f)) = (u, s1)" by fastforce
  show ?thesis
  proof (cases u)
    case (Inl x)
    with w u False i show ?thesis by (auto simp: syncToRemote_def)
  next
    case (Inr info)
    obtain e1 f2 where c: "cache_dirty env (vf_dirty (published f)) (published f) = (e1, f2)" by fastforce
    have q: "quiet (published f) f2" using cache_dirty_quiet [OF c] by simp
    have "same_locks (published f) f2" using q by (simp add: quiet_def)
    with published_inv [OF i] quiet_inv [OF q]
    have f2: "file_inv f2" "same_locks f f2" using same_locks_trans by blast+
    obtain e2 f3 where d: "clearWriteBuffer env ((applySyncedPagesToHydratedFile f2)\<lparr>vf_dirty := []\<rparr>) = (e2, f3)" by fastforce
    have "f' = (if e1 = None then f3 else f2)"
      using syncToRemote_uploaded [OF _ _ u [unfolded Inr] _ d, of e1 l] c w False by (auto simp: published_def)
    then show ?thesis using f2 cleared_inv [OF f2(1) d] same_locks_trans by auto
  qed
qed

section \<open>The invariant of the connections\<close>

definition world_inv :: "'s vfs_world \<Rightarrow> bool" where
  "world_inv w \<longleftrightarrow>
     (\<forall>i f. vw_file w i = Some f \<longrightarrow> file_inv f \<and> (vf_inTransaction f \<longleftrightarrow> vw_writeFile w = Some i)) \<and>
     (\<forall>i. vw_writeFile w = Some i \<longrightarrow> vw_file w i \<noteq> None)"

lemma world_inv_set:
  assumes "world_inv w" "vw_file w i = Some f" "file_inv f'" "same_locks f f'"
  shows "world_inv ((set_file i f' w)\<lparr>vw_lastSynced := l, vw_rep := s\<rparr>)" "world_inv (set_file i f' w)"
  using assms by (auto simp: world_inv_def set_file_def same_locks_def)

lemma world_inv_Lock:
  assumes l: "vfs_Lock i f elock w = Some (e, w')" and w: "world_inv w" "vw_file w i = Some f"
  shows "world_inv w'"
proof -
  have i: "file_inv f" using w by (auto simp: world_inv_def)
  have tr: "vw_writeFile w = Some i \<longleftrightarrow> vf_inTransaction f" using w by (auto simp: world_inv_def)
  have low: "file_inv (f\<lparr>vf_lockType := elock\<rparr>)"
    if "\<not> (vf_writeEnabled f \<and> elock \<ge> LockReserved \<and> \<not> vf_inTransaction f)"
      "\<not> (elock \<ge> LockReserved \<and> \<not> vf_writeEnabled f)" "\<not> elock < vf_lockType f"
    using i that by (auto simp: file_inv_def)
  have high: "file_inv (f1\<lparr>vf_inTransaction := True, vf_lockType := elock\<rparr>)"
    if "vf_writeEnabled f" "elock \<ge> LockReserved"
      "f1 = f \<or> f1 = f\<lparr>vf_expectedTXID := x, vf_pendingTXID := x + 1, vf_pos := x\<rparr>" for f1 x
    using i that by (auto simp: file_inv_def)
  show ?thesis
  proof (cases "vf_writeEnabled f \<and> elock \<ge> LockReserved \<and> \<not> vf_inTransaction f")
    case True
    define f1 where "f1 = (if vw_lastSynced w > vf_expectedTXID f \<and> vf_dirty f = []
      then f\<lparr>vf_expectedTXID := vw_lastSynced w, vf_pendingTXID := vw_lastSynced w + 1, vf_pos := vw_lastSynced w\<rparr> else f)"
    define f2 where "f2 = f1\<lparr>vf_inTransaction := True, vf_lockType := elock\<rparr>"
    define g where "g = set_file i f2 (w\<lparr>vw_writeFile := Some i\<rparr>)"
    have "vfs_Lock i f elock w =
       (if elock < vf_lockType f then Some (Some (Errorf ''invalid lock downgrade''), w)
        else if vf_disabling f then None
        else if vw_writeFile w \<noteq> None \<and> vw_writeFile w \<noteq> Some i then Some (Some ErrBusy, w)
        else Some (None, g))"
      unfolding g_def f2_def f1_def using True by (simp add: vfs_Lock_def Let_def)
    moreover have "vw_writeFile w \<noteq> Some i" using tr True by simp
    ultimately have "w' = w \<or> vw_writeFile w = None \<and> w' = g" using l by (simp split: if_splits)
    moreover have "world_inv g" if "vw_writeFile w = None"
    proof -
      have "file_inv f2" "vf_inTransaction f2"
        unfolding f2_def using True by (simp_all, intro high [of _ "vw_lastSynced w"]) (auto simp: f1_def)
      with w that show ?thesis by (auto simp: world_inv_def set_file_def g_def)
    qed
    ultimately show ?thesis using w(1) by (elim disjE conjE) simp_all
  next
    case False
    then consider "w' = w" | "file_inv (f\<lparr>vf_lockType := elock\<rparr>)" "w' = set_file i (f\<lparr>vf_lockType := elock\<rparr>) w"
      using l low by (auto simp: vfs_Lock_def split: if_splits)
    then show ?thesis using w by cases (auto simp: world_inv_def set_file_def)
  qed
qed

lemma take_pending_simps [simp]:
  "vf_inTransaction (take_pending f) = vf_inTransaction f" "vf_lockType (take_pending f) = vf_lockType f"
  "quiet f (take_pending f)"
  by (simp_all add: take_pending_def quiet_def same_locks_def)

lemma world_inv_Unlock:
  assumes u: "vfs_Unlock i f elock w = (e, w')" and w: "world_inv w" "vw_file w i = Some f"
  shows "world_inv w'"
proof (cases "elock = LockShared \<or> elock = LockNone")
  case True
  have i: "file_inv f" and tr: "vw_writeFile w = Some i \<longleftrightarrow> vf_inTransaction f" using w by (auto simp: world_inv_def)
  have r: "\<not> LockReserved \<le> elock" "elock < LockReserved"
    using True by (auto simp: less_eq_lock_type_def less_lock_type_def)
  define f1 where "f1 = f\<lparr>vf_inTransaction := False, vf_lockType := elock\<rparr>"
  have "file_inv f1" using i r by (auto simp: f1_def file_inv_def)
  then have t: "file_inv (take_pending f1)" by (rule quiet_inv [rotated]) simp
  have f1': "(if vf_writeEnabled f \<and> vf_inTransaction f then f\<lparr>vf_inTransaction := False\<rparr> else f)\<lparr>vf_lockType := elock\<rparr> = f1"
    using i by (cases f) (auto simp: f1_def file_inv_def)
  have "w' = set_file i (take_pending f1) (if vw_writeFile w = Some i then w\<lparr>vw_writeFile := None\<rparr> else w)"
    using u True r f1' tr i by (auto simp: vfs_Unlock_def Let_def file_inv_def)
  then show ?thesis using w t by (auto simp: world_inv_def set_file_def f1_def)
next
  case False
  with u w show ?thesis by (simp add: vfs_Unlock_def)
qed

lemma disable_finish_inv:
  assumes d: "disable_finish env cl now f l s = Some (r, f', l', s')" and i: "file_inv f"
  shows "file_inv f' \<and> vf_inTransaction f' = vf_inTransaction f"
proof -
  have nt: "\<not> vf_inTransaction f" using d by (auto simp: disable_finish_def)
  obtain e f1 l1 s1 where c: "(if vf_dirty f \<noteq> [] then syncToRemote env cl now f l s else (None, f, l, s)) = (e, f1, l1, s1)"
    by (metis prod_cases4)
  have f1: "file_inv f1 \<and> same_locks f f1"
    using c i by (cases "vf_dirty f = []") (auto dest!: syncToRemote_inv)
  have "f' = (if e = None then f1\<lparr>vf_writeEnabled := False, vf_disabling := False\<rparr> else f1\<lparr>vf_disabling := False\<rparr>)"
    using d nt unfolding disable_finish_def c by (cases e) auto
  then show ?thesis using f1 nt by (auto simp: file_inv_def same_locks_def)
qed

lemma enable_writes_inv:
  assumes d: "enable_writes initErr f = (r, f')" and i: "file_inv f"
  shows "file_inv f' \<and> vf_inTransaction f' = vf_inTransaction f"
proof (cases "vf_writeEnabled f \<or> \<not> vf_bufferOpen f \<and> initErr \<noteq> None")
  case True
  then have "f' = f" using d by (auto simp: enable_writes_def split: if_splits)
  with i show ?thesis by simp
next
  case False
  define g where "g = (if vf_bufferOpen f then f else f\<lparr>vf_buffer := [], vf_bufferNextOff := 0, vf_bufferOpen := True\<rparr>)"
  have g: "file_inv g" "vf_bufferOpen g" "vf_inTransaction g = vf_inTransaction f"
    using i by (auto simp: g_def file_inv_def buffer_ok_def)
  have "f' = (if vf_pendingTXID g = 0 then g\<lparr>vf_expectedTXID := vf_pos g, vf_pendingTXID := vf_pos g + 1\<rparr> else g)\<lparr>vf_writeEnabled := True\<rparr>"
    using d False by (auto simp: enable_writes_def g_def Let_def split: option.splits)
  then show ?thesis using g by (cases "vf_pendingTXID g = 0") (auto simp: file_inv_def)
qed

lemma world_inv_update:
  assumes "world_inv w" "vw_file w i = Some f" "file_inv f' \<and> vf_inTransaction f' = vf_inTransaction f"
  shows "world_inv ((set_file i f' w)\<lparr>vw_lastSynced := l, vw_rep := s\<rparr>)" "world_inv (set_file i f' w)"
  using assms by (auto simp: world_inv_def set_file_def)

lemma world_inv_Close:
  assumes w: "world_inv w" "vw_file w i = Some f"
  shows "world_inv (vfs_Close env cl now i f w)"
proof -
  have i: "file_inv f" "vf_inTransaction f \<longleftrightarrow> vw_writeFile w = Some i" using w by (auto simp: world_inv_def)
  obtain e f1 l1 s1 where c: "(if vf_writeEnabled f \<and> vf_dirty f \<noteq> [] then syncToRemote env cl now f (vw_lastSynced w) (vw_rep w)
      else (None, f, vw_lastSynced w, vw_rep w)) = (e, f1, l1, s1)"
    by (metis prod_cases4)
  have "same_locks f f1" using c i(1) by (cases "vf_writeEnabled f \<and> vf_dirty f \<noteq> []") (auto dest!: syncToRemote_inv)
  then have "vf_writeEnabled f1 \<or> vw_writeFile w \<noteq> Some i" using i by (auto simp: same_locks_def file_inv_def)
  with w(1) show ?thesis unfolding vfs_Close_def c by (auto simp: world_inv_def)
qed

lemma opened_inv: "ps \<noteq> 0 \<Longrightarrow> file_inv (opened wr ps pos m1 idx c) \<and> \<not> vf_inTransaction (opened wr ps pos m1 idx c)"
  by (simp add: opened_def file_inv_def buffer_ok_def less_eq_lock_type_def)

lemma quiet_update: "quiet f f' \<Longrightarrow> file_inv f \<Longrightarrow> file_inv f' \<and> vf_inTransaction f' = vf_inTransaction f"
  using quiet_inv by (auto simp: quiet_def same_locks_def)

lemma file_inv_disabling [simp]: "file_inv (f\<lparr>vf_disabling := b\<rparr>) = file_inv f"
  unfolding file_inv_def buffer_ok_upd by (cases f) (simp only: vfs_file.simps)

lemma disabling_inv:
  "file_inv f \<Longrightarrow> file_inv (disable_begin f) \<and> vf_inTransaction (disable_begin f) = vf_inTransaction f"
  "file_inv f \<Longrightarrow> file_inv (disable_abort f) \<and> vf_inTransaction (disable_abort f) = vf_inTransaction f"
  by (simp_all add: disable_begin_def disable_abort_def)

lemma vfs_step_inv: "vfs_step cl w w' \<Longrightarrow> world_inv w \<Longrightarrow> world_inv w'"
proof (induction rule: vfs_step.induct)
  case (lock w i f elock e w')
  then show ?case using world_inv_Lock by blast
next
  case (unlock w i f elock e w')
  then show ?case using world_inv_Unlock by blast
next
  case (read w i f env p off r f')
  then show ?case
    by (intro world_inv_update quiet_update [OF quiet_ReadAt]) (auto simp: world_inv_def)
next
  case (wrote w i f env b off r f')
  then have "file_inv f" by (simp add: world_inv_def)
  with vfs_WriteAt_inv [OF wrote(2)] wrote show ?case by (intro world_inv_update) (auto simp: same_locks_def)
next
  case (truncated w i f sz r f')
  then have "file_inv f" by (simp add: world_inv_def)
  with vfs_Truncate_inv [OF truncated(2)] truncated show ?case by (intro world_inv_update) (auto simp: same_locks_def)
next
  case (synced w i f env now r f' l' s')
  then have i: "file_inv f" by (simp add: world_inv_def)
  have "file_inv f' \<and> same_locks f f'"
    using synced(2) i by (auto simp: vfs_Sync_def dest!: syncToRemote_inv split: if_splits)
  with synced show ?case by (intro world_inv_update) (auto simp: same_locks_def)
next
  case (polled w i f env r)
  then have "file_inv f" by (simp add: world_inv_def)
  from quiet_update [OF quiet_poll this] polled show ?case by (intro world_inv_update)
next
  case (time_travel w i f env infos t r f')
  then show ?case by (intro world_inv_update quiet_update [OF quiet_rebuild]) (auto simp: world_inv_def)
next
  case (hydrated w i f h t)
  then show ?case
    by (intro world_inv_update quiet_update) (auto simp: world_inv_def quiet_def same_locks_def)
next
  case (disabling w i f)
  then have "file_inv f" by (simp add: world_inv_def)
  from disabling_inv(1) [OF this] disabling show ?case by (intro world_inv_update)
next
  case (gave_up w i f)
  then have "file_inv f" by (simp add: world_inv_def)
  from disabling_inv(2) [OF this] gave_up show ?case by (intro world_inv_update)
next
  case (disabled w i f env now r f' l' s')
  then have "file_inv f" by (simp add: world_inv_def)
  from disable_finish_inv [OF disabled(2) this] disabled show ?case by (intro world_inv_update)
next
  case (enabled w i f initErr r f')
  then have "file_inv f" by (simp add: world_inv_def)
  from enable_writes_inv [OF enabled(2) this] enabled show ?case by (intro world_inv_update)
next
  case (opens w i ps wr pos m1 idx c)
  then show ?case using opened_inv [of ps wr pos m1 idx c]
    by (auto simp: world_inv_def vfs_Open_def set_file_def Let_def)
next
  case (closes w i f env now)
  then show ?case by (intro world_inv_Close)
next
  case (remote w s)
  then show ?case by (simp add: world_inv_def)
qed

lemma vfs_reachable_inv: "vfs_reachable cl w \<Longrightarrow> world_inv w"
proof (induction rule: vfs_reachable.induct)
  case (step w w')
  then show ?case using vfs_step_inv by blast
qed (simp add: world_inv_def)

section \<open>One writer\<close>

definition reserved :: "'s vfs_world \<Rightarrow> nat \<Rightarrow> bool" where
  "reserved w i = (case vw_file w i of None \<Rightarrow> False | Some f \<Rightarrow> vf_lockType f \<ge> LockReserved)"

lemma reserved_iff: "world_inv w \<Longrightarrow> reserved w i \<longleftrightarrow> vw_writeFile w = Some i"
  by (cases "vw_file w i") (auto simp: reserved_def world_inv_def file_inv_def)


text \<open>Two connections; the second one holds the write lock.\<close>

definition ex_client :: "level_fs client" where
  "ex_client = file_client ex_pkg no_faults 9 (\<lambda>_ _ _ _ e. e)"

definition ex_conn :: vfs_file where
  "ex_conn = opened True 512 5 5 [(2, \<lparr>pe_Level = 0, pe_MinTXID = 5, pe_MaxTXID = 5, pe_Offset = 0, pe_Size = 512\<rparr>)] 2"

definition ex_world :: "level_fs vfs_world" where
  "ex_world = vfs_Open 1 ex_conn True (vfs_Open 0 ex_conn True
     \<lparr>vw_file = (\<lambda>_. None), vw_writeFile = None, vw_lastSynced = 0, vw_rep = (\<lambda>_. None)\<rparr>)"

lemma ex_world_reachable: "vfs_reachable ex_client ex_world"
proof -
  let ?w0 = "\<lparr>vw_file = (\<lambda>_. None), vw_writeFile = None, vw_lastSynced = 0, vw_rep = (\<lambda>_. None)\<rparr> :: level_fs vfs_world"
  have "vfs_reachable ex_client ?w0" by (rule vfs_reachable.init) simp_all
  moreover have "vfs_step ex_client ?w0 (vfs_Open 0 ex_conn True ?w0)"
    unfolding ex_conn_def by (rule vfs_step.opens) simp_all
  moreover have "vfs_step ex_client (vfs_Open 0 ex_conn True ?w0) ex_world"
    unfolding ex_world_def ex_conn_def by (rule vfs_step.opens) (simp_all add: vfs_Open_def set_file_def Let_def)
  ultimately show ?thesis using vfs_reachable.step by blast
qed


end
