(* ===== verification/Vfs_Write.thy ===== *)
theory Vfs_Write
  imports Vfs_Machine
begin

text \<open>
  What a write to a VFS file does to what is read, and what a sync puts on the replica: the functional
  correctness of \<open>WriteAt\<close> and of \<open>Sync\<close> of \<open>vfs.go\<close>, the latter on the file client through the contract
  \<open>replica_store\<close>.
\<close>

section \<open>Write, then read\<close>

lemma slots_apart: "n dvd a \<Longrightarrow> n dvd b \<Longrightarrow> a \<noteq> b \<Longrightarrow> a + n \<le> b \<or> b + n \<le> (a :: nat)"
  by (auto simp: dvd_def) (metis Suc_leI add.commute linorder_neqE_nat mult_Suc_right mult_le_mono2)

lemma dirty_page_at: "k + unat (vf_pageSize f) \<le> length (vf_buffer f) \<Longrightarrow>
    dirty_page f k = Inr (sub k (unat (vf_pageSize f)) (vf_buffer f))"
  by (simp add: dirty_page_def file_ReadAt_def Let_def)

lemma buffer_slot:
  "buffer_ok f \<Longrightarrow> map_of (vf_dirty f) q = Some k \<Longrightarrow>
   unat (vf_pageSize f) dvd k \<and> k + unat (vf_pageSize f) \<le> length (vf_buffer f) \<and> k + unat (vf_pageSize f) \<le> vf_bufferNextOff f"
  by (drule map_of_SomeD) (auto simp: buffer_ok_def)

lemma buffer_slots_differ:
  assumes "buffer_ok f" "map_of (vf_dirty f) q = Some k" "map_of (vf_dirty f) q' = Some k'" "q \<noteq> q'"
  shows "k \<noteq> k'"
proof
  assume "k = k'"
  then have "(q, k) = (q', k)"
    using assms map_of_SomeD by (intro inj_onD [of snd "set (vf_dirty f)"]) (fastforce simp: buffer_ok_def distinct_map)+
  with assms(4) show False by simp
qed

lemma write_slot_apart:
  assumes "length data = n" "n dvd k" "n dvd k'" "k \<noteq> k'" "k' + n \<le> length buf"
  shows "sub k' n (write_at buf k data) = sub k' n buf"
  using slots_apart [OF assms(2,3,4)] assms sub_write_at_before sub_write_at_after by fastforce

lemma writeToBuffer_spec:
  assumes ok: "ve_bufWrite env = None" "buffer_ok f" "vf_pageSize f \<noteq> 0" and l: "length data = unat (vf_pageSize f)"
  obtains k f' where "writeToBuffer env f pgno data = (None, f')" "map_of (vf_dirty f') pgno = Some k"
    "dirty_page f' k = Inr data" "\<And>q. q \<noteq> pgno \<Longrightarrow> map_of (vf_dirty f') q = map_of (vf_dirty f) q"
    "\<And>q j. q \<noteq> pgno \<Longrightarrow> map_of (vf_dirty f) q = Some j \<Longrightarrow> dirty_page f' j = dirty_page f j"
    "vf_commit f' = vf_commit f"
proof -
  let ?ps = "unat (vf_pageSize f)"
  define k where "k = (case map_of (vf_dirty f) pgno of Some j \<Rightarrow> j | None \<Rightarrow> vf_bufferNextOff f)"
  obtain f' where f': "writeToBuffer env f pgno data = (None, f')" "vf_buffer f' = write_at (vf_buffer f) k data"
      "vf_dirty f' = AList.update pgno k (vf_dirty f)" "vf_pageSize f' = vf_pageSize f" "vf_commit f' = vf_commit f"
    using ok(1) by (cases "map_of (vf_dirty f) pgno") (simp_all add: writeToBuffer_def k_def)
  have pos: "0 < ?ps" using ok(3) by (simp add: unat_gt_0)
  have len: "k + ?ps \<le> length (vf_buffer f')" using l pos by (auto simp: f' length_write_at)
  have dvd: "?ps dvd k"
  proof (cases "map_of (vf_dirty f) pgno")
    case None
    then show ?thesis using ok(2) by (simp add: k_def buffer_ok_def)
  next
    case (Some i)
    then show ?thesis using buffer_slot [OF ok(2) Some] by (simp add: k_def)
  qed
  have "sub k ?ps (vf_buffer f') = data"
    using sub_write_at_here [of data ?ps k "vf_buffer f"] l by (simp add: f')
  then have here: "dirty_page f' k = Inr data" using dirty_page_at len by (simp add: f')
  have other: "dirty_page f' j = dirty_page f j" if "q \<noteq> pgno" "map_of (vf_dirty f) q = Some j" for q j
  proof -
    note s = buffer_slot [OF ok(2) that(2)]
    have "k \<noteq> j"
    proof (cases "map_of (vf_dirty f) pgno")
      case None
      then show ?thesis using s pos by (auto simp: k_def)
    next
      case (Some i)
      then show ?thesis using buffer_slots_differ [OF ok(2) that(2) Some that(1)] by (simp add: k_def)
    qed
    then have "sub j ?ps (vf_buffer f') = sub j ?ps (vf_buffer f)"
      using write_slot_apart [OF l dvd, of j] s by (simp add: f')
    moreover have "j + ?ps \<le> length (vf_buffer f')" using s le_length_write_at by (simp add: f')
    ultimately show ?thesis using s by (simp add: dirty_page_at f'(4))
  qed
  show thesis using that [OF f'(1) _ here _ other f'(5)] by (simp add: f' update_conv')
qed

text \<open>The page a partial write starts from: the buffered copy, else the cached or the fetched one, else zeros.\<close>

definition page_before :: "vfs_env \<Rightarrow> vfs_file \<Rightarrow> u32 \<Rightarrow> byte list" where
  "page_before env f pgno =
     (let ps = unat (vf_pageSize f) in
      case map_of (vf_dirty f) pgno of
        Some k \<Rightarrow> sub k ps (vf_buffer f)
      | None \<Rightarrow> (case readPageForWrite env f pgno (replicate ps 0) of (_, page, _) \<Rightarrow> page))"

lemma page_before_read:
  assumes "buffer_ok f"
  obtains f1 where "(case map_of (vf_dirty f) pgno of
        Some bufferOff \<Rightarrow>
          (case file_ReadAt (vf_buffer f) (unat (vf_pageSize f)) (int bufferOff) of
             (_, Some e) \<Rightarrow> Inl (Wrapf ''read dirty page from buffer'' e)
           | (data, None) \<Rightarrow> Inr (data, f))
      | None \<Rightarrow> (case readPageForWrite env f pgno (replicate (unat (vf_pageSize f)) 0) of (_, page, f1) \<Rightarrow> Inr (page, f1)))
    = Inr (page_before env f pgno, f1)"
    "length (page_before env f pgno) = unat (vf_pageSize f)" "quiet f f1" "vf_commit f1 = vf_commit f"
proof (cases "map_of (vf_dirty f) pgno")
  case None
  obtain e pg f1 where r: "readPageForWrite env f pgno (replicate (unat (vf_pageSize f)) 0) = (e, pg, f1)"
    by (metis prod_cases3)
  moreover have "vf_commit f1 = vf_commit f"
    using r by (auto simp: readPageForWrite_def split: option.splits sum.splits if_splits)
  ultimately show ?thesis using None quiet_readPage [OF r] by (intro that [of f1]) (simp_all add: page_before_def)
next
  case (Some k)
  then show ?thesis using dirty_read [OF assms map_of_SomeD [OF Some]] by (intro that [of f]) (simp_all add: page_before_def)
qed

lemma vfs_WriteAt_spec:
  assumes inv: "file_inv f" "vf_writeEnabled f" and env: "ve_bufWrite env = None"
    and pg: "pgno_at f off \<noteq> ve_lockPgno env (vf_pageSize f)" "off mod unat (vf_pageSize f) + length b \<le> unat (vf_pageSize f)"
  obtains f' k where "vfs_WriteAt env f b off = ((length b, None), f')"
    "map_of (vf_dirty f') (pgno_at f off) = Some k"
    "dirty_page f' k = Inr (take (off mod unat (vf_pageSize f)) (page_before env f (pgno_at f off)) @ b @
       drop (off mod unat (vf_pageSize f) + length b) (page_before env f (pgno_at f off)))"
    "\<And>q. q \<noteq> pgno_at f off \<Longrightarrow> map_of (vf_dirty f') q = map_of (vf_dirty f) q"
    "\<And>q j. q \<noteq> pgno_at f off \<Longrightarrow> map_of (vf_dirty f) q = Some j \<Longrightarrow> dirty_page f' j = dirty_page f j"
    "vf_commit f' = max (vf_commit f) (pgno_at f off)"
proof -
  let ?ps = "unat (vf_pageSize f)" and ?pgno = "pgno_at f off"
  let ?po = "off mod ?ps" and ?old = "page_before env f ?pgno"
  have b: "buffer_ok f" "vf_pageSize f \<noteq> 0" using inv(1) by (simp_all add: file_inv_def)
  obtain f1 where f1: "(case map_of (vf_dirty f) ?pgno of
        Some bufferOff \<Rightarrow>
          (case file_ReadAt (vf_buffer f) ?ps (int bufferOff) of
             (_, Some e) \<Rightarrow> Inl (Wrapf ''read dirty page from buffer'' e)
           | (data, None) \<Rightarrow> Inr (data, f))
      | None \<Rightarrow> (case readPageForWrite env f ?pgno (replicate ?ps 0) of (_, page, f1) \<Rightarrow> Inr (page, f1))) = Inr (?old, f1)"
    "length ?old = ?ps" "quiet f f1" "vf_commit f1 = vf_commit f"
    by (rule page_before_read [OF b(1)])
  define f2 where "f2 = (if ?pgno > vf_commit f1 then f1\<lparr>vf_commit := ?pgno\<rparr> else f1)"
  define page' where "page' = take ?po ?old @ copy_into (drop ?po ?old) b"
  have page': "page' = take ?po ?old @ b @ drop (?po + length b) ?old" "length page' = ?ps"
    using pg(2) f1(2) by (simp_all add: page'_def copy_into_def add.commute)
  have q2: "vf_dirty f2 = vf_dirty f" "vf_buffer f2 = vf_buffer f" "vf_pageSize f2 = vf_pageSize f" "buffer_ok f2"
      "vf_commit f2 = max (vf_commit f) ?pgno"
    using f1(3,4) b(1) by (auto simp: f2_def quiet_def same_locks_def buffer_ok_def max_def)
  have ps2: "vf_pageSize f2 \<noteq> 0" "length page' = unat (vf_pageSize f2)" using b(2) page'(2) q2(3) by simp_all
  obtain k f3 where w: "writeToBuffer env f2 ?pgno page' = (None, f3)" "map_of (vf_dirty f3) ?pgno = Some k"
    "dirty_page f3 k = Inr page'" "\<And>q. q \<noteq> ?pgno \<Longrightarrow> map_of (vf_dirty f3) q = map_of (vf_dirty f2) q"
    "\<And>q j. q \<noteq> ?pgno \<Longrightarrow> map_of (vf_dirty f2) q = Some j \<Longrightarrow> dirty_page f3 j = dirty_page f2 j"
    "vf_commit f3 = vf_commit f2"
    by (rule writeToBuffer_spec [OF env q2(4) ps2, of ?pgno]) blast
  have same: "dirty_page f2 j = dirty_page f j" for j using q2 by (simp add: dirty_page_def)
  have "vfs_WriteAt env f b off = ((min (?ps - ?po) (length b), None), f3)"
    using inv(2) b(2) pg(1) f1(1) w(1)
    by (simp add: vfs_WriteAt_def pageSizeBytes_def Let_def f2_def [symmetric] page'_def [symmetric])
  then have "vfs_WriteAt env f b off = ((length b, None), f3)" using pg(2) by simp
  from that [OF this w(2) w(3) [unfolded page'(1)]] show thesis using w(4-6) q2 same by simp
qed

lemma vfs_ReadAt_dirty:
  assumes "file_inv f" "vf_writeEnabled f" "map_of (vf_dirty f) (pgno_at f off) = Some k" "dirty_page f k = Inr page"
  shows "vfs_ReadAt env f p off =
    (let p' = copy_into p (drop (off mod unat (vf_pageSize f)) page) in
     (Done (min (length p) (unat (vf_pageSize f) - off mod unat (vf_pageSize f)),
       if off = 0 \<and> length p \<ge> 28 then journal_mode (ve_rand env) p' else p', None), f))"
  using assms
  by (auto simp: vfs_ReadAt_def pageSizeBytes_def file_inv_def dirty_page_def Let_def split: prod.splits option.splits)

text \<open>C21: A write within one page to a write-enabled file, whose buffer file takes the bytes, writes them all: a
  read of the same range returns them, with only the journal-mode and change-counter bytes of the first page
  patched; the buffered page is its previous content (buffered, cached, fetched, or zeros) with these bytes laid
  over it; no other buffered page changes; the commit grows to the page; and the file's invariant is kept.\<close>

theorem vfs_write_read:
  assumes "file_inv f" "vf_writeEnabled f" "ve_bufWrite env = None" "pgno_at f off \<noteq> ve_lockPgno env (vf_pageSize f)"
    and "off mod unat (vf_pageSize f) + length b \<le> unat (vf_pageSize f)" "length p = length b"
  shows "\<exists>f' k. vfs_WriteAt env f b off = ((length b, None), f') \<and> file_inv f' \<and>
    vfs_ReadAt env' f' p off =
      (Done (length b, if off = 0 \<and> length b \<ge> 28 then journal_mode (ve_rand env') b else b, None), f') \<and>
    map_of (vf_dirty f') (pgno_at f off) = Some k \<and>
    dirty_page f' k = Inr (take (off mod unat (vf_pageSize f)) (page_before env f (pgno_at f off)) @ b @
       drop (off mod unat (vf_pageSize f) + length b) (page_before env f (pgno_at f off))) \<and>
    (\<forall>q j. q \<noteq> pgno_at f off \<longrightarrow> map_of (vf_dirty f') q = map_of (vf_dirty f) q \<and>
       (map_of (vf_dirty f) q = Some j \<longrightarrow> dirty_page f' j = dirty_page f j)) \<and>
    vf_commit f' = max (vf_commit f) (pgno_at f off)"
proof -
  let ?ps = "unat (vf_pageSize f)" and ?old = "page_before env f (pgno_at f off)"
  obtain f' k where W: "vfs_WriteAt env f b off = ((length b, None), f')" "map_of (vf_dirty f') (pgno_at f off) = Some k"
    "dirty_page f' k = Inr (take (off mod ?ps) ?old @ b @ drop (off mod ?ps + length b) ?old)"
    "\<And>q. q \<noteq> pgno_at f off \<Longrightarrow> map_of (vf_dirty f') q = map_of (vf_dirty f) q"
    "\<And>q j. q \<noteq> pgno_at f off \<Longrightarrow> map_of (vf_dirty f) q = Some j \<Longrightarrow> dirty_page f' j = dirty_page f j"
    "vf_commit f' = max (vf_commit f) (pgno_at f off)"
    by (rule vfs_WriteAt_spec [OF assms(1-5)]) blast
  note I = vfs_WriteAt_inv [OF W(1) assms(1)]
  have s: "vf_writeEnabled f'" "vf_pageSize f' = vf_pageSize f" "pgno_at f' off = pgno_at f off"
    using I(2) assms(2) by (simp_all add: same_locks_def pgno_at_def)
  have "buffer_ok f" using assms(1) by (simp add: file_inv_def)
  then have "length ?old = ?ps" by (rule page_before_read)
  then have "drop (off mod ?ps) (take (off mod ?ps) ?old @ b @ drop (off mod ?ps + length b) ?old) =
      b @ drop (off mod ?ps + length b) ?old"
    using assms(5) by simp
  then have c: "copy_into p (drop (off mod ?ps) (take (off mod ?ps) ?old @ b @ drop (off mod ?ps + length b) ?old)) = b"
    using assms(6) by (simp only: copy_into_def) simp
  have m: "map_of (vf_dirty f') (pgno_at f' off) = Some k" using W(2) s(3) by simp
  have "vfs_ReadAt env' f' p off =
      (Done (length b, if off = 0 \<and> length b \<ge> 28 then journal_mode (ve_rand env') b else b, None), f')"
    using vfs_ReadAt_dirty [OF I(1) s(1) m W(3), unfolded s(2), of env' p] assms(5,6)
    by (simp only: Let_def c) (simp add: min_absorb1)
  with W I(1) show ?thesis by (intro exI [of _ f'] exI [of _ k]) auto
qed

definition ex_env :: vfs_env where
  "ex_env = \<lparr>ve_fetch = (\<lambda>_ _. Inr (replicate 512 0)), ve_index = (\<lambda>_. Inl Canceled), ve_header = (\<lambda>_. Inl Canceled),
     ve_cacheAdd = (\<lambda>k d c. c(k \<mapsto> d)), ve_mentionsEOF = (\<lambda>_. False), ve_ctxDone = (\<lambda>_. False), ve_rand = (1, 2, 3, 4),
     ve_lockPgno = (\<lambda>_. 2097153), ve_bufWrite = None, ve_bufTruncate = None,
     ve_encode = (\<lambda>f. (concat (map (\<lambda>(p, d). ucast p # take 4 d) (lpages f)), lpages_err f))\<rparr>"

text \<open>Three bytes at offset 514, in the second page.\<close>

theorem vfs_write_read_witness:
  "\<exists>f'. vfs_WriteAt ex_env ex_conn [7, 8, 9] 514 = ((3, None), f') \<and>
     vfs_ReadAt ex_env f' [0, 0, 0] 514 = (Done (3, [7, 8, 9], None), f') \<and> vf_commit f' = 2"
proof -
  have i: "file_inv ex_conn" unfolding ex_conn_def by (rule conjunct1 [OF opened_inv]) simp
  have c: "vf_writeEnabled ex_conn" "ve_bufWrite ex_env = None" "vf_pageSize ex_conn = 512" "vf_commit ex_conn = 2"
    by (simp_all add: ex_conn_def opened_def ex_env_def)
  then have p: "pgno_at ex_conn 514 = 2" by (simp add: pgno_at_def)
  have l: "pgno_at ex_conn 514 \<noteq> ve_lockPgno ex_env (vf_pageSize ex_conn)" unfolding p by (simp add: ex_env_def)
  show ?thesis
    using vfs_write_read [OF i c(1,2) l, of "[7, 8, 9]" "[0, 0, 0]" ex_env] p c by auto
qed

section \<open>Sync\<close>

definition buffered :: "vfs_file \<Rightarrow> u32 \<Rightarrow> byte list" where
  "buffered f pgno = sub (the (map_of (vf_dirty f) pgno)) (unat (vf_pageSize f)) (vf_buffer f)"

lemma encode_dirty_ok:
  assumes "buffer_ok f" "set pgnos \<subseteq> fst ` set (vf_dirty f)"
  shows "encode_dirty f lk pgnos = (map (\<lambda>p. (p, buffered f p)) (filter (\<lambda>p. p \<noteq> lk) pgnos), None)"
  using assms(2)
proof (induction pgnos)
  case (Cons p ps)
  have "map_of (vf_dirty f) p \<noteq> None" using Cons.prems by (simp add: map_of_eq_None_iff)
  then obtain k where k: "map_of (vf_dirty f) p = Some k" by blast
  then have "dirty_page f k = Inr (buffered f p)"
    using buffer_slot [OF assms(1) k] by (simp add: dirty_page_at buffered_def)
  then show ?case using Cons k by simp
qed simp

text \<open>The transaction a sync uploads.\<close>

definition buffered_ltx :: "vfs_env \<Rightarrow> go_time \<Rightarrow> vfs_file \<Rightarrow> ltx_file" where
  "buffered_ltx env now f =
     \<lparr>lheader = \<lparr>hPageSize = vf_pageSize f, hCommit = vf_commit f, hMinTXID = vf_pendingTXID f,
        hMaxTXID = vf_pendingTXID f, hTimestamp = now, hWALOffset = 0, hWALSize = 0, hWALSalt1 = 0, hWALSalt2 = 0\<rparr>,
      lpages = map (\<lambda>p. (p, buffered f p))
        (filter (\<lambda>p. p \<noteq> ve_lockPgno env (vf_pageSize f)) (sort (map fst (vf_dirty f)))),
      lpages_err = None\<rparr>"

lemma createLTXFromDirty_ok: "buffer_ok f \<Longrightarrow> createLTXFromDirty env now f = buffered_ltx env now f"
  using encode_dirty_ok [of f "sort (map fst (vf_dirty f))" "ve_lockPgno env (vf_pageSize f)"]
  by (simp add: createLTXFromDirty_def buffered_ltx_def)

lemma cache_dirty_ok:
  assumes "buffer_ok f" "set ds \<subseteq> set (vf_dirty f)" "vf_dirty g = vf_dirty f" "vf_buffer g = vf_buffer f" "vf_pageSize g = vf_pageSize f"
  shows "\<exists>f'. cache_dirty env ds g = (None, f')"
  using assms(2-)
proof (induction ds arbitrary: g)
  case (Cons d ds)
  obtain p k where d: "d = (p, k)" by (cases d)
  then have "dirty_page g k = Inr (sub k (unat (vf_pageSize g)) (vf_buffer g))"
    using Cons.prems assms(1) by (intro dirty_page_at) (auto simp: buffer_ok_def)
  then show ?case using Cons.IH [of "g\<lparr>vf_cache := ve_cacheAdd env p (sub k (unat (vf_pageSize g)) (vf_buffer g)) (vf_cache g)\<rparr>"] Cons.prems
    by (simp add: d)
qed simp

text \<open>A level-0 file at or after the expected transaction that goes beyond it is a conflict.\<close>

definition remote_ahead :: "file_info list \<Rightarrow> vfs_file \<Rightarrow> bool" where
  "remote_ahead fs f \<longleftrightarrow> (\<exists>x \<in> set fs. vf_expectedTXID f \<le> MinTXID x \<and> vf_expectedTXID f < MaxTXID x)"

text \<open>What a sync leaves when its upload succeeds.\<close>

definition sync_done :: "vfs_file \<Rightarrow> vfs_file \<Rightarrow> bool" where
  "sync_done f f' \<longleftrightarrow> file_inv f' \<and> same_locks f f' \<and> vf_dirty f' = [] \<and>
     vf_expectedTXID f' = vf_pendingTXID f \<and> vf_pendingTXID f' = vf_pendingTXID f + 1"

lemma uploaded_done:
  assumes i: "file_inv f" "vf_dirty f \<noteq> []" and c: "checkForConflict (cl_LTXFiles cl s) f = None"
    and u: "cl_WriteLTXFile cl s 0 (vf_pendingTXID f) (vf_pendingTXID f) (ve_encode env (createLTXFromDirty env now f)) = (Inr info, s1)"
  shows "\<exists>f'. syncToRemote env cl now f l s =
    (map_option (Wrapf ''clear write buffer'') (map_option (Wrapf ''truncate buffer'') (ve_bufTruncate env)), f', max l (vf_pendingTXID f), s1) \<and> sync_done f f'"
proof -
  have ok: "buffer_ok f" using i(1) by (simp add: file_inv_def)
  have p: "vf_dirty (published f) = vf_dirty f" "vf_buffer (published f) = vf_buffer f" "vf_pageSize (published f) = vf_pageSize f"
    by (simp_all add: published_def)
  obtain f2 where f2: "cache_dirty env (vf_dirty (published f)) (published f) = (None, f2)"
    using cache_dirty_ok [OF ok _ p, of "vf_dirty f" env] p(1) by auto
  obtain e2 f3 where f3: "clearWriteBuffer env ((applySyncedPagesToHydratedFile f2)\<lparr>vf_dirty := []\<rparr>) = (e2, f3)" by fastforce
  have q: "quiet (published f) f2" using cache_dirty_quiet [OF f2] by simp
  have "vf_expectedTXID (applySyncedPagesToHydratedFile f2) = vf_expectedTXID f2"
    "vf_pendingTXID (applySyncedPagesToHydratedFile f2) = vf_pendingTXID f2"
    by (simp_all add: applySyncedPagesToHydratedFile_def split: option.split prod.split)
  then have t: "vf_dirty f3 = []" "vf_expectedTXID f3 = vf_expectedTXID f2" "vf_pendingTXID f3 = vf_pendingTXID f2"
      "e2 = map_option (Wrapf ''truncate buffer'') (ve_bufTruncate env)"
    using f3 by (auto simp: clearWriteBuffer_def split: option.splits)
  have run: "syncToRemote env cl now f l s =
    (map_option (Wrapf ''clear write buffer'') e2, f3, if vf_pendingTXID f > l then vf_pendingTXID f else l, s1)"
    using syncToRemote_uploaded [OF i(2) c u f2 [unfolded p(1)] f3] by simp
  have "file_inv f3 \<and> same_locks f f3" by (rule syncToRemote_inv [OF run i(1)])
  moreover have "vf_expectedTXID f2 = vf_pendingTXID f" "vf_pendingTXID f2 = vf_pendingTXID f + 1"
    using q by (simp_all add: quiet_def published_def)
  ultimately have "sync_done f f3" using t by (simp add: sync_done_def)
  then show ?thesis using run t(4) by (auto simp: max_def)
qed

context replica_store
begin

lemma conflict_iff:
  assumes "good s"
  shows "checkForConflict (cl_LTXFiles cl s) f =
    (if remote_ahead (files s 0) f then Some (Wrapf ''expected TXID but remote has'' ErrConflict) else None)"
proof -
  obtain it where it: "cl_LTXFiles cl s 0 (vf_expectedTXID f) False = Inr it"
    "it_items it = filter (\<lambda>x. vf_expectedTXID f \<le> MinTXID x) (files s 0)" "it_close it = None"
    using list_files [OF assms] by blast
  then show ?thesis by (auto simp: checkForConflict_def remote_ahead_def max_info_le)
qed

lemma sync_spec:
  assumes g: "good s" and f: "file_inv f" "vf_writeEnabled f" "\<not> vf_inTransaction f" "vf_dirty f \<noteq> []" "vf_pendingTXID f \<noteq> 0"
  shows "\<exists>e f' l' s'. vfs_Sync env cl now f l s = (e, f', l', s') \<and> good s' \<and>
    (if remote_ahead (files s 0) f
     then e = Some (Wrapf ''expected TXID but remote has'' ErrConflict) \<and> f' = f \<and> l' = l \<and> s' = s
     else content s 0 (vf_pendingTXID f) (vf_pendingTXID f) = None \<and>
       (\<forall>lv a b. (lv, a, b) \<noteq> (0, vf_pendingTXID f, vf_pendingTXID f) \<longrightarrow> content s' lv a b = content s lv a b) \<and>
       (let rd = ve_encode env (buffered_ltx env now f); c' = content s' 0 (vf_pendingTXID f) (vf_pendingTXID f) in
        if f' = f then e \<noteq> None \<and> l' = l \<and> (c' = None \<or> snd rd = None \<and> c' = Some (fst rd))
        else sync_done f f' \<and> snd rd = None \<and> c' = Some (fst rd) \<and> l' = max l (vf_pendingTXID f) \<and>
          (e = None \<longleftrightarrow> ve_bufTruncate env = None)))"
proof (cases "remote_ahead (files s 0) f")
  case True
  then show ?thesis using g f conflict_iff [OF g, of f] by (simp add: vfs_Sync_def syncToRemote_def)
next
  case False
  let ?P = "vf_pendingTXID f"
  let ?rd = "ve_encode env (buffered_ltx env now f)"
  have c: "checkForConflict (cl_LTXFiles cl s) f = None" using conflict_iff [OF g] False by simp
  have x: "?P = vf_expectedTXID f + 1" using f(1,2) by (simp add: file_inv_def)
  then have lt: "vf_expectedTXID f < ?P" using f(5) less_succ by simp
  have none: "content s 0 ?P ?P = None"
  proof (rule ccontr)
    assume "content s 0 ?P ?P \<noteq> None"
    then obtain y where "y \<in> set (files s 0)" "info_key y = (0, ?P, ?P)" using listed_iff [OF g] by blast
    with lt False show False by (auto simp: remote_ahead_def info_key_def)
  qed
  have cr: "createLTXFromDirty env now f = buffered_ltx env now f"
    using f(1) by (intro createLTXFromDirty_ok) (simp add: file_inv_def)
  obtain w s1 where w: "cl_WriteLTXFile cl s 0 ?P ?P ?rd = (w, s1)" by fastforce
  have g1: "good s1" using write_file [OF g w] by blast
  note W = write_content [OF g w]
  show ?thesis
  proof (cases w)
    case (Inl e)
    have "vfs_Sync env cl now f l s = (Some (Wrapf ''upload LTX'' e), f, l, s1)"
      using f c w Inl by (simp add: vfs_Sync_def syncToRemote_def cr)
    then show ?thesis using g1 W Inl False none by (simp add: Let_def)
  next
    case (Inr info)
    obtain f' where f': "syncToRemote env cl now f l s =
        (map_option (Wrapf ''clear write buffer'') (map_option (Wrapf ''truncate buffer'') (ve_bufTruncate env)), f', max l ?P, s1)" "sync_done f f'"
      using uploaded_done [OF f(1,4) c, of env now info s1 l] w Inr cr by auto
    have "f' \<noteq> f" using f'(2) f(4) by (auto simp: sync_done_def)
    moreover have "vfs_Sync env cl now f l s =
        (map_option (Wrapf ''clear write buffer'') (map_option (Wrapf ''truncate buffer'') (ve_bufTruncate env)), f', max l ?P, s1)"
      using f f'(1) by (simp add: vfs_Sync_def)
    ultimately show ?thesis using g1 W Inr False none f'(2) by (simp add: Let_def)
  qed
qed

end

lemma sync_no_faults:
  assumes ok: "client_ok pkg no_faults fs" and f: "file_inv f" "vf_writeEnabled f" "\<not> vf_inTransaction f" "vf_dirty f \<noteq> []"
    and n: "\<not> remote_ahead (file_listing pkg fs 0) f"
    and rd: "ve_encode env (buffered_ltx env now f) = (bs, None)" "PeekHeader pkg (bs, None) = Inr ms"
  shows "\<exists>e f' l' fs'. vfs_Sync env (file_client pkg no_faults mtime mk) now f l fs = (e, f', l', fs') \<and> f' \<noteq> f"
proof -
  let ?cl = "file_client pkg no_faults mtime mk" and ?P = "vf_pendingTXID f"
  have c: "checkForConflict (cl_LTXFiles ?cl fs) f = None"
    using file_store.conflict_iff [OF ok, of mtime mk f] n by simp
  have cr: "createLTXFromDirty env now f = buffered_ltx env now f"
    using f(1) by (intro createLTXFromDirty_ok) (simp add: file_inv_def)
  obtain info s1 where "cl_WriteLTXFile ?cl fs 0 ?P ?P (ve_encode env (createLTXFromDirty env now f)) = (Inr info, s1)"
    using write_no_faults [OF rd(2), of mtime fs 0 ?P ?P] by (auto simp: cr rd(1) file_client_def)
  from uploaded_done [OF f(1,4) c this, of l] obtain e f' l' where "syncToRemote env ?cl now f l fs = (e, f', l', s1)" "sync_done f f'"
    by blast
  moreover have "vf_dirty f' = []" using calculation(2) by (simp add: sync_done_def)
  ultimately show ?thesis using f by (auto simp: vfs_Sync_def)
qed

text \<open>C18: A sync of dirty pages outside a transaction, on the file client. When the replica has a level-0 file at or
  after the expected transaction that goes beyond it, the sync fails with \<open>ErrConflict\<close> and changes nothing.
  Otherwise no file of the pending transaction exists, no other file changes, and either the upload fails, the
  pages stay buffered and the file is absent or complete, which does not happen without faults when the stream
  is one the package accepts; or the replica holds the transaction made of exactly
  the buffered pages in page order without the lock page, and the buffer is empty, the pending
  transaction has become the expected one and the error, if any, is that of truncating the buffer file.\<close>

theorem vfs_Sync_publishes:
  assumes "client_ok pkg flt fs" "file_inv f" "vf_writeEnabled f" "\<not> vf_inTransaction f" "vf_dirty f \<noteq> []" "vf_pendingTXID f \<noteq> 0"
  shows "\<exists>e f' l' fs'. vfs_Sync env (file_client pkg flt mtime mk) now f l fs = (e, f', l', fs') \<and> client_ok pkg flt fs' \<and>
    (if remote_ahead (file_listing pkg fs 0) f
     then e = Some (Wrapf ''expected TXID but remote has'' ErrConflict) \<and> f' = f \<and> l' = l \<and> fs' = fs
     else file_content pkg fs 0 (vf_pendingTXID f) (vf_pendingTXID f) = None \<and>
       (\<forall>lv a b. (lv, a, b) \<noteq> (0, vf_pendingTXID f, vf_pendingTXID f) \<longrightarrow>
          file_content pkg fs' lv a b = file_content pkg fs lv a b) \<and>
       (let rd = ve_encode env (buffered_ltx env now f); c' = file_content pkg fs' 0 (vf_pendingTXID f) (vf_pendingTXID f) in
        if f' = f then e \<noteq> None \<and> l' = l \<and> (c' = None \<or> snd rd = None \<and> c' = Some (fst rd))
        else sync_done f f' \<and> snd rd = None \<and> c' = Some (fst rd) \<and> l' = max l (vf_pendingTXID f) \<and>
          (e = None \<longleftrightarrow> ve_bufTruncate env = None)) \<and>
       (flt = no_faults \<and> (\<exists>bs ms. ve_encode env (buffered_ltx env now f) = (bs, None) \<and> PeekHeader pkg (bs, None) = Inr ms) \<longrightarrow>
          f' \<noteq> f))"
proof -
  have "f' \<noteq> f" if "flt = no_faults" "\<not> remote_ahead (file_listing pkg fs 0) f"
    "ve_encode env (buffered_ltx env now f) = (bs, None)" "PeekHeader pkg (bs, None) = Inr ms"
    "vfs_Sync env (file_client pkg flt mtime mk) now f l fs = (e, f', l', fs')" for e f' l' fs' bs ms
    using sync_no_faults [OF _ assms(2-5) that(2-4), of mtime mk l] assms(1) that(1,5) by auto
  with file_store.sync_spec [OF assms, of env mtime mk now l] show ?thesis
    by (elim exE, rename_tac e f' l' fs', intro exI, elim conjE, intro conjI) (assumption | auto simp: Let_def)+
qed

text \<open>Three bytes are written into the second page and synced to an empty replica.\<close>

definition ex_page :: "byte list" where "ex_page = [7, 8, 9] @ replicate 509 0"

definition ex_written :: vfs_file where
  "ex_written = ex_conn\<lparr>vf_cache := [2 \<mapsto> replicate 512 0], vf_bufferNextOff := 512, vf_buffer := ex_page,
     vf_dirty := [(2, 0)]\<rparr>"

lemma ex_written: "vfs_WriteAt ex_env ex_conn [7, 8, 9] 512 = ((3, None), ex_written)"
proof -
  have c: "vf_pageSize ex_conn = 512" "vf_dirty ex_conn = []" "vf_commit ex_conn = 2" "vf_writeEnabled ex_conn"
      "vf_index ex_conn = [(2, \<lparr>pe_Level = 0, pe_MinTXID = 5, pe_MaxTXID = 5, pe_Offset = 0, pe_Size = 512\<rparr>)]"
      "vf_cache ex_conn = Map.empty" "vf_bufferNextOff ex_conn = 0" "vf_buffer ex_conn = []"
    by (simp_all add: ex_conn_def opened_def)
  have p: "pgno_at ex_conn 512 = 2" by (simp add: pgno_at_def c)
  have r: "readPageForWrite ex_env ex_conn 2 (replicate 512 0) =
      (None, replicate 512 0, ex_conn\<lparr>vf_cache := [2 \<mapsto> replicate 512 0]\<rparr>)"
    by (simp add: readPageForWrite_def c ex_env_def copy_into_def)
  have pg: "copy_into (replicate 512 0) [7, 8, 9] = ex_page"
    by (simp add: copy_into_def ex_page_def)
  have l: "length ex_page = 512" "ex_page \<noteq> []" by (simp_all add: ex_page_def)
  have w: "writeToBuffer ex_env (ex_conn\<lparr>vf_cache := [2 \<mapsto> replicate 512 0]\<rparr>) 2 ex_page = (None, ex_written)"
    using c l by (simp add: writeToBuffer_def ex_env_def ex_written_def write_at_def)
  have lk: "ve_lockPgno ex_env 512 = 2097153" by (simp add: ex_env_def)
  show ?thesis by (simp add: vfs_WriteAt_def pageSizeBytes_def c p r pg w lk Let_def)
qed

text \<open>Three bytes are written into the second page and synced to an empty replica.\<close>

theorem vfs_Sync_publishes_witness:
  "\<exists>f f' fs'. vfs_WriteAt ex_env ex_conn [7, 8, 9] 512 = ((3, None), f) \<and>
     vfs_Sync ex_env ex_client 0 f 5 (\<lambda>_. None) = (None, f', 6, fs') \<and>
     lpages (buffered_ltx ex_env 0 f) = [(2, ex_page)] \<and>
     file_content ex_pkg fs' 0 6 6 = Some [2, 7, 8, 9, 0] \<and> vf_dirty f' = [] \<and> vf_expectedTXID f' = 6"
proof -
  have "file_inv ex_conn" unfolding ex_conn_def by (rule conjunct1 [OF opened_inv]) simp
  then have i: "file_inv ex_written" using vfs_WriteAt_inv(1) [OF ex_written] by simp
  have c: "vf_writeEnabled ex_written" "\<not> vf_inTransaction ex_written" "vf_dirty ex_written \<noteq> []"
      "vf_pendingTXID ex_written = 6" "vf_pendingTXID ex_written \<noteq> 0"
    by (simp_all add: ex_written_def ex_conn_def opened_def)
  have pg: "buffered ex_written 2 = ex_page"
    by (simp add: buffered_def ex_written_def ex_conn_def opened_def sub_def ex_page_def)
  have lp: "lpages (buffered_ltx ex_env 0 ex_written) = [(2, ex_page)]"
    using pg by (simp add: buffered_ltx_def) (simp add: ex_written_def ex_conn_def opened_def ex_env_def)
  have "take 4 ex_page = [7, 8, 9, 0]" by (simp add: ex_page_def numeral_eq_Suc)
  then have rd: "ve_encode ex_env (buffered_ltx ex_env 0 ex_written) = ([2, 7, 8, 9, 0], None)"
    using lp by (simp add: ex_env_def buffered_ltx_def)
  have ok: "client_ok ex_pkg no_faults (\<lambda>_. None)" by (rule ex_client_ok) (simp add: fs_ok_def)
  have no: "\<not> remote_ahead (file_listing ex_pkg (\<lambda>_. None) 0) ex_written"
    by (simp add: remote_ahead_def file_listing_def)
  obtain e f' l' fs' where S: "vfs_Sync ex_env ex_client 0 ex_written 5 (\<lambda>_. None) = (e, f', l', fs')" "f' \<noteq> ex_written"
    "sync_done ex_written f'" "file_content ex_pkg fs' 0 6 6 = Some [2, 7, 8, 9, 0]" "l' = max 5 6" "e = None"
    using vfs_Sync_publishes [OF ok i c(1,2,3,5), of ex_env 9 "\<lambda>_ _ _ _ e. e" 0 5] no rd c(4)
    unfolding ex_client_def by (fastforce simp: Let_def ex_pkg_def ex_env_def)
  then show ?thesis using ex_written lp c(4) by (auto simp: sync_done_def max_def)
qed

end
