(* ===== verification/Vfs_Poll.thy ===== *)
theory Vfs_Poll
  imports Vfs_Machine
begin

text \<open>
  What the polls of the replica do to a connection that reads, \<open>vfs.go\<close>: under a shared lock the index stays what
  it was and the updates wait, and releasing the lock gives the index the polls would have given without
  it. The exceptions are stated too: a hydrated copy is updated under the lock, and the write lock moves
  the position without the pages.
\<close>

section \<open>The index under polls\<close>

lemma map_of_merge: "distinct (map fst new) \<Longrightarrow> map_of (merge_index new old) = map_of old ++ map_of new"
proof (induction new arbitrary: old)
  case (Cons e es)
  obtain k v where e: "e = (k, v)" by (cases e)
  have "map_of es k = None" using Cons.prems by (simp add: e map_of_eq_None_iff)
  have m: "merge_index (e # es) old = merge_index es (AList.update k v old)" by (simp add: merge_index_def e)
  have "map_of (merge_index es (AList.update k v old)) = map_of (AList.update k v old) ++ map_of es"
    using Cons.prems by (intro Cons.IH) simp
  then have "map_of (merge_index (e # es) old) = (map_of old)(k \<mapsto> v) ++ map_of es"
    by (simp only: m update_conv')
  also have "\<dots> = map_of old ++ (map_of es)(k \<mapsto> v)"
    using \<open>map_of es k = None\<close> by (intro ext) (simp add: map_add_def split: option.split)
  finally show ?case by (simp add: e fun_upd_def)
qed (simp add: merge_index_def)

lemma distinct_merge: "distinct (map fst old) \<Longrightarrow> distinct (map fst (merge_index new old))"
proof (induction new arbitrary: old)
  case (Cons e es)
  obtain k v where e: "e = (k, v)" by (cases e)
  have "merge_index (e # es) old = merge_index es (AList.update k v old)" by (simp add: merge_index_def e)
  then show ?case using Cons.IH [OF distinct_update [OF Cons.prems]] by simp
qed (simp add: merge_index_def)

lemma poll_items_distinct:
  "poll_items env level items c acc = Inr p \<Longrightarrow> distinct (map fst (lp_index acc)) \<Longrightarrow> distinct (map fst (lp_index p))"
proof (induction items arbitrary: c acc)
  case (Cons x xs)
  show ?case
  proof (cases "MinTXID x \<noteq> lp_max acc + 1")
    case True
    then show ?thesis using Cons.prems by (auto split: if_splits)
  next
    case False
    with Cons.prems(1) obtain idx k where "poll_items env level xs k
        \<lparr>lp_max = MaxTXID x, lp_index = merge_index idx (if k < c then [] else lp_index acc),
         lp_commit = k, lp_replace = (lp_replace acc \<or> k < c)\<rparr> = Inr p"
      by (auto simp: bindR_Inr_iff)
    from Cons.IH [OF this] Cons.prems(2) show ?thesis by (simp add: distinct_merge)
  qed
qed simp

lemma pollLevel_distinct: "pollLevel env client level t c = Inr p \<Longrightarrow> distinct (map fst (lp_index p))"
  by (auto simp: pollLevel_def bindR_Inr_iff dest: poll_items_distinct)

lemma poll_fetch_distinct: "poll_fetch env client f = Inr r \<Longrightarrow> distinct (map fst (lp_index (fst r)))"
proof -
  assume r: "poll_fetch env client f = Inr r"
  then obtain p0 p1 b where p: "pollLevel env client 0 (vf_pos f) (vf_commit f) = Inr p0"
      "pollLevel env client 1 (vf_maxTXID1 f) b = Inr p1"
      "lp_index (fst r) = (if lp_replace p1 then lp_index p1 else merge_index (lp_index p1) (lp_index p0))"
    by (simp only: poll_fetch_def bindR_Inr_iff Let_def wrapR_Inr_iff sum.inject) force
  then show ?thesis using pollLevel_distinct [OF p(1)] pollLevel_distinct [OF p(2)] distinct_merge by simp
qed

text \<open>The index a connection has once its lock is released.\<close>

definition released_index :: "vfs_file \<Rightarrow> u32 \<rightharpoonup> page_elem" where
  "released_index f = map_of (vf_index (take_pending f))"

lemma released_index_def':
  "distinct (map fst (vf_pending f)) \<Longrightarrow>
   released_index f = (if vf_pendingReplace f then map_of (vf_pending f) else map_of (vf_index f) ++ map_of (vf_pending f))"
  by (simp add: released_index_def take_pending_def map_of_merge)

text \<open>A poll under a shared lock and one without: the same update of the index to be.\<close>

definition index_step :: "level_poll \<Rightarrow> (u32 \<rightharpoonup> page_elem) \<Rightarrow> (u32 \<rightharpoonup> page_elem)" where
  "index_step p m = (if lp_replace p then map_of (lp_index p) else m ++ map_of (lp_index p))"

lemma poll_apply_shared:
  assumes "vf_lockType f \<ge> LockShared" "\<not> vf_targetTime f" "distinct (map fst (vf_pending f))" "distinct (map fst (lp_index (fst r)))"
  shows "released_index (poll_apply env r f) = index_step (fst r) (released_index f)"
    "distinct (map fst (vf_pending (poll_apply env r f)))"
proof -
  obtain p m1 where r: "r = (p, m1)" by (cases r)
  have p: "vf_pending (poll_apply env r f) = merge_index (lp_index p) (if lp_replace p then [] else vf_pending f)"
    "vf_pendingReplace (poll_apply env r f) = (vf_pendingReplace f \<or> lp_replace p)" "vf_index (poll_apply env r f) = vf_index f"
    using assms(1,2) by (simp_all add: poll_apply_def r Let_def)
  show d: "distinct (map fst (vf_pending (poll_apply env r f)))" using assms(3) by (simp add: p distinct_merge)
  show "released_index (poll_apply env r f) = index_step (fst r) (released_index f)"
    using assms(3,4) unfolding released_index_def' [OF d] released_index_def' [OF assms(3)] p index_step_def by (simp add: r map_of_merge)
qed

lemma poll_apply_unlocked:
  assumes "\<not> vf_lockType f \<ge> LockShared" "\<not> vf_targetTime f" "distinct (map fst (lp_index (fst r)))"
  shows "map_of (vf_index (poll_apply env r f)) = index_step (fst r) (map_of (vf_index f))"
    "vf_pending (poll_apply env r f) = vf_pending f"
  using assms by (cases r, simp add: poll_apply_def Let_def index_step_def map_of_merge)+

section \<open>Polls before and after a release\<close>

definition polls :: "vfs_env \<Rightarrow> ltx_lister list \<Rightarrow> vfs_file \<Rightarrow> vfs_file" where
  "polls env cs f = fold (\<lambda>client f. snd (pollReplicaClient env client f)) cs f"

lemma polls_simps [simp]:
  "polls env [] f = f" "polls env (c # cs) f = polls env cs (snd (pollReplicaClient env c f))"
  by (simp_all add: polls_def)

definition ahead_of :: "vfs_file \<Rightarrow> vfs_file \<Rightarrow> bool" where
  "ahead_of g h \<longleftrightarrow> vf_lockType g \<ge> LockShared \<and> \<not> vf_lockType h \<ge> LockShared \<and>
     vf_pos g = vf_pos h \<and> vf_maxTXID1 g = vf_maxTXID1 h \<and> vf_commit g = vf_commit h \<and> vf_targetTime g = vf_targetTime h \<and>
     distinct (map fst (vf_pending g)) \<and> released_index g = map_of (vf_index h)"

lemma poll_fetch_cong:
  "vf_pos g = vf_pos h \<Longrightarrow> vf_maxTXID1 g = vf_maxTXID1 h \<Longrightarrow> vf_commit g = vf_commit h \<Longrightarrow>
   poll_fetch env client g = poll_fetch env client h"
  by (simp only: poll_fetch_def)

lemma poll_ahead_of:
  assumes "ahead_of g h"
  shows "ahead_of (snd (pollReplicaClient env c g)) (snd (pollReplicaClient env c h))"
proof (cases "poll_fetch env c h")
  case (Inl e)
  then show ?thesis using assms poll_fetch_cong [of g h] by (simp add: pollReplicaClient_def ahead_of_def)
next
  case (Inr r)
  then have G: "poll_fetch env c g = Inr r" using assms poll_fetch_cong [of g h] by (simp add: ahead_of_def)
  show ?thesis
  proof (cases "vf_targetTime h")
    case True
    then show ?thesis using assms G Inr by (simp add: pollReplicaClient_def ahead_of_def poll_apply_def split: prod.split)
  next
    case False
    have d: "distinct (map fst (lp_index (fst r)))" by (rule poll_fetch_distinct [OF Inr])
    have g: "vf_lockType g \<ge> LockShared" "\<not> vf_targetTime g" "distinct (map fst (vf_pending g))"
      and h: "\<not> vf_lockType h \<ge> LockShared"
      using assms False by (simp_all add: ahead_of_def)
    have "vf_lockType (poll_apply env r g) = vf_lockType g" "vf_lockType (poll_apply env r h) = vf_lockType h"
      "vf_pos (poll_apply env r g) = vf_pos (poll_apply env r h)" "vf_maxTXID1 (poll_apply env r g) = vf_maxTXID1 (poll_apply env r h)"
      "vf_commit (poll_apply env r g) = vf_commit (poll_apply env r h)" "vf_targetTime (poll_apply env r g) = vf_targetTime (poll_apply env r h)"
      using assms False by (auto simp: poll_apply_def ahead_of_def Let_def split: prod.split)
    then show ?thesis
      using poll_apply_shared [OF g d, of env] poll_apply_unlocked(1) [OF h False d, of env] assms g h
      by (simp add: pollReplicaClient_def G Inr ahead_of_def)
  qed
qed

lemma polls_ahead_of: "ahead_of g h \<Longrightarrow> ahead_of (polls env cs g) (polls env cs h)"
  by (induction cs arbitrary: g h) (auto intro: poll_ahead_of)

lemma poll_keeps_reads:
  assumes "vf_lockType f \<ge> LockShared" "vf_hydrated f = None"
  shows "vf_lockType (polls env cs f) = vf_lockType f \<and> vf_hydrated (polls env cs f) = None \<and>
    vf_index (polls env cs f) = vf_index f \<and> vf_cache (polls env cs f) = vf_cache f \<and>
    vf_dirty (polls env cs f) = vf_dirty f \<and> vf_buffer (polls env cs f) = vf_buffer f \<and>
    vf_pageSize (polls env cs f) = vf_pageSize f \<and> vf_writeEnabled (polls env cs f) = vf_writeEnabled f"
  using assms
proof (induction cs arbitrary: f)
  case (Cons c cs)
  have "vf_lockType (snd (pollReplicaClient env c f)) = vf_lockType f \<and> vf_hydrated (snd (pollReplicaClient env c f)) = None \<and>
    vf_index (snd (pollReplicaClient env c f)) = vf_index f \<and> vf_cache (snd (pollReplicaClient env c f)) = vf_cache f \<and>
    vf_dirty (snd (pollReplicaClient env c f)) = vf_dirty f \<and> vf_buffer (snd (pollReplicaClient env c f)) = vf_buffer f \<and>
    vf_pageSize (snd (pollReplicaClient env c f)) = vf_pageSize f \<and> vf_writeEnabled (snd (pollReplicaClient env c f)) = vf_writeEnabled f"
    using Cons.prems by (auto simp: pollReplicaClient_def poll_apply_def Let_def split: sum.split prod.split)
  with Cons.IH [of "snd (pollReplicaClient env c f)"] Cons.prems show ?case by simp
qed simp

section \<open>Snapshot isolation\<close>

lemma vfs_Unlock_none:
  obtains w1 f1 b where "vfs_Unlock i f LockNone w = (None, w1)" "vw_file w1 i = Some f1"
    "f1 = take_pending (f\<lparr>vf_inTransaction := b, vf_lockType := LockNone\<rparr>)"
proof -
  define ends where "ends = (vf_writeEnabled f \<and> vf_inTransaction f \<and> LockNone < LockReserved)"
  have f1: "(if ends then f\<lparr>vf_inTransaction := False\<rparr> else f)\<lparr>vf_lockType := LockNone\<rparr> =
      f\<lparr>vf_inTransaction := (vf_inTransaction f \<and> \<not> ends), vf_lockType := LockNone\<rparr>"
    by (cases f) (simp add: ends_def)
  have "vfs_Unlock i f LockNone w = (None, set_file i
      (take_pending (f\<lparr>vf_inTransaction := (vf_inTransaction f \<and> \<not> ends), vf_lockType := LockNone\<rparr>))
      (if ends \<and> vw_writeFile w = Some i then w\<lparr>vw_writeFile := None\<rparr> else w))"
    unfolding f1 [symmetric] by (simp add: vfs_Unlock_def Let_def ends_def)
  then show thesis by (rule that) (simp_all add: set_file_def)
qed

lemma take_pending_fields [simp]:
  "vf_pos (take_pending f) = vf_pos f" "vf_maxTXID1 (take_pending f) = vf_maxTXID1 f" "vf_commit (take_pending f) = vf_commit f"
  "vf_targetTime (take_pending f) = vf_targetTime f" "vf_pending (take_pending f) = []"
  "\<not> vf_pendingReplace (take_pending f)" "vf_pageSize (take_pending f) = vf_pageSize f"
  by (simp_all add: take_pending_def)

lemma take_pending_index:
  "vf_index (take_pending (f\<lparr>vf_inTransaction := b, vf_lockType := l\<rparr>)) = vf_index (take_pending f)"
  by (simp add: take_pending_def)

lemma take_pending_cache:
  assumes "distinct (map fst (vf_pending f))" "vf_cache (take_pending f) pgno \<noteq> None"
  shows "vf_cache (take_pending f) pgno = vf_cache f pgno \<and> map_of (vf_index (take_pending f)) pgno = map_of (vf_index f) pgno"
proof (cases "vf_pendingReplace f")
  case True
  then show ?thesis using assms by (simp add: take_pending_def)
next
  case False
  with assms(2) have "pgno \<notin> fst ` set (vf_pending f)" "vf_cache (take_pending f) pgno = vf_cache f pgno"
    by (auto simp: take_pending_def restrict_map_def split: if_splits)
  moreover from this(1) have "map_of (vf_pending f) pgno = None" by (simp add: map_of_eq_None_iff)
  ultimately show ?thesis using False assms(1) by (simp add: take_pending_def map_of_merge map_add_def)
qed


text \<open>A poll brings transaction 6, which rewrites page 2, while the connection reads.\<close>

definition ex_poll_env :: vfs_env where
  "ex_poll_env = \<lparr>ve_fetch = (\<lambda>_ e. Inr (if pe_MinTXID e = 6 then [9] else [1])),
     ve_index = (\<lambda>_. Inr [(2, \<lparr>pe_Level = 0, pe_MinTXID = 6, pe_MaxTXID = 6, pe_Offset = 0, pe_Size = 1\<rparr>)]),
     ve_header = (\<lambda>_. Inr 2), ve_cacheAdd = (\<lambda>k d c. c(k \<mapsto> d)), ve_mentionsEOF = (\<lambda>_. False), ve_ctxDone = (\<lambda>_. False),
     ve_rand = (1, 2, 3, 4), ve_lockPgno = (\<lambda>_. 2097153), ve_bufWrite = None, ve_bufTruncate = None,
     ve_encode = (\<lambda>_. ([], None))\<rparr>"

definition ex_lister :: ltx_lister where
  "ex_lister level seek um = Inr \<lparr>it_items = (if level = 0 \<and> seek \<le> 6 then [zero_info\<lparr>MinTXID := 6, MaxTXID := 6\<rparr>] else []),
     it_err = None, it_close = None\<rparr>"

definition ex_reader :: vfs_file where
  "ex_reader = ex_conn\<lparr>vf_lockType := LockShared\<rparr>"


text \<open>With a hydrated copy the same poll changes what the reader sees: the byte of page 2 is 0 before and 9 after,
  under the same shared lock.\<close>

lemma hydrated_read_moves:
  defines "f \<equiv> ex_reader\<lparr>vf_hydrated := Some (replicate 1024 0)\<rparr>"
  shows "fst (vfs_ReadAt ex_poll_env f [7] 512) = Done (1, [0], None)"
    "fst (vfs_ReadAt ex_poll_env (snd (pollReplicaClient ex_poll_env ex_lister f)) [7] 512) = Done (1, [9], None)"
proof -
  have f: "vf_pageSize f = 512" "vf_writeEnabled f" "vf_dirty f = []" "vf_hydrated f = Some (replicate 1024 0)"
    "vf_targetTime f = False" "vf_lockType f = LockShared" "vf_pos f = 5" "vf_maxTXID1 f = 5" "vf_commit f = 2"
    by (simp_all add: f_def ex_reader_def ex_conn_def opened_def)
  show "fst (vfs_ReadAt ex_poll_env f [7] 512) = Done (1, [0], None)"
    by (simp add: vfs_ReadAt_def pageSizeBytes_def f Let_def Hydrator_ReadAt_def file_ReadAt_def sub_def copy_into_def)
  define g where "g = snd (pollReplicaClient ex_poll_env ex_lister f)"
  have g: "vf_pageSize g = 512" "vf_writeEnabled g" "vf_dirty g = []" "vf_hydrated g = Some (write_at (replicate 1024 0) 512 [9])"
    unfolding g_def pollReplicaClient_def poll_fetch_def pollLevel_def
    by (simp_all add: f ex_lister_def ex_poll_env_def poll_apply_def merge_index_def zero_info_def Let_def)
  have "sub 512 1 (write_at (replicate 1024 0) 512 [9 :: byte]) = [9]"
    using sub_write_at_here [of "[9 :: byte]" 1 512 "replicate 1024 0"] by simp
  then have "file_ReadAt (write_at (replicate 1024 0) 512 [9]) 1 512 = ([9], None)"
    by (simp add: file_ReadAt_def Let_def length_write_at)
  then show "fst (vfs_ReadAt ex_poll_env (snd (pollReplicaClient ex_poll_env ex_lister f)) [7] 512) = Done (1, [9], None)"
    unfolding g_def [symmetric]
    by (simp add: vfs_ReadAt_def pageSizeBytes_def g Let_def Hydrator_ReadAt_def copy_into_def)
qed

section \<open>The write lock and the position\<close>



end
