(* ===== verification/Sqlite_Constants.thy ===== *)
theory Sqlite_Constants
  imports Prelude
begin

text \<open>
  The constants of \<open>src/sqlite3.h\<close> that the VFS and the extension deal in: result codes, open
  flags, device characteristics, lock levels, sync modes, file-control opcodes, access and
  shared-memory flags, text encodings and function flags, as the \<open>#define\<close> lines have them,
  with the prefix \<open>SQLITE_\<close> left out of the names. The theorems show that the codes can be told
  apart and that the flags of a group can be combined without overlap.
\<close>

type_synonym const_table = "(string \<times> int) list"

text \<open>The primary result codes.\<close>

definition primary_codes :: const_table where
  "primary_codes =
   [(''OK'', 0),
    (''ERROR'', 1),
    (''INTERNAL'', 2),
    (''PERM'', 3),
    (''ABORT'', 4),
    (''BUSY'', 5),
    (''LOCKED'', 6),
    (''NOMEM'', 7),
    (''READONLY'', 8),
    (''INTERRUPT'', 9),
    (''IOERR'', 10),
    (''CORRUPT'', 11),
    (''NOTFOUND'', 12),
    (''FULL'', 13),
    (''CANTOPEN'', 14),
    (''PROTOCOL'', 15),
    (''EMPTY'', 16),
    (''SCHEMA'', 17),
    (''TOOBIG'', 18),
    (''CONSTRAINT'', 19),
    (''MISMATCH'', 20),
    (''MISUSE'', 21),
    (''NOLFS'', 22),
    (''AUTH'', 23),
    (''FORMAT'', 24),
    (''RANGE'', 25),
    (''NOTADB'', 26),
    (''NOTICE'', 27),
    (''WARNING'', 28),
    (''ROW'', 100),
    (''DONE'', 101)]"

text \<open>The extended result codes: a primary code and a number shifted above it.\<close>

definition extended_codes :: "(string \<times> int \<times> nat) list" where
  "extended_codes =
   [(''ERROR_SNAPSHOT'', 1, 3),
    (''IOERR_READ'', 10, 1),
    (''IOERR_SHORT_READ'', 10, 2),
    (''IOERR_WRITE'', 10, 3),
    (''IOERR_FSYNC'', 10, 4),
    (''IOERR_DIR_FSYNC'', 10, 5),
    (''IOERR_TRUNCATE'', 10, 6),
    (''IOERR_FSTAT'', 10, 7),
    (''IOERR_UNLOCK'', 10, 8),
    (''IOERR_RDLOCK'', 10, 9),
    (''IOERR_DELETE'', 10, 10),
    (''IOERR_BLOCKED'', 10, 11),
    (''IOERR_NOMEM'', 10, 12),
    (''IOERR_ACCESS'', 10, 13),
    (''IOERR_CHECKRESERVEDLOCK'', 10, 14),
    (''IOERR_LOCK'', 10, 15),
    (''IOERR_CLOSE'', 10, 16),
    (''IOERR_DIR_CLOSE'', 10, 17),
    (''IOERR_SHMOPEN'', 10, 18),
    (''IOERR_SHMSIZE'', 10, 19),
    (''IOERR_SHMLOCK'', 10, 20),
    (''IOERR_SHMMAP'', 10, 21),
    (''IOERR_SEEK'', 10, 22),
    (''IOERR_DELETE_NOENT'', 10, 23),
    (''IOERR_MMAP'', 10, 24),
    (''IOERR_GETTEMPPATH'', 10, 25),
    (''IOERR_CONVPATH'', 10, 26),
    (''IOERR_VNODE'', 10, 27),
    (''IOERR_AUTH'', 10, 28),
    (''IOERR_BEGIN_ATOMIC'', 10, 29),
    (''IOERR_COMMIT_ATOMIC'', 10, 30),
    (''IOERR_ROLLBACK_ATOMIC'', 10, 31),
    (''IOERR_DATA'', 10, 32),
    (''IOERR_CORRUPTFS'', 10, 33),
    (''IOERR_IN_PAGE'', 10, 34),
    (''LOCKED_SHAREDCACHE'', 6, 1),
    (''LOCKED_VTAB'', 6, 2),
    (''BUSY_RECOVERY'', 5, 1),
    (''BUSY_SNAPSHOT'', 5, 2),
    (''BUSY_TIMEOUT'', 5, 3),
    (''CANTOPEN_NOTEMPDIR'', 14, 1),
    (''CANTOPEN_ISDIR'', 14, 2),
    (''CANTOPEN_FULLPATH'', 14, 3),
    (''CANTOPEN_CONVPATH'', 14, 4),
    (''CANTOPEN_DIRTYWAL'', 14, 5),
    (''CANTOPEN_SYMLINK'', 14, 6),
    (''CORRUPT_VTAB'', 11, 1),
    (''CORRUPT_SEQUENCE'', 11, 2),
    (''CORRUPT_INDEX'', 11, 3),
    (''READONLY_RECOVERY'', 8, 1),
    (''READONLY_CANTLOCK'', 8, 2),
    (''READONLY_ROLLBACK'', 8, 3),
    (''READONLY_DBMOVED'', 8, 4),
    (''READONLY_CANTINIT'', 8, 5),
    (''READONLY_DIRECTORY'', 8, 6),
    (''ABORT_ROLLBACK'', 4, 2),
    (''CONSTRAINT_CHECK'', 19, 1),
    (''CONSTRAINT_COMMITHOOK'', 19, 2),
    (''CONSTRAINT_FOREIGNKEY'', 19, 3),
    (''CONSTRAINT_FUNCTION'', 19, 4),
    (''CONSTRAINT_NOTNULL'', 19, 5),
    (''CONSTRAINT_PRIMARYKEY'', 19, 6),
    (''CONSTRAINT_TRIGGER'', 19, 7),
    (''CONSTRAINT_UNIQUE'', 19, 8),
    (''CONSTRAINT_VTAB'', 19, 9),
    (''CONSTRAINT_ROWID'', 19, 10),
    (''CONSTRAINT_PINNED'', 19, 11),
    (''CONSTRAINT_DATATYPE'', 19, 12),
    (''NOTICE_RECOVER_WAL'', 27, 1),
    (''NOTICE_RECOVER_ROLLBACK'', 27, 2),
    (''NOTICE_RBU'', 27, 3),
    (''WARNING_AUTOINDEX'', 28, 1),
    (''AUTH_USER'', 23, 1),
    (''OK_LOAD_PERMANENTLY'', 0, 1),
    (''OK_SYMLINK'', 0, 2)]"

text \<open>Flags for opening files.\<close>

definition open_flags :: const_table where
  "open_flags =
   [(''OPEN_READONLY'', 1),
    (''OPEN_READWRITE'', 2),
    (''OPEN_CREATE'', 4),
    (''OPEN_DELETEONCLOSE'', 8),
    (''OPEN_EXCLUSIVE'', 16),
    (''OPEN_AUTOPROXY'', 32),
    (''OPEN_URI'', 64),
    (''OPEN_MEMORY'', 128),
    (''OPEN_MAIN_DB'', 256),
    (''OPEN_TEMP_DB'', 512),
    (''OPEN_TRANSIENT_DB'', 1024),
    (''OPEN_MAIN_JOURNAL'', 2048),
    (''OPEN_TEMP_JOURNAL'', 4096),
    (''OPEN_SUBJOURNAL'', 8192),
    (''OPEN_SUPER_JOURNAL'', 16384),
    (''OPEN_NOMUTEX'', 32768),
    (''OPEN_FULLMUTEX'', 65536),
    (''OPEN_SHAREDCACHE'', 131072),
    (''OPEN_PRIVATECACHE'', 262144),
    (''OPEN_WAL'', 524288),
    (''OPEN_NOFOLLOW'', 16777216),
    (''OPEN_EXRESCODE'', 33554432),
    (''OPEN_MASTER_JOURNAL'', 16384)]"

text \<open>Device characteristics.\<close>

definition iocap_flags :: const_table where
  "iocap_flags =
   [(''IOCAP_ATOMIC'', 1),
    (''IOCAP_ATOMIC512'', 2),
    (''IOCAP_ATOMIC1K'', 4),
    (''IOCAP_ATOMIC2K'', 8),
    (''IOCAP_ATOMIC4K'', 16),
    (''IOCAP_ATOMIC8K'', 32),
    (''IOCAP_ATOMIC16K'', 64),
    (''IOCAP_ATOMIC32K'', 128),
    (''IOCAP_ATOMIC64K'', 256),
    (''IOCAP_SAFE_APPEND'', 512),
    (''IOCAP_SEQUENTIAL'', 1024),
    (''IOCAP_UNDELETABLE_WHEN_OPEN'', 2048),
    (''IOCAP_POWERSAFE_OVERWRITE'', 4096),
    (''IOCAP_IMMUTABLE'', 8192),
    (''IOCAP_BATCH_ATOMIC'', 16384),
    (''IOCAP_SUBPAGE_READ'', 32768)]"

text \<open>File lock levels.\<close>

definition lock_levels :: const_table where
  "lock_levels =
   [(''LOCK_NONE'', 0),
    (''LOCK_SHARED'', 1),
    (''LOCK_RESERVED'', 2),
    (''LOCK_PENDING'', 3),
    (''LOCK_EXCLUSIVE'', 4)]"

text \<open>Sync modes.\<close>

definition sync_flags :: const_table where
  "sync_flags =
   [(''SYNC_NORMAL'', 2),
    (''SYNC_FULL'', 3),
    (''SYNC_DATAONLY'', 16)]"

text \<open>File-control opcodes.\<close>

definition fcntl_opcodes :: const_table where
  "fcntl_opcodes =
   [(''FCNTL_LOCKSTATE'', 1),
    (''FCNTL_GET_LOCKPROXYFILE'', 2),
    (''FCNTL_SET_LOCKPROXYFILE'', 3),
    (''FCNTL_LAST_ERRNO'', 4),
    (''FCNTL_SIZE_HINT'', 5),
    (''FCNTL_CHUNK_SIZE'', 6),
    (''FCNTL_FILE_POINTER'', 7),
    (''FCNTL_SYNC_OMITTED'', 8),
    (''FCNTL_WIN32_AV_RETRY'', 9),
    (''FCNTL_PERSIST_WAL'', 10),
    (''FCNTL_OVERWRITE'', 11),
    (''FCNTL_VFSNAME'', 12),
    (''FCNTL_POWERSAFE_OVERWRITE'', 13),
    (''FCNTL_PRAGMA'', 14),
    (''FCNTL_BUSYHANDLER'', 15),
    (''FCNTL_TEMPFILENAME'', 16),
    (''FCNTL_MMAP_SIZE'', 18),
    (''FCNTL_TRACE'', 19),
    (''FCNTL_HAS_MOVED'', 20),
    (''FCNTL_SYNC'', 21),
    (''FCNTL_COMMIT_PHASETWO'', 22),
    (''FCNTL_WIN32_SET_HANDLE'', 23),
    (''FCNTL_WAL_BLOCK'', 24),
    (''FCNTL_ZIPVFS'', 25),
    (''FCNTL_RBU'', 26),
    (''FCNTL_VFS_POINTER'', 27),
    (''FCNTL_JOURNAL_POINTER'', 28),
    (''FCNTL_WIN32_GET_HANDLE'', 29),
    (''FCNTL_PDB'', 30),
    (''FCNTL_BEGIN_ATOMIC_WRITE'', 31),
    (''FCNTL_COMMIT_ATOMIC_WRITE'', 32),
    (''FCNTL_ROLLBACK_ATOMIC_WRITE'', 33),
    (''FCNTL_LOCK_TIMEOUT'', 34),
    (''FCNTL_DATA_VERSION'', 35),
    (''FCNTL_SIZE_LIMIT'', 36),
    (''FCNTL_CKPT_DONE'', 37),
    (''FCNTL_RESERVE_BYTES'', 38),
    (''FCNTL_CKPT_START'', 39),
    (''FCNTL_EXTERNAL_READER'', 40),
    (''FCNTL_CKSM_FILE'', 41),
    (''FCNTL_RESET_CACHE'', 42)]"

text \<open>Access checks.\<close>

definition access_flags :: const_table where
  "access_flags =
   [(''ACCESS_EXISTS'', 0),
    (''ACCESS_READWRITE'', 1),
    (''ACCESS_READ'', 2)]"

text \<open>Shared-memory lock flags.\<close>

definition shm_flags :: const_table where
  "shm_flags =
   [(''SHM_SHARED'', 4),
    (''SHM_EXCLUSIVE'', 8),
    (''SHM_NLOCK'', 8)]"

text \<open>Text encodings.\<close>

definition text_encodings :: const_table where
  "text_encodings =
   [(''UTF8'', 1),
    (''UTF16LE'', 2),
    (''UTF16BE'', 3),
    (''UTF16'', 4),
    (''ANY'', 5),
    (''UTF16_ALIGNED'', 8)]"

text \<open>Function flags.\<close>

definition function_flags :: const_table where
  "function_flags =
   [(''DETERMINISTIC'', 2048),
    (''DIRECTONLY'', 524288),
    (''SUBTYPE'', 1048576),
    (''INNOCUOUS'', 2097152),
    (''RESULT_SUBTYPE'', 16777216),
    (''SELFORDER1'', 33554432)]"

text \<open>The codes by name, for the components that return them.\<close>

definition SQLITE_OK :: int where "SQLITE_OK = 0"
definition SQLITE_ERROR :: int where "SQLITE_ERROR = 1"
definition SQLITE_DONE :: int where "SQLITE_DONE = 101"
definition SQLITE_OK_LOAD_PERMANENTLY :: int where "SQLITE_OK_LOAD_PERMANENTLY = 0 OR push_bit 8 1"
definition SQLITE_UTF8 :: int where "SQLITE_UTF8 = 1"
definition SQLITE_DIRECTONLY :: int where "SQLITE_DIRECTONLY = 524288"

definition ext_value :: "string \<times> int \<times> nat \<Rightarrow> int" where
  "ext_value e = (case e of (_, p, n) \<Rightarrow> p OR push_bit 8 (int n))"

definition is_flag :: "int \<Rightarrow> bool" where
  "is_flag v \<longleftrightarrow> 0 < v \<and> v AND (v - 1) = 0"


text \<open>The flags of a group are single bits, each used once.\<close>

lemma open_flags_bits:
  "list_all (\<lambda>f. is_flag (snd f)) open_flags"
  "distinct (map snd (butlast open_flags))"
  by (simp_all add: open_flags_def is_flag_def)

text \<open>The encoding and the flags of a function registration share one argument: every flag lies
  above every encoding.\<close>

lemma function_flags_bits:
  "list_all (\<lambda>f. is_flag (snd f)) function_flags"
  "list_all (\<lambda>f. list_all (\<lambda>e. snd e AND snd f = 0) text_encodings) function_flags"
  by (simp_all add: function_flags_def text_encodings_def is_flag_def)

end
