(* ===== verification/Vfs_Connections.thy ===== *)
theory Vfs_Connections
  imports Sqlite_Constants
begin

text \<open>
  The SQL-function side of the VFS: the connection registry of \<open>vfs.go\<close>, the functions that
  \<open>cmd/litestream-vfs/main.go\<close> exports to C, and the extension itself,
  \<open>src/litestream-vfs.c\<close>.

  The state is the record \<open>shim\<close>: the map from connection handles to file ids
  (\<open>vfsConnectionMap\<close>), the VFS's map of open files, the C heap the exported functions allocate
  their strings on, the SQL functions registered per connection, and the registered VFS. A
  \<open>char *\<close> is an address or NULL; reading or freeing an address that is not live sets
  \<open>heap_fault\<close>. What a \<open>VFSFile\<close> does on the calls of these functions is the
  parameter \<open>file_ops\<close>; the SQLite library, the environment, time parsing and error texts are
  parameters too. The theorems show that every entry point frees exactly the strings it was
  handed, and what each SQL function does on every branch.
\<close>

section \<open>State\<close>

record 'f file_ops =
  SetTargetTime :: "'f \<Rightarrow> go_time \<Rightarrow> go_error option \<times> 'f"
  ResetTime :: "'f \<Rightarrow> go_error option \<times> 'f"
  currentTimeString :: "'f \<Rightarrow> string"
  TXIDString :: "'f \<Rightarrow> string"
  LastPollSuccess :: "'f \<Rightarrow> go_time"

record vfs_config =
  PollInterval :: int
  CacheSize :: int
  WriteEnabled :: bool
  WriteSyncInterval :: int
  WriteBufferPath :: string
  HydrationEnabled :: bool
  HydrationPath :: string

type_synonym dbptr = u64
type_synonym c_ptr = "nat option"

record 'f shim =
  connMap :: "dbptr \<rightharpoonup> u64"
  fileMap :: "u64 \<rightharpoonup> 'f"
  cheap :: "nat \<rightharpoonup> string"
  cheap_next :: nat
  heap_fault :: bool
  sqlfuns :: "dbptr \<Rightarrow> string set"
  registeredVFS :: "vfs_config option"

definition C_CString :: "string \<Rightarrow> 'f shim \<Rightarrow> c_ptr \<times> 'f shim" where
  "C_CString s w =
     (Some (cheap_next w),
      w\<lparr>cheap := (cheap w)(cheap_next w \<mapsto> s), cheap_next := Suc (cheap_next w)\<rparr>)"

definition c_free :: "c_ptr \<Rightarrow> 'f shim \<Rightarrow> 'f shim" where
  "c_free p w =
     (case p of
        None \<Rightarrow> w
      | Some a \<Rightarrow> if cheap w a = None then w\<lparr>heap_fault := True\<rparr>
                  else w\<lparr>cheap := (cheap w)(a := None)\<rparr>)"

definition c_string :: "c_ptr \<Rightarrow> 'f shim \<Rightarrow> string option" where
  "c_string p w = (case p of None \<Rightarrow> None | Some a \<Rightarrow> cheap w a)"

section \<open>Connection registry\<close>

definition lookupVFSFile :: "u64 \<Rightarrow> 'f shim \<Rightarrow> 'f option" where
  "lookupVFSFile fileID w = fileMap w fileID"

definition RegisterVFSConnection :: "dbptr \<Rightarrow> u64 \<Rightarrow> 'f shim \<Rightarrow> go_error option \<times> 'f shim" where
  "RegisterVFSConnection db fileID w =
     (case lookupVFSFile fileID w of
        None \<Rightarrow> (Some (Errorf ''vfs file not found''), w)
      | Some _ \<Rightarrow> (None, w\<lparr>connMap := (connMap w)(db \<mapsto> fileID)\<rparr>))"

definition UnregisterVFSConnection :: "dbptr \<Rightarrow> 'f shim \<Rightarrow> 'f shim" where
  "UnregisterVFSConnection db w = w\<lparr>connMap := (connMap w)(db := None)\<rparr>"

definition vfsFileForConnection :: "dbptr \<Rightarrow> 'f shim \<Rightarrow> go_error + u64 \<times> 'f" where
  "vfsFileForConnection db w =
     (case connMap w db of
        None \<Rightarrow> Inl (Errorf ''connection not registered'')
      | Some fileID \<Rightarrow>
          (case lookupVFSFile fileID w of
             None \<Rightarrow> Inl (Errorf ''vfs file not found'')
           | Some f \<Rightarrow> Inr (fileID, f)))"

definition store_file :: "u64 \<Rightarrow> 'f \<Rightarrow> 'f shim \<Rightarrow> 'f shim" where
  "store_file fileID f w = w\<lparr>fileMap := (fileMap w)(fileID \<mapsto> f)\<rparr>"

definition SetVFSConnectionTime ::
  "'f file_ops \<Rightarrow> (string \<Rightarrow> go_error + go_time) \<Rightarrow> dbptr \<Rightarrow> string \<Rightarrow> 'f shim \<Rightarrow>
     go_error option \<times> 'f shim" where
  "SetVFSConnectionTime ops parseTimeValue db timestamp w =
     (case vfsFileForConnection db w of
        Inl e \<Rightarrow> (Some e, w)
      | Inr (fileID, f) \<Rightarrow>
          (case parseTimeValue timestamp of
             Inl e \<Rightarrow> (Some e, w)
           | Inr t \<Rightarrow> (case SetTargetTime ops f t of (err, f') \<Rightarrow> (err, store_file fileID f' w))))"

definition ResetVFSConnectionTime :: "'f file_ops \<Rightarrow> dbptr \<Rightarrow> 'f shim \<Rightarrow> go_error option \<times> 'f shim" where
  "ResetVFSConnectionTime ops db w =
     (case vfsFileForConnection db w of
        Inl e \<Rightarrow> (Some e, w)
      | Inr (fileID, f) \<Rightarrow> (case ResetTime ops f of (err, f') \<Rightarrow> (err, store_file fileID f' w)))"

definition GetVFSConnectionTime :: "'f file_ops \<Rightarrow> dbptr \<Rightarrow> 'f shim \<Rightarrow> go_error + string" where
  "GetVFSConnectionTime ops db w =
     bindR (vfsFileForConnection db w) (\<lambda>(_, f). Inr (currentTimeString ops f))"

definition GetVFSConnectionTXID :: "'f file_ops \<Rightarrow> dbptr \<Rightarrow> 'f shim \<Rightarrow> go_error + string" where
  "GetVFSConnectionTXID ops db w =
     bindR (vfsFileForConnection db w) (\<lambda>(_, f). Inr (TXIDString ops f))"

text \<open>Whole seconds since the last poll, rounded towards zero, or -1 before the first.\<close>

definition GetVFSConnectionLag :: "'f file_ops \<Rightarrow> go_time \<Rightarrow> dbptr \<Rightarrow> 'f shim \<Rightarrow> go_error + int" where
  "GetVFSConnectionLag ops now db w =
     bindR (vfsFileForConnection db w) (\<lambda>(_, f).
       let lastPoll = LastPollSuccess ops f
       in if time_IsZero lastPoll then Inr (-1)
          else Inr (sgn (now - lastPoll) * (\<bar>now - lastPoll\<bar> div 1000000000)))"

section \<open>Functions exported to C\<close>

text \<open>\<open>errstr\<close> is the error's \<open>Error()\<close> text.\<close>

definition c_error :: "(go_error \<Rightarrow> string) \<Rightarrow> go_error option \<Rightarrow> 'f shim \<Rightarrow> c_ptr \<times> 'f shim" where
  "c_error errstr err w = (case err of None \<Rightarrow> (None, w) | Some e \<Rightarrow> C_CString (errstr e) w)"

definition GoLitestreamRegisterConnection ::
  "(go_error \<Rightarrow> string) \<Rightarrow> dbptr \<Rightarrow> u64 \<Rightarrow> 'f shim \<Rightarrow> c_ptr \<times> 'f shim" where
  "GoLitestreamRegisterConnection errstr db fileID w =
     (case RegisterVFSConnection db fileID w of (err, w') \<Rightarrow> c_error errstr err w')"

definition GoLitestreamUnregisterConnection :: "dbptr \<Rightarrow> 'f shim \<Rightarrow> c_ptr \<times> 'f shim" where
  "GoLitestreamUnregisterConnection db w = (None, UnregisterVFSConnection db w)"

definition GoLitestreamSetTime ::
  "'f file_ops \<Rightarrow> (string \<Rightarrow> go_error + go_time) \<Rightarrow> (go_error \<Rightarrow> string) \<Rightarrow> dbptr \<Rightarrow>
     string option \<Rightarrow> 'f shim \<Rightarrow> c_ptr \<times> 'f shim" where
  "GoLitestreamSetTime ops parseTimeValue errstr db timestamp w =
     (case timestamp of
        None \<Rightarrow> C_CString ''timestamp required'' w
      | Some ts \<Rightarrow>
          (case SetVFSConnectionTime ops parseTimeValue db ts w of (err, w') \<Rightarrow> c_error errstr err w'))"

definition GoLitestreamResetTime ::
  "'f file_ops \<Rightarrow> (go_error \<Rightarrow> string) \<Rightarrow> dbptr \<Rightarrow> 'f shim \<Rightarrow> c_ptr \<times> 'f shim" where
  "GoLitestreamResetTime ops errstr db w =
     (case ResetVFSConnectionTime ops db w of (err, w') \<Rightarrow> c_error errstr err w')"

text \<open>Functions with a \<open>char **out\<close>: the second component is what \<open>out\<close> receives, if
  anything.\<close>

definition GoLitestreamTime ::
  "'f file_ops \<Rightarrow> (go_error \<Rightarrow> string) \<Rightarrow> dbptr \<Rightarrow> 'f shim \<Rightarrow> c_ptr \<times> c_ptr \<times> 'f shim" where
  "GoLitestreamTime ops errstr db w =
     (case GetVFSConnectionTime ops db w of
        Inl e \<Rightarrow> (case C_CString (errstr e) w of (p, w') \<Rightarrow> (p, None, w'))
      | Inr value \<Rightarrow> (case C_CString value w of (p, w') \<Rightarrow> (None, p, w')))"

definition GoLitestreamTxid ::
  "'f file_ops \<Rightarrow> (go_error \<Rightarrow> string) \<Rightarrow> dbptr \<Rightarrow> 'f shim \<Rightarrow> c_ptr \<times> c_ptr \<times> 'f shim" where
  "GoLitestreamTxid ops errstr db w =
     (case GetVFSConnectionTXID ops db w of
        Inl e \<Rightarrow> (case C_CString (errstr e) w of (p, w') \<Rightarrow> (p, None, w'))
      | Inr value \<Rightarrow> (case C_CString value w of (p, w') \<Rightarrow> (None, p, w')))"

definition GoLitestreamLag ::
  "'f file_ops \<Rightarrow> go_time \<Rightarrow> (go_error \<Rightarrow> string) \<Rightarrow> dbptr \<Rightarrow> 'f shim \<Rightarrow>
     c_ptr \<times> int option \<times> 'f shim" where
  "GoLitestreamLag ops now errstr db w =
     (case GetVFSConnectionLag ops now db w of
        Inl e \<Rightarrow> (case C_CString (errstr e) w of (p, w') \<Rightarrow> (p, None, w'))
      | Inr value \<Rightarrow> (None, Some value, w))"

text \<open>
  \<open>LitestreamVFSRegister\<close> reads its configuration from the environment. Outside the program are
  the environment, the replica-client factory, the client's initialisation, opening the log file,
  \<open>time.ParseDuration\<close> and the registration of the VFS with SQLite.
\<close>

record 'c vfs_env =
  getenv :: "string \<Rightarrow> string"
  newReplicaClient :: "string \<Rightarrow> go_error + 'c"
  clientInit :: "'c \<Rightarrow> go_error option"
  openLogFile :: "string \<Rightarrow> go_error option"
  parseDuration :: "string \<Rightarrow> go_error + int"
  registerVFS :: "vfs_config \<Rightarrow> go_error option"

definition ascii_lower :: "char \<Rightarrow> char" where
  "ascii_lower c =
     (let n = of_char c :: nat in if 65 \<le> n \<and> n \<le> 90 then char_of (n + 32) else c)"

definition to_lower :: "string \<Rightarrow> string" where
  "to_lower s = map ascii_lower s"

definition NewVFS :: vfs_config where
  "NewVFS = \<lparr>PollInterval = 1000000000, CacheSize = 10 * 1024 * 1024, WriteEnabled = False,
     WriteSyncInterval = 0, WriteBufferPath = '''', HydrationEnabled = False, HydrationPath = ''''\<rparr>"

definition configure_write :: "'c vfs_env \<Rightarrow> vfs_config \<Rightarrow> go_error + vfs_config" where
  "configure_write env cfg =
     (if to_lower (getenv env ''LITESTREAM_WRITE_ENABLED'') = ''true''
      then let cfg1 = cfg\<lparr>WriteEnabled := True\<rparr>;
               s = getenv env ''LITESTREAM_SYNC_INTERVAL'';
               b = getenv env ''LITESTREAM_BUFFER_PATH''
           in bindR (if s \<noteq> '''' then bindR (parseDuration env s) (\<lambda>d. Inr (cfg1\<lparr>WriteSyncInterval := d\<rparr>))
                     else Inr cfg1)
                (\<lambda>cfg2. Inr (if b \<noteq> '''' then cfg2\<lparr>WriteBufferPath := b\<rparr> else cfg2))
      else Inr cfg)"

definition configure_hydration :: "'c vfs_env \<Rightarrow> vfs_config \<Rightarrow> vfs_config" where
  "configure_hydration env cfg =
     (if to_lower (getenv env ''LITESTREAM_HYDRATION_ENABLED'') = ''true''
      then let cfg1 = cfg\<lparr>HydrationEnabled := True\<rparr>;
               p = getenv env ''LITESTREAM_HYDRATION_PATH''
           in (if p \<noteq> '''' then cfg1\<lparr>HydrationPath := p\<rparr> else cfg1)
      else cfg)"

definition LitestreamVFSRegister ::
  "'c vfs_env \<Rightarrow> (go_error \<Rightarrow> string) \<Rightarrow> 'f shim \<Rightarrow> c_ptr \<times> 'f shim" where
  "LitestreamVFSRegister env errstr w =
     (let replicaURL = getenv env ''LITESTREAM_REPLICA_URL'' in
      if replicaURL = ''''
      then C_CString ''LITESTREAM_REPLICA_URL environment variable required'' w
      else (case newReplicaClient env replicaURL of
        Inl e \<Rightarrow> C_CString (''failed to create replica client: '' @ errstr e) w
      | Inr client \<Rightarrow>
      (case clientInit env client of
        Some e \<Rightarrow> C_CString (''failed to initialize replica client: '' @ errstr e) w
      | None \<Rightarrow>
      (let logFile = getenv env ''LITESTREAM_LOG_FILE'' in
       (case (if logFile \<noteq> '''' then openLogFile env logFile else None) of
         Some e \<Rightarrow> C_CString (''failed to open log file: '' @ errstr e) w
       | None \<Rightarrow>
       (case configure_write env NewVFS of
          Inl e \<Rightarrow> C_CString (''invalid LITESTREAM_SYNC_INTERVAL: '' @ errstr e) w
        | Inr cfg1 \<Rightarrow>
          (let cfg = configure_hydration env cfg1
           in (case registerVFS env cfg of
                Some e \<Rightarrow> C_CString (''failed to register VFS: '' @ errstr e) w
              | None \<Rightarrow> (None, w\<lparr>registeredVFS := Some cfg\<rparr>)))))))))"

section \<open>Lemmas\<close>

text \<open>The heap is sound when nothing has been misused and fresh addresses are unused.\<close>

definition heap_ok :: "'f shim \<Rightarrow> bool" where
  "heap_ok w \<longleftrightarrow> \<not> heap_fault w \<and> (\<forall>a \<ge> cheap_next w. cheap w a = None)"

text \<open>\<open>hands_over\<close> is what the exported functions promise the C side: the returned string, if
  any, is the only new live string, and its text can be read.\<close>

definition hands_over :: "'f shim \<Rightarrow> c_ptr \<Rightarrow> 'f shim \<Rightarrow> bool" where
  "hands_over w p w' \<longleftrightarrow> heap_ok w' \<and>
     (case p of
        None \<Rightarrow> cheap w' = cheap w
      | Some a \<Rightarrow> cheap w a = None \<and> (\<exists>s. cheap w' = (cheap w)(a \<mapsto> s)))"

lemma C_CString_hands_over:
  "heap_ok w \<Longrightarrow> C_CString s w = (p, w') \<Longrightarrow>
   hands_over w p w' \<and> p \<noteq> None \<and> c_string p w' = Some s"
  unfolding C_CString_def hands_over_def heap_ok_def c_string_def
  by (clarsimp, rule exI [of _ s]) simp

lemma c_free_handed_over:
  assumes "hands_over w p w'"
  shows "cheap (c_free p w') = cheap w \<and> heap_ok (c_free p w')"
proof (cases p)
  case None
  then show ?thesis using assms by (simp add: hands_over_def c_free_def)
next
  case (Some a)
  then obtain s where s: "cheap w' = (cheap w)(a \<mapsto> s)" "cheap w a = None" "heap_ok w'"
    using assms by (auto simp: hands_over_def)
  then have "(cheap w')(a := None) = cheap w" by (auto simp: fun_eq_iff)
  moreover have "\<forall>b \<ge> cheap_next w'. cheap w b = None"
    using s by (metis fun_upd_apply heap_ok_def option.distinct(1))
  ultimately show ?thesis
    using s Some by (auto simp: c_free_def heap_ok_def)
qed

lemma heap_ok_update [simp]:
  "heap_ok (w\<lparr>connMap := m\<rparr>) = heap_ok w"
  "heap_ok (store_file i f w) = heap_ok w"
  by (simp_all add: heap_ok_def store_file_def)

lemma cheap_store_file [simp]:
  "cheap (store_file i f w) = cheap w"
  "connMap (store_file i f w) = connMap w"
  "sqlfuns (store_file i f w) = sqlfuns w"
  by (simp_all add: store_file_def)

lemma hands_over_None: "heap_ok w' \<Longrightarrow> cheap w' = cheap w \<Longrightarrow> hands_over w None w'"
  by (simp add: hands_over_def)

lemma c_error_hands_over:
  assumes "heap_ok w" "heap_ok w1" "cheap w1 = cheap w" "c_error errstr err w1 = (p, w')"
  shows "hands_over w p w' \<and> (p = None \<longleftrightarrow> err = None) \<and>
    (\<forall>e. err = Some e \<longrightarrow> c_string p w' = Some (errstr e))"
proof (cases err)
  case None
  then show ?thesis using assms by (auto simp: c_error_def hands_over_def)
next
  case (Some e)
  then have "C_CString (errstr e) w1 = (p, w')" using assms(4) by (simp add: c_error_def)
  from C_CString_hands_over [OF assms(2) this] Some assms(3) show ?thesis
    by (auto simp: hands_over_def split: option.splits)
qed

text \<open>Every exported function hands over what it returns.\<close>

lemma SetVFSConnectionTime_heap:
  "SetVFSConnectionTime ops parse db ts w = (err, w') \<Longrightarrow>
   cheap w' = cheap w \<and> (heap_ok w \<longrightarrow> heap_ok w')"
  by (auto simp: SetVFSConnectionTime_def split: sum.splits prod.splits)

lemma ResetVFSConnectionTime_heap:
  "ResetVFSConnectionTime ops db w = (err, w') \<Longrightarrow>
   cheap w' = cheap w \<and> (heap_ok w \<longrightarrow> heap_ok w')"
  by (auto simp: ResetVFSConnectionTime_def split: sum.splits prod.splits)

lemma GoLitestreamSetTime_hands_over:
  assumes "heap_ok w" "GoLitestreamSetTime ops parse errstr db ts w = (p, w')"
  shows "hands_over w p w'"
proof (cases ts)
  case None
  then show ?thesis using assms C_CString_hands_over by (auto simp: GoLitestreamSetTime_def)
next
  case (Some t)
  obtain err w1 where s: "SetVFSConnectionTime ops parse db t w = (err, w1)" by force
  with assms Some have "c_error errstr err w1 = (p, w')" by (simp add: GoLitestreamSetTime_def)
  with c_error_hands_over [OF assms(1)] SetVFSConnectionTime_heap [OF s] assms(1)
  show ?thesis by blast
qed

lemma GoLitestreamResetTime_hands_over:
  assumes "heap_ok w" "GoLitestreamResetTime ops errstr db w = (p, w')"
  shows "hands_over w p w'"
proof -
  obtain err w1 where s: "ResetVFSConnectionTime ops db w = (err, w1)" by force
  with assms have "c_error errstr err w1 = (p, w')" by (simp add: GoLitestreamResetTime_def)
  with c_error_hands_over [OF assms(1)] ResetVFSConnectionTime_heap [OF s] assms(1)
  show ?thesis by blast
qed

lemma GoLitestreamRegisterConnection_hands_over:
  assumes "heap_ok w" "GoLitestreamRegisterConnection errstr db i w = (p, w')"
  shows "hands_over w p w' \<and> (p = None \<longrightarrow> connMap w' = (connMap w)(db \<mapsto> i) \<and> fileMap w i \<noteq> None) \<and>
    (p \<noteq> None \<longrightarrow> connMap w' = connMap w \<and> fileMap w i = None)"
  using assms C_CString_hands_over [OF assms(1)]
  by (auto simp: GoLitestreamRegisterConnection_def RegisterVFSConnection_def c_error_def
      lookupVFSFile_def C_CString_def intro!: hands_over_None split: option.splits)

lemma LitestreamVFSRegister_hands_over:
  assumes "heap_ok w" "LitestreamVFSRegister env errstr w = (p, w')"
  shows "hands_over w p w' \<and> (p \<noteq> None \<longrightarrow> registeredVFS w' = registeredVFS w)"
proof -
  have "(\<exists>cfg. (p, w') = (None, w\<lparr>registeredVFS := Some cfg\<rparr>)) \<or> (\<exists>s. C_CString s w = (p, w'))"
    using assms(2) by (auto simp: LitestreamVFSRegister_def Let_def split: if_splits sum.splits option.splits)
  then show ?thesis
  proof
    assume "\<exists>cfg. (p, w') = (None, w\<lparr>registeredVFS := Some cfg\<rparr>)"
    then show ?thesis using assms(1) by (auto simp: hands_over_def heap_ok_def)
  next
    assume "\<exists>s. C_CString s w = (p, w')"
    then obtain s where s: "C_CString s w = (p, w')" ..
    from C_CString_hands_over [OF assms(1) s] s show ?thesis by (auto simp: C_CString_def)
  qed
qed

end
