(* ===== verification/Sqlite_Types.thy ===== *)
theory Sqlite_Types
  imports Prelude
begin

text \<open>
  The C types of the SQLite interface, as declared by \<open>src/sqlite3.h\<close> and
  \<open>src/sqlite3ext.h\<close>: base types, pointers, \<open>const\<close>, function types, the opaque
  structures and the typedefs. \<open>resolve\<close> expands typedefs, so that two spellings of a type
  compare equal exactly when they are the same type. Parameter names, array bounds of parameters
  and \<open>volatile\<close> are left out.
\<close>

datatype c_struct =
    Sqlite3_s
  | Sqlite3_backup_s
  | Sqlite3_blob_s
  | Sqlite3_context_s
  | Sqlite3_file_s
  | Sqlite3_index_info_s
  | Sqlite3_module_s
  | Sqlite3_mutex_s
  | Sqlite3_stmt_s
  | Sqlite3_str_s
  | Sqlite3_value_s
  | Sqlite3_vfs_s

datatype c_typedef =
    Sqlite_int64_t
  | Sqlite_uint64_t
  | Sqlite3_int64_t
  | Sqlite3_uint64_t
  | Sqlite3_callback_t
  | Sqlite3_filename_t

datatype ctype =
    CVoid
  | CInt
  | CUInt
  | CChar
  | CUChar
  | CDouble
  | CLongLong
  | CULongLong
  | CVaList
  | CVariadic
  | CStruct c_struct
  | CTypedef c_typedef
  | CConst ctype
  | CPtr ctype
  | CFun ctype "ctype list"

text \<open>The typedefs, with the 64-bit types as the header declares them for compilers other than
  the ones it names.\<close>

fun typedef_of :: "c_typedef \<Rightarrow> ctype" where
  "typedef_of Sqlite_int64_t = CLongLong"
| "typedef_of Sqlite_uint64_t = CULongLong"
| "typedef_of Sqlite3_int64_t = CTypedef Sqlite_int64_t"
| "typedef_of Sqlite3_uint64_t = CTypedef Sqlite_uint64_t"
| "typedef_of Sqlite3_callback_t =
     CPtr (CFun CInt [CPtr CVoid, CInt, CPtr (CPtr CChar), CPtr (CPtr CChar)])"
| "typedef_of Sqlite3_filename_t = CPtr (CConst CChar)"

fun expand :: "ctype \<Rightarrow> ctype" where
  "expand (CTypedef t) = typedef_of t"
| "expand (CConst t) = CConst (expand t)"
| "expand (CPtr t) = CPtr (expand t)"
| "expand (CFun r ps) = CFun (expand r) (map expand ps)"
| "expand t = t"

text \<open>No typedef is more than two steps from its type.\<close>

definition resolve :: "ctype \<Rightarrow> ctype" where
  "resolve t = expand (expand t)"

fun resolved :: "ctype \<Rightarrow> bool" where
  "resolved (CTypedef t) = False"
| "resolved (CConst t) = resolved t"
| "resolved (CPtr t) = resolved t"
| "resolved (CFun r ps) = (resolved r \<and> list_all resolved ps)"
| "resolved t = True"

lemma resolved_resolve: "resolved (resolve t)"
proof -
  have two: "resolved (expand (typedef_of td))" for td by (cases td) simp_all
  have "resolved (expand (expand t))"
    by (induction t rule: expand.induct) (simp_all add: two list_all_iff)
  then show ?thesis by (simp add: resolve_def)
qed

end
