(* ===== verification/Sqlite_Protos.thy ===== *)
theory Sqlite_Protos
  imports Sqlite_Types
begin

text \<open>
  The function prototypes of \<open>src/sqlite3.h\<close> that the routine table of
  \<open>src/sqlite3ext.h\<close> exports, grouped as the header has them: for each function its name,
  without the prefix \<open>sqlite3_\<close> they all have, and its type.
\<close>

type_synonym proto_table = "(string \<times> ctype) list"

definition api_libversion :: proto_table where
  "api_libversion =
  [(''libversion'', CFun (CPtr (CConst CChar)) []),
   (''sourceid'', CFun (CPtr (CConst CChar)) []),
   (''libversion_number'', CFun CInt []),
   (''compileoption_used'', CFun CInt [CPtr (CConst CChar)]),
   (''compileoption_get'', CFun (CPtr (CConst CChar)) [CInt]),
   (''threadsafe'', CFun CInt [])]"

definition api_close :: proto_table where
  "api_close =
  [(''close'', CFun CInt [CPtr (CStruct Sqlite3_s)]),
   (''close_v2'', CFun CInt [CPtr (CStruct Sqlite3_s)]),
   (''exec'', CFun CInt [CPtr (CStruct Sqlite3_s), CPtr (CConst CChar), CPtr (CFun CInt [CPtr CVoid, CInt, CPtr (CPtr CChar), CPtr (CPtr CChar)]), CPtr CVoid, CPtr (CPtr CChar)])]"

definition api_db_config :: proto_table where
  "api_db_config =
  [(''db_config'', CFun CInt [CPtr (CStruct Sqlite3_s), CInt, CVariadic])]"

definition api_extended_result_codes :: proto_table where
  "api_extended_result_codes =
  [(''extended_result_codes'', CFun CInt [CPtr (CStruct Sqlite3_s), CInt]),
   (''last_insert_rowid'', CFun (CTypedef Sqlite3_int64_t) [CPtr (CStruct Sqlite3_s)]),
   (''set_last_insert_rowid'', CFun CVoid [CPtr (CStruct Sqlite3_s), CTypedef Sqlite3_int64_t]),
   (''changes'', CFun CInt [CPtr (CStruct Sqlite3_s)]),
   (''changes64'', CFun (CTypedef Sqlite3_int64_t) [CPtr (CStruct Sqlite3_s)])]"

definition api_total_changes :: proto_table where
  "api_total_changes =
  [(''total_changes'', CFun CInt [CPtr (CStruct Sqlite3_s)]),
   (''total_changes64'', CFun (CTypedef Sqlite3_int64_t) [CPtr (CStruct Sqlite3_s)]),
   (''interrupt'', CFun CVoid [CPtr (CStruct Sqlite3_s)]),
   (''is_interrupted'', CFun CInt [CPtr (CStruct Sqlite3_s)]),
   (''complete'', CFun CInt [CPtr (CConst CChar)]),
   (''complete16'', CFun CInt [CPtr (CConst CVoid)])]"

definition api_busy_handler :: proto_table where
  "api_busy_handler =
  [(''busy_handler'', CFun CInt [CPtr (CStruct Sqlite3_s), CPtr (CFun CInt [CPtr CVoid, CInt]), CPtr CVoid]),
   (''busy_timeout'', CFun CInt [CPtr (CStruct Sqlite3_s), CInt]),
   (''setlk_timeout'', CFun CInt [CPtr (CStruct Sqlite3_s), CInt, CInt])]"

definition api_get_table :: proto_table where
  "api_get_table =
  [(''get_table'', CFun CInt [CPtr (CStruct Sqlite3_s), CPtr (CConst CChar), CPtr (CPtr (CPtr CChar)), CPtr CInt, CPtr CInt, CPtr (CPtr CChar)]),
   (''free_table'', CFun CVoid [CPtr (CPtr CChar)]),
   (''mprintf'', CFun (CPtr CChar) [CPtr (CConst CChar), CVariadic]),
   (''vmprintf'', CFun (CPtr CChar) [CPtr (CConst CChar), CVaList]),
   (''snprintf'', CFun (CPtr CChar) [CInt, CPtr CChar, CPtr (CConst CChar), CVariadic]),
   (''vsnprintf'', CFun (CPtr CChar) [CInt, CPtr CChar, CPtr (CConst CChar), CVaList])]"

definition api_malloc :: proto_table where
  "api_malloc =
  [(''malloc'', CFun (CPtr CVoid) [CInt]),
   (''malloc64'', CFun (CPtr CVoid) [CTypedef Sqlite3_uint64_t]),
   (''realloc'', CFun (CPtr CVoid) [CPtr CVoid, CInt]),
   (''realloc64'', CFun (CPtr CVoid) [CPtr CVoid, CTypedef Sqlite3_uint64_t]),
   (''free'', CFun CVoid [CPtr CVoid]),
   (''msize'', CFun (CTypedef Sqlite3_uint64_t) [CPtr CVoid]),
   (''memory_used'', CFun (CTypedef Sqlite3_int64_t) []),
   (''memory_highwater'', CFun (CTypedef Sqlite3_int64_t) [CInt]),
   (''randomness'', CFun CVoid [CInt, CPtr CVoid])]"

definition api_set_authorizer :: proto_table where
  "api_set_authorizer =
  [(''set_authorizer'', CFun CInt [CPtr (CStruct Sqlite3_s), CPtr (CFun CInt [CPtr CVoid, CInt, CPtr (CConst CChar), CPtr (CConst CChar), CPtr (CConst CChar), CPtr (CConst CChar)]), CPtr CVoid])]"

definition api_trace :: proto_table where
  "api_trace =
  [(''trace'', CFun (CPtr CVoid) [CPtr (CStruct Sqlite3_s), CPtr (CFun CVoid [CPtr CVoid, CPtr (CConst CChar)]), CPtr CVoid]),
   (''profile'', CFun (CPtr CVoid) [CPtr (CStruct Sqlite3_s), CPtr (CFun CVoid [CPtr CVoid, CPtr (CConst CChar), CTypedef Sqlite3_uint64_t]), CPtr CVoid]),
   (''trace_v2'', CFun CInt [CPtr (CStruct Sqlite3_s), CUInt, CPtr (CFun CInt [CUInt, CPtr CVoid, CPtr CVoid, CPtr CVoid]), CPtr CVoid])]"

definition api_progress_handler :: proto_table where
  "api_progress_handler =
  [(''progress_handler'', CFun CVoid [CPtr (CStruct Sqlite3_s), CInt, CPtr (CFun CInt [CPtr CVoid]), CPtr CVoid])]"

definition api_open :: proto_table where
  "api_open =
  [(''open'', CFun CInt [CPtr (CConst CChar), CPtr (CPtr (CStruct Sqlite3_s))]),
   (''open16'', CFun CInt [CPtr (CConst CVoid), CPtr (CPtr (CStruct Sqlite3_s))]),
   (''open_v2'', CFun CInt [CPtr (CConst CChar), CPtr (CPtr (CStruct Sqlite3_s)), CInt, CPtr (CConst CChar)])]"

definition api_uri_parameter :: proto_table where
  "api_uri_parameter =
  [(''uri_parameter'', CFun (CPtr (CConst CChar)) [CTypedef Sqlite3_filename_t, CPtr (CConst CChar)]),
   (''uri_boolean'', CFun CInt [CTypedef Sqlite3_filename_t, CPtr (CConst CChar), CInt]),
   (''uri_int64'', CFun (CTypedef Sqlite3_int64_t) [CTypedef Sqlite3_filename_t, CPtr (CConst CChar), CTypedef Sqlite3_int64_t]),
   (''uri_key'', CFun (CPtr (CConst CChar)) [CTypedef Sqlite3_filename_t, CInt]),
   (''filename_database'', CFun (CPtr (CConst CChar)) [CTypedef Sqlite3_filename_t]),
   (''filename_journal'', CFun (CPtr (CConst CChar)) [CTypedef Sqlite3_filename_t]),
   (''filename_wal'', CFun (CPtr (CConst CChar)) [CTypedef Sqlite3_filename_t]),
   (''database_file_object'', CFun (CPtr (CStruct Sqlite3_file_s)) [CPtr (CConst CChar)])]"

definition api_create_filename :: proto_table where
  "api_create_filename =
  [(''create_filename'', CFun (CTypedef Sqlite3_filename_t) [CPtr (CConst CChar), CPtr (CConst CChar), CPtr (CConst CChar), CInt, CPtr (CPtr (CConst CChar))]),
   (''free_filename'', CFun CVoid [CTypedef Sqlite3_filename_t]),
   (''errcode'', CFun CInt [CPtr (CStruct Sqlite3_s)]),
   (''extended_errcode'', CFun CInt [CPtr (CStruct Sqlite3_s)]),
   (''errmsg'', CFun (CPtr (CConst CChar)) [CPtr (CStruct Sqlite3_s)]),
   (''errmsg16'', CFun (CPtr (CConst CVoid)) [CPtr (CStruct Sqlite3_s)]),
   (''errstr'', CFun (CPtr (CConst CChar)) [CInt]),
   (''error_offset'', CFun CInt [CPtr (CStruct Sqlite3_s)])]"

definition api_limit :: proto_table where
  "api_limit =
  [(''limit'', CFun CInt [CPtr (CStruct Sqlite3_s), CInt, CInt])]"

definition api_prepare :: proto_table where
  "api_prepare =
  [(''prepare'', CFun CInt [CPtr (CStruct Sqlite3_s), CPtr (CConst CChar), CInt, CPtr (CPtr (CStruct Sqlite3_stmt_s)), CPtr (CPtr (CConst CChar))]),
   (''prepare_v2'', CFun CInt [CPtr (CStruct Sqlite3_s), CPtr (CConst CChar), CInt, CPtr (CPtr (CStruct Sqlite3_stmt_s)), CPtr (CPtr (CConst CChar))]),
   (''prepare_v3'', CFun CInt [CPtr (CStruct Sqlite3_s), CPtr (CConst CChar), CInt, CUInt, CPtr (CPtr (CStruct Sqlite3_stmt_s)), CPtr (CPtr (CConst CChar))]),
   (''prepare16'', CFun CInt [CPtr (CStruct Sqlite3_s), CPtr (CConst CVoid), CInt, CPtr (CPtr (CStruct Sqlite3_stmt_s)), CPtr (CPtr (CConst CVoid))]),
   (''prepare16_v2'', CFun CInt [CPtr (CStruct Sqlite3_s), CPtr (CConst CVoid), CInt, CPtr (CPtr (CStruct Sqlite3_stmt_s)), CPtr (CPtr (CConst CVoid))]),
   (''prepare16_v3'', CFun CInt [CPtr (CStruct Sqlite3_s), CPtr (CConst CVoid), CInt, CUInt, CPtr (CPtr (CStruct Sqlite3_stmt_s)), CPtr (CPtr (CConst CVoid))])]"

definition api_sql :: proto_table where
  "api_sql =
  [(''sql'', CFun (CPtr (CConst CChar)) [CPtr (CStruct Sqlite3_stmt_s)]),
   (''expanded_sql'', CFun (CPtr CChar) [CPtr (CStruct Sqlite3_stmt_s)]),
   (''normalized_sql'', CFun (CPtr (CConst CChar)) [CPtr (CStruct Sqlite3_stmt_s)]),
   (''stmt_readonly'', CFun CInt [CPtr (CStruct Sqlite3_stmt_s)]),
   (''stmt_isexplain'', CFun CInt [CPtr (CStruct Sqlite3_stmt_s)]),
   (''stmt_explain'', CFun CInt [CPtr (CStruct Sqlite3_stmt_s), CInt])]"

definition api_stmt_busy :: proto_table where
  "api_stmt_busy =
  [(''stmt_busy'', CFun CInt [CPtr (CStruct Sqlite3_stmt_s)])]"

definition api_bind_blob :: proto_table where
  "api_bind_blob =
  [(''bind_blob'', CFun CInt [CPtr (CStruct Sqlite3_stmt_s), CInt, CPtr (CConst CVoid), CInt, CPtr (CFun CVoid [CPtr CVoid])]),
   (''bind_blob64'', CFun CInt [CPtr (CStruct Sqlite3_stmt_s), CInt, CPtr (CConst CVoid), CTypedef Sqlite3_uint64_t, CPtr (CFun CVoid [CPtr CVoid])]),
   (''bind_double'', CFun CInt [CPtr (CStruct Sqlite3_stmt_s), CInt, CDouble]),
   (''bind_int'', CFun CInt [CPtr (CStruct Sqlite3_stmt_s), CInt, CInt]),
   (''bind_int64'', CFun CInt [CPtr (CStruct Sqlite3_stmt_s), CInt, CTypedef Sqlite3_int64_t]),
   (''bind_null'', CFun CInt [CPtr (CStruct Sqlite3_stmt_s), CInt]),
   (''bind_text'', CFun CInt [CPtr (CStruct Sqlite3_stmt_s), CInt, CPtr (CConst CChar), CInt, CPtr (CFun CVoid [CPtr CVoid])]),
   (''bind_text16'', CFun CInt [CPtr (CStruct Sqlite3_stmt_s), CInt, CPtr (CConst CVoid), CInt, CPtr (CFun CVoid [CPtr CVoid])]),
   (''bind_text64'', CFun CInt [CPtr (CStruct Sqlite3_stmt_s), CInt, CPtr (CConst CChar), CTypedef Sqlite3_uint64_t, CPtr (CFun CVoid [CPtr CVoid]), CUChar]),
   (''bind_value'', CFun CInt [CPtr (CStruct Sqlite3_stmt_s), CInt, CPtr (CConst (CStruct Sqlite3_value_s))]),
   (''bind_pointer'', CFun CInt [CPtr (CStruct Sqlite3_stmt_s), CInt, CPtr CVoid, CPtr (CConst CChar), CPtr (CFun CVoid [CPtr CVoid])]),
   (''bind_zeroblob'', CFun CInt [CPtr (CStruct Sqlite3_stmt_s), CInt, CInt]),
   (''bind_zeroblob64'', CFun CInt [CPtr (CStruct Sqlite3_stmt_s), CInt, CTypedef Sqlite3_uint64_t])]"

definition api_bind_parameter_count :: proto_table where
  "api_bind_parameter_count =
  [(''bind_parameter_count'', CFun CInt [CPtr (CStruct Sqlite3_stmt_s)]),
   (''bind_parameter_name'', CFun (CPtr (CConst CChar)) [CPtr (CStruct Sqlite3_stmt_s), CInt]),
   (''bind_parameter_index'', CFun CInt [CPtr (CStruct Sqlite3_stmt_s), CPtr (CConst CChar)]),
   (''clear_bindings'', CFun CInt [CPtr (CStruct Sqlite3_stmt_s)]),
   (''column_count'', CFun CInt [CPtr (CStruct Sqlite3_stmt_s)]),
   (''column_name'', CFun (CPtr (CConst CChar)) [CPtr (CStruct Sqlite3_stmt_s), CInt]),
   (''column_name16'', CFun (CPtr (CConst CVoid)) [CPtr (CStruct Sqlite3_stmt_s), CInt])]"

definition api_column_database_name :: proto_table where
  "api_column_database_name =
  [(''column_database_name'', CFun (CPtr (CConst CChar)) [CPtr (CStruct Sqlite3_stmt_s), CInt]),
   (''column_database_name16'', CFun (CPtr (CConst CVoid)) [CPtr (CStruct Sqlite3_stmt_s), CInt]),
   (''column_table_name'', CFun (CPtr (CConst CChar)) [CPtr (CStruct Sqlite3_stmt_s), CInt]),
   (''column_table_name16'', CFun (CPtr (CConst CVoid)) [CPtr (CStruct Sqlite3_stmt_s), CInt]),
   (''column_origin_name'', CFun (CPtr (CConst CChar)) [CPtr (CStruct Sqlite3_stmt_s), CInt]),
   (''column_origin_name16'', CFun (CPtr (CConst CVoid)) [CPtr (CStruct Sqlite3_stmt_s), CInt]),
   (''column_decltype'', CFun (CPtr (CConst CChar)) [CPtr (CStruct Sqlite3_stmt_s), CInt]),
   (''column_decltype16'', CFun (CPtr (CConst CVoid)) [CPtr (CStruct Sqlite3_stmt_s), CInt])]"

definition api_step :: proto_table where
  "api_step =
  [(''step'', CFun CInt [CPtr (CStruct Sqlite3_stmt_s)]),
   (''data_count'', CFun CInt [CPtr (CStruct Sqlite3_stmt_s)])]"

definition api_column_blob :: proto_table where
  "api_column_blob =
  [(''column_blob'', CFun (CPtr (CConst CVoid)) [CPtr (CStruct Sqlite3_stmt_s), CInt]),
   (''column_double'', CFun CDouble [CPtr (CStruct Sqlite3_stmt_s), CInt]),
   (''column_int'', CFun CInt [CPtr (CStruct Sqlite3_stmt_s), CInt]),
   (''column_int64'', CFun (CTypedef Sqlite3_int64_t) [CPtr (CStruct Sqlite3_stmt_s), CInt]),
   (''column_text'', CFun (CPtr (CConst CUChar)) [CPtr (CStruct Sqlite3_stmt_s), CInt]),
   (''column_text16'', CFun (CPtr (CConst CVoid)) [CPtr (CStruct Sqlite3_stmt_s), CInt]),
   (''column_value'', CFun (CPtr (CStruct Sqlite3_value_s)) [CPtr (CStruct Sqlite3_stmt_s), CInt]),
   (''column_bytes'', CFun CInt [CPtr (CStruct Sqlite3_stmt_s), CInt]),
   (''column_bytes16'', CFun CInt [CPtr (CStruct Sqlite3_stmt_s), CInt]),
   (''column_type'', CFun CInt [CPtr (CStruct Sqlite3_stmt_s), CInt])]"

definition api_finalize :: proto_table where
  "api_finalize =
  [(''finalize'', CFun CInt [CPtr (CStruct Sqlite3_stmt_s)]),
   (''reset'', CFun CInt [CPtr (CStruct Sqlite3_stmt_s)])]"

definition api_create_function :: proto_table where
  "api_create_function =
  [(''create_function'', CFun CInt [CPtr (CStruct Sqlite3_s), CPtr (CConst CChar), CInt, CInt, CPtr CVoid, CPtr (CFun CVoid [CPtr (CStruct Sqlite3_context_s), CInt, CPtr (CPtr (CStruct Sqlite3_value_s))]), CPtr (CFun CVoid [CPtr (CStruct Sqlite3_context_s), CInt, CPtr (CPtr (CStruct Sqlite3_value_s))]), CPtr (CFun CVoid [CPtr (CStruct Sqlite3_context_s)])]),
   (''create_function16'', CFun CInt [CPtr (CStruct Sqlite3_s), CPtr (CConst CVoid), CInt, CInt, CPtr CVoid, CPtr (CFun CVoid [CPtr (CStruct Sqlite3_context_s), CInt, CPtr (CPtr (CStruct Sqlite3_value_s))]), CPtr (CFun CVoid [CPtr (CStruct Sqlite3_context_s), CInt, CPtr (CPtr (CStruct Sqlite3_value_s))]), CPtr (CFun CVoid [CPtr (CStruct Sqlite3_context_s)])]),
   (''create_function_v2'', CFun CInt [CPtr (CStruct Sqlite3_s), CPtr (CConst CChar), CInt, CInt, CPtr CVoid, CPtr (CFun CVoid [CPtr (CStruct Sqlite3_context_s), CInt, CPtr (CPtr (CStruct Sqlite3_value_s))]), CPtr (CFun CVoid [CPtr (CStruct Sqlite3_context_s), CInt, CPtr (CPtr (CStruct Sqlite3_value_s))]), CPtr (CFun CVoid [CPtr (CStruct Sqlite3_context_s)]), CPtr (CFun CVoid [CPtr CVoid])]),
   (''create_window_function'', CFun CInt [CPtr (CStruct Sqlite3_s), CPtr (CConst CChar), CInt, CInt, CPtr CVoid, CPtr (CFun CVoid [CPtr (CStruct Sqlite3_context_s), CInt, CPtr (CPtr (CStruct Sqlite3_value_s))]), CPtr (CFun CVoid [CPtr (CStruct Sqlite3_context_s)]), CPtr (CFun CVoid [CPtr (CStruct Sqlite3_context_s)]), CPtr (CFun CVoid [CPtr (CStruct Sqlite3_context_s), CInt, CPtr (CPtr (CStruct Sqlite3_value_s))]), CPtr (CFun CVoid [CPtr CVoid])])]"

definition api_aggregate_count :: proto_table where
  "api_aggregate_count =
  [(''aggregate_count'', CFun CInt [CPtr (CStruct Sqlite3_context_s)]),
   (''expired'', CFun CInt [CPtr (CStruct Sqlite3_stmt_s)]),
   (''transfer_bindings'', CFun CInt [CPtr (CStruct Sqlite3_stmt_s), CPtr (CStruct Sqlite3_stmt_s)]),
   (''global_recover'', CFun CInt []),
   (''thread_cleanup'', CFun CVoid [])]"

definition api_value_blob :: proto_table where
  "api_value_blob =
  [(''value_blob'', CFun (CPtr (CConst CVoid)) [CPtr (CStruct Sqlite3_value_s)]),
   (''value_double'', CFun CDouble [CPtr (CStruct Sqlite3_value_s)]),
   (''value_int'', CFun CInt [CPtr (CStruct Sqlite3_value_s)]),
   (''value_int64'', CFun (CTypedef Sqlite3_int64_t) [CPtr (CStruct Sqlite3_value_s)]),
   (''value_pointer'', CFun (CPtr CVoid) [CPtr (CStruct Sqlite3_value_s), CPtr (CConst CChar)]),
   (''value_text'', CFun (CPtr (CConst CUChar)) [CPtr (CStruct Sqlite3_value_s)]),
   (''value_text16'', CFun (CPtr (CConst CVoid)) [CPtr (CStruct Sqlite3_value_s)]),
   (''value_text16le'', CFun (CPtr (CConst CVoid)) [CPtr (CStruct Sqlite3_value_s)]),
   (''value_text16be'', CFun (CPtr (CConst CVoid)) [CPtr (CStruct Sqlite3_value_s)]),
   (''value_bytes'', CFun CInt [CPtr (CStruct Sqlite3_value_s)]),
   (''value_bytes16'', CFun CInt [CPtr (CStruct Sqlite3_value_s)]),
   (''value_type'', CFun CInt [CPtr (CStruct Sqlite3_value_s)]),
   (''value_numeric_type'', CFun CInt [CPtr (CStruct Sqlite3_value_s)]),
   (''value_nochange'', CFun CInt [CPtr (CStruct Sqlite3_value_s)]),
   (''value_frombind'', CFun CInt [CPtr (CStruct Sqlite3_value_s)])]"

definition api_value_encoding :: proto_table where
  "api_value_encoding =
  [(''value_encoding'', CFun CInt [CPtr (CStruct Sqlite3_value_s)]),
   (''value_subtype'', CFun CUInt [CPtr (CStruct Sqlite3_value_s)]),
   (''value_dup'', CFun (CPtr (CStruct Sqlite3_value_s)) [CPtr (CConst (CStruct Sqlite3_value_s))]),
   (''value_free'', CFun CVoid [CPtr (CStruct Sqlite3_value_s)]),
   (''aggregate_context'', CFun (CPtr CVoid) [CPtr (CStruct Sqlite3_context_s), CInt]),
   (''user_data'', CFun (CPtr CVoid) [CPtr (CStruct Sqlite3_context_s)]),
   (''context_db_handle'', CFun (CPtr (CStruct Sqlite3_s)) [CPtr (CStruct Sqlite3_context_s)])]"

definition api_get_auxdata :: proto_table where
  "api_get_auxdata =
  [(''get_auxdata'', CFun (CPtr CVoid) [CPtr (CStruct Sqlite3_context_s), CInt]),
   (''set_auxdata'', CFun CVoid [CPtr (CStruct Sqlite3_context_s), CInt, CPtr CVoid, CPtr (CFun CVoid [CPtr CVoid])]),
   (''get_clientdata'', CFun (CPtr CVoid) [CPtr (CStruct Sqlite3_s), CPtr (CConst CChar)]),
   (''set_clientdata'', CFun CInt [CPtr (CStruct Sqlite3_s), CPtr (CConst CChar), CPtr CVoid, CPtr (CFun CVoid [CPtr CVoid])])]"

definition api_result_blob :: proto_table where
  "api_result_blob =
  [(''result_blob'', CFun CVoid [CPtr (CStruct Sqlite3_context_s), CPtr (CConst CVoid), CInt, CPtr (CFun CVoid [CPtr CVoid])]),
   (''result_blob64'', CFun CVoid [CPtr (CStruct Sqlite3_context_s), CPtr (CConst CVoid), CTypedef Sqlite3_uint64_t, CPtr (CFun CVoid [CPtr CVoid])]),
   (''result_double'', CFun CVoid [CPtr (CStruct Sqlite3_context_s), CDouble]),
   (''result_error'', CFun CVoid [CPtr (CStruct Sqlite3_context_s), CPtr (CConst CChar), CInt]),
   (''result_error16'', CFun CVoid [CPtr (CStruct Sqlite3_context_s), CPtr (CConst CVoid), CInt]),
   (''result_error_toobig'', CFun CVoid [CPtr (CStruct Sqlite3_context_s)]),
   (''result_error_nomem'', CFun CVoid [CPtr (CStruct Sqlite3_context_s)]),
   (''result_error_code'', CFun CVoid [CPtr (CStruct Sqlite3_context_s), CInt]),
   (''result_int'', CFun CVoid [CPtr (CStruct Sqlite3_context_s), CInt]),
   (''result_int64'', CFun CVoid [CPtr (CStruct Sqlite3_context_s), CTypedef Sqlite3_int64_t]),
   (''result_null'', CFun CVoid [CPtr (CStruct Sqlite3_context_s)]),
   (''result_text'', CFun CVoid [CPtr (CStruct Sqlite3_context_s), CPtr (CConst CChar), CInt, CPtr (CFun CVoid [CPtr CVoid])]),
   (''result_text64'', CFun CVoid [CPtr (CStruct Sqlite3_context_s), CPtr (CConst CChar), CTypedef Sqlite3_uint64_t, CPtr (CFun CVoid [CPtr CVoid]), CUChar]),
   (''result_text16'', CFun CVoid [CPtr (CStruct Sqlite3_context_s), CPtr (CConst CVoid), CInt, CPtr (CFun CVoid [CPtr CVoid])]),
   (''result_text16le'', CFun CVoid [CPtr (CStruct Sqlite3_context_s), CPtr (CConst CVoid), CInt, CPtr (CFun CVoid [CPtr CVoid])]),
   (''result_text16be'', CFun CVoid [CPtr (CStruct Sqlite3_context_s), CPtr (CConst CVoid), CInt, CPtr (CFun CVoid [CPtr CVoid])]),
   (''result_value'', CFun CVoid [CPtr (CStruct Sqlite3_context_s), CPtr (CStruct Sqlite3_value_s)]),
   (''result_pointer'', CFun CVoid [CPtr (CStruct Sqlite3_context_s), CPtr CVoid, CPtr (CConst CChar), CPtr (CFun CVoid [CPtr CVoid])]),
   (''result_zeroblob'', CFun CVoid [CPtr (CStruct Sqlite3_context_s), CInt]),
   (''result_zeroblob64'', CFun CInt [CPtr (CStruct Sqlite3_context_s), CTypedef Sqlite3_uint64_t])]"

definition api_result_subtype :: proto_table where
  "api_result_subtype =
  [(''result_subtype'', CFun CVoid [CPtr (CStruct Sqlite3_context_s), CUInt]),
   (''create_collation'', CFun CInt [CPtr (CStruct Sqlite3_s), CPtr (CConst CChar), CInt, CPtr CVoid, CPtr (CFun CInt [CPtr CVoid, CInt, CPtr (CConst CVoid), CInt, CPtr (CConst CVoid)])]),
   (''create_collation_v2'', CFun CInt [CPtr (CStruct Sqlite3_s), CPtr (CConst CChar), CInt, CPtr CVoid, CPtr (CFun CInt [CPtr CVoid, CInt, CPtr (CConst CVoid), CInt, CPtr (CConst CVoid)]), CPtr (CFun CVoid [CPtr CVoid])]),
   (''create_collation16'', CFun CInt [CPtr (CStruct Sqlite3_s), CPtr (CConst CVoid), CInt, CPtr CVoid, CPtr (CFun CInt [CPtr CVoid, CInt, CPtr (CConst CVoid), CInt, CPtr (CConst CVoid)])])]"

definition api_collation_needed :: proto_table where
  "api_collation_needed =
  [(''collation_needed'', CFun CInt [CPtr (CStruct Sqlite3_s), CPtr CVoid, CPtr (CFun CVoid [CPtr CVoid, CPtr (CStruct Sqlite3_s), CInt, CPtr (CConst CChar)])]),
   (''collation_needed16'', CFun CInt [CPtr (CStruct Sqlite3_s), CPtr CVoid, CPtr (CFun CVoid [CPtr CVoid, CPtr (CStruct Sqlite3_s), CInt, CPtr (CConst CVoid)])]),
   (''sleep'', CFun CInt [CInt])]"

definition api_get_autocommit :: proto_table where
  "api_get_autocommit =
  [(''get_autocommit'', CFun CInt [CPtr (CStruct Sqlite3_s)]),
   (''db_handle'', CFun (CPtr (CStruct Sqlite3_s)) [CPtr (CStruct Sqlite3_stmt_s)]),
   (''db_name'', CFun (CPtr (CConst CChar)) [CPtr (CStruct Sqlite3_s), CInt]),
   (''db_filename'', CFun (CTypedef Sqlite3_filename_t) [CPtr (CStruct Sqlite3_s), CPtr (CConst CChar)]),
   (''db_readonly'', CFun CInt [CPtr (CStruct Sqlite3_s), CPtr (CConst CChar)]),
   (''txn_state'', CFun CInt [CPtr (CStruct Sqlite3_s), CPtr (CConst CChar)])]"

definition api_next_stmt :: proto_table where
  "api_next_stmt =
  [(''next_stmt'', CFun (CPtr (CStruct Sqlite3_stmt_s)) [CPtr (CStruct Sqlite3_s), CPtr (CStruct Sqlite3_stmt_s)]),
   (''commit_hook'', CFun (CPtr CVoid) [CPtr (CStruct Sqlite3_s), CPtr (CFun CInt [CPtr CVoid]), CPtr CVoid]),
   (''rollback_hook'', CFun (CPtr CVoid) [CPtr (CStruct Sqlite3_s), CPtr (CFun CVoid [CPtr CVoid]), CPtr CVoid]),
   (''autovacuum_pages'', CFun CInt [CPtr (CStruct Sqlite3_s), CPtr (CFun CUInt [CPtr CVoid, CPtr (CConst CChar), CUInt, CUInt, CUInt]), CPtr CVoid, CPtr (CFun CVoid [CPtr CVoid])])]"

definition api_update_hook :: proto_table where
  "api_update_hook =
  [(''update_hook'', CFun (CPtr CVoid) [CPtr (CStruct Sqlite3_s), CPtr (CFun CVoid [CPtr CVoid, CInt, CPtr (CConst CChar), CPtr (CConst CChar), CTypedef Sqlite3_int64_t]), CPtr CVoid]),
   (''enable_shared_cache'', CFun CInt [CInt]),
   (''release_memory'', CFun CInt [CInt]),
   (''db_release_memory'', CFun CInt [CPtr (CStruct Sqlite3_s)])]"

definition api_soft_heap_limit64 :: proto_table where
  "api_soft_heap_limit64 =
  [(''soft_heap_limit64'', CFun (CTypedef Sqlite3_int64_t) [CTypedef Sqlite3_int64_t]),
   (''hard_heap_limit64'', CFun (CTypedef Sqlite3_int64_t) [CTypedef Sqlite3_int64_t]),
   (''soft_heap_limit'', CFun CVoid [CInt])]"

definition api_table_column_metadata :: proto_table where
  "api_table_column_metadata =
  [(''table_column_metadata'', CFun CInt [CPtr (CStruct Sqlite3_s), CPtr (CConst CChar), CPtr (CConst CChar), CPtr (CConst CChar), CPtr (CPtr (CConst CChar)), CPtr (CPtr (CConst CChar)), CPtr CInt, CPtr CInt, CPtr CInt]),
   (''load_extension'', CFun CInt [CPtr (CStruct Sqlite3_s), CPtr (CConst CChar), CPtr (CConst CChar), CPtr (CPtr CChar)])]"

definition api_auto_extension :: proto_table where
  "api_auto_extension =
  [(''auto_extension'', CFun CInt [CPtr (CFun CVoid [])]),
   (''cancel_auto_extension'', CFun CInt [CPtr (CFun CVoid [])]),
   (''reset_auto_extension'', CFun CVoid [])]"

definition api_create_module :: proto_table where
  "api_create_module =
  [(''create_module'', CFun CInt [CPtr (CStruct Sqlite3_s), CPtr (CConst CChar), CPtr (CConst (CStruct Sqlite3_module_s)), CPtr CVoid]),
   (''create_module_v2'', CFun CInt [CPtr (CStruct Sqlite3_s), CPtr (CConst CChar), CPtr (CConst (CStruct Sqlite3_module_s)), CPtr CVoid, CPtr (CFun CVoid [CPtr CVoid])]),
   (''drop_modules'', CFun CInt [CPtr (CStruct Sqlite3_s), CPtr (CPtr (CConst CChar))]),
   (''declare_vtab'', CFun CInt [CPtr (CStruct Sqlite3_s), CPtr (CConst CChar)]),
   (''overload_function'', CFun CInt [CPtr (CStruct Sqlite3_s), CPtr (CConst CChar), CInt])]"

definition api_blob_open :: proto_table where
  "api_blob_open =
  [(''blob_open'', CFun CInt [CPtr (CStruct Sqlite3_s), CPtr (CConst CChar), CPtr (CConst CChar), CPtr (CConst CChar), CTypedef Sqlite3_int64_t, CInt, CPtr (CPtr (CStruct Sqlite3_blob_s))]),
   (''blob_reopen'', CFun CInt [CPtr (CStruct Sqlite3_blob_s), CTypedef Sqlite3_int64_t]),
   (''blob_close'', CFun CInt [CPtr (CStruct Sqlite3_blob_s)])]"

definition api_blob_bytes :: proto_table where
  "api_blob_bytes =
  [(''blob_bytes'', CFun CInt [CPtr (CStruct Sqlite3_blob_s)]),
   (''blob_read'', CFun CInt [CPtr (CStruct Sqlite3_blob_s), CPtr CVoid, CInt, CInt]),
   (''blob_write'', CFun CInt [CPtr (CStruct Sqlite3_blob_s), CPtr (CConst CVoid), CInt, CInt]),
   (''vfs_find'', CFun (CPtr (CStruct Sqlite3_vfs_s)) [CPtr (CConst CChar)]),
   (''vfs_register'', CFun CInt [CPtr (CStruct Sqlite3_vfs_s), CInt]),
   (''vfs_unregister'', CFun CInt [CPtr (CStruct Sqlite3_vfs_s)])]"

definition api_mutex_alloc :: proto_table where
  "api_mutex_alloc =
  [(''mutex_alloc'', CFun (CPtr (CStruct Sqlite3_mutex_s)) [CInt]),
   (''mutex_free'', CFun CVoid [CPtr (CStruct Sqlite3_mutex_s)]),
   (''mutex_enter'', CFun CVoid [CPtr (CStruct Sqlite3_mutex_s)]),
   (''mutex_try'', CFun CInt [CPtr (CStruct Sqlite3_mutex_s)]),
   (''mutex_leave'', CFun CVoid [CPtr (CStruct Sqlite3_mutex_s)])]"

definition api_db_mutex :: proto_table where
  "api_db_mutex =
  [(''db_mutex'', CFun (CPtr (CStruct Sqlite3_mutex_s)) [CPtr (CStruct Sqlite3_s)]),
   (''file_control'', CFun CInt [CPtr (CStruct Sqlite3_s), CPtr (CConst CChar), CInt, CPtr CVoid]),
   (''test_control'', CFun CInt [CInt, CVariadic])]"

definition api_keyword_count :: proto_table where
  "api_keyword_count =
  [(''keyword_count'', CFun CInt []),
   (''keyword_name'', CFun CInt [CInt, CPtr (CPtr (CConst CChar)), CPtr CInt]),
   (''keyword_check'', CFun CInt [CPtr (CConst CChar), CInt]),
   (''str_new'', CFun (CPtr (CStruct Sqlite3_str_s)) [CPtr (CStruct Sqlite3_s)]),
   (''str_finish'', CFun (CPtr CChar) [CPtr (CStruct Sqlite3_str_s)]),
   (''str_appendf'', CFun CVoid [CPtr (CStruct Sqlite3_str_s), CPtr (CConst CChar), CVariadic]),
   (''str_vappendf'', CFun CVoid [CPtr (CStruct Sqlite3_str_s), CPtr (CConst CChar), CVaList]),
   (''str_append'', CFun CVoid [CPtr (CStruct Sqlite3_str_s), CPtr (CConst CChar), CInt]),
   (''str_appendall'', CFun CVoid [CPtr (CStruct Sqlite3_str_s), CPtr (CConst CChar)]),
   (''str_appendchar'', CFun CVoid [CPtr (CStruct Sqlite3_str_s), CInt, CChar]),
   (''str_reset'', CFun CVoid [CPtr (CStruct Sqlite3_str_s)])]"

definition api_str_errcode :: proto_table where
  "api_str_errcode =
  [(''str_errcode'', CFun CInt [CPtr (CStruct Sqlite3_str_s)]),
   (''str_length'', CFun CInt [CPtr (CStruct Sqlite3_str_s)]),
   (''str_value'', CFun (CPtr CChar) [CPtr (CStruct Sqlite3_str_s)]),
   (''status'', CFun CInt [CInt, CPtr CInt, CPtr CInt, CInt]),
   (''status64'', CFun CInt [CInt, CPtr (CTypedef Sqlite3_int64_t), CPtr (CTypedef Sqlite3_int64_t), CInt])]"

definition api_db_status :: proto_table where
  "api_db_status =
  [(''db_status'', CFun CInt [CPtr (CStruct Sqlite3_s), CInt, CPtr CInt, CPtr CInt, CInt])]"

definition api_stmt_status :: proto_table where
  "api_stmt_status =
  [(''stmt_status'', CFun CInt [CPtr (CStruct Sqlite3_stmt_s), CInt, CInt])]"

definition api_backup_init :: proto_table where
  "api_backup_init =
  [(''backup_init'', CFun (CPtr (CStruct Sqlite3_backup_s)) [CPtr (CStruct Sqlite3_s), CPtr (CConst CChar), CPtr (CStruct Sqlite3_s), CPtr (CConst CChar)]),
   (''backup_step'', CFun CInt [CPtr (CStruct Sqlite3_backup_s), CInt]),
   (''backup_finish'', CFun CInt [CPtr (CStruct Sqlite3_backup_s)]),
   (''backup_remaining'', CFun CInt [CPtr (CStruct Sqlite3_backup_s)]),
   (''backup_pagecount'', CFun CInt [CPtr (CStruct Sqlite3_backup_s)])]"

definition api_unlock_notify :: proto_table where
  "api_unlock_notify =
  [(''unlock_notify'', CFun CInt [CPtr (CStruct Sqlite3_s), CPtr (CFun CVoid [CPtr (CPtr CVoid), CInt]), CPtr CVoid]),
   (''stricmp'', CFun CInt [CPtr (CConst CChar), CPtr (CConst CChar)]),
   (''strnicmp'', CFun CInt [CPtr (CConst CChar), CPtr (CConst CChar), CInt]),
   (''strglob'', CFun CInt [CPtr (CConst CChar), CPtr (CConst CChar)])]"

definition api_strlike :: proto_table where
  "api_strlike =
  [(''strlike'', CFun CInt [CPtr (CConst CChar), CPtr (CConst CChar), CUInt]),
   (''log'', CFun CVoid [CInt, CPtr (CConst CChar), CVariadic]),
   (''wal_hook'', CFun (CPtr CVoid) [CPtr (CStruct Sqlite3_s), CPtr (CFun CInt [CPtr CVoid, CPtr (CStruct Sqlite3_s), CPtr (CConst CChar), CInt]), CPtr CVoid]),
   (''wal_autocheckpoint'', CFun CInt [CPtr (CStruct Sqlite3_s), CInt]),
   (''wal_checkpoint'', CFun CInt [CPtr (CStruct Sqlite3_s), CPtr (CConst CChar)])]"

definition api_wal_checkpoint_v2 :: proto_table where
  "api_wal_checkpoint_v2 =
  [(''wal_checkpoint_v2'', CFun CInt [CPtr (CStruct Sqlite3_s), CPtr (CConst CChar), CInt, CPtr CInt, CPtr CInt]),
   (''vtab_config'', CFun CInt [CPtr (CStruct Sqlite3_s), CInt, CVariadic])]"

definition api_vtab_on_conflict :: proto_table where
  "api_vtab_on_conflict =
  [(''vtab_on_conflict'', CFun CInt [CPtr (CStruct Sqlite3_s)]),
   (''vtab_nochange'', CFun CInt [CPtr (CStruct Sqlite3_context_s)]),
   (''vtab_collation'', CFun (CPtr (CConst CChar)) [CPtr (CStruct Sqlite3_index_info_s), CInt])]"

definition api_vtab_distinct :: proto_table where
  "api_vtab_distinct =
  [(''vtab_distinct'', CFun CInt [CPtr (CStruct Sqlite3_index_info_s)])]"

definition api_vtab_in :: proto_table where
  "api_vtab_in =
  [(''vtab_in'', CFun CInt [CPtr (CStruct Sqlite3_index_info_s), CInt, CInt]),
   (''vtab_in_first'', CFun CInt [CPtr (CStruct Sqlite3_value_s), CPtr (CPtr (CStruct Sqlite3_value_s))]),
   (''vtab_in_next'', CFun CInt [CPtr (CStruct Sqlite3_value_s), CPtr (CPtr (CStruct Sqlite3_value_s))])]"

definition api_vtab_rhs_value :: proto_table where
  "api_vtab_rhs_value =
  [(''vtab_rhs_value'', CFun CInt [CPtr (CStruct Sqlite3_index_info_s), CInt, CPtr (CPtr (CStruct Sqlite3_value_s))])]"

definition api_db_cacheflush :: proto_table where
  "api_db_cacheflush =
  [(''db_cacheflush'', CFun CInt [CPtr (CStruct Sqlite3_s)])]"

definition api_system_errno :: proto_table where
  "api_system_errno =
  [(''system_errno'', CFun CInt [CPtr (CStruct Sqlite3_s)])]"

definition api_serialize :: proto_table where
  "api_serialize =
  [(''serialize'', CFun (CPtr CUChar) [CPtr (CStruct Sqlite3_s), CPtr (CConst CChar), CPtr (CTypedef Sqlite3_int64_t), CUInt]),
   (''deserialize'', CFun CInt [CPtr (CStruct Sqlite3_s), CPtr (CConst CChar), CPtr CUChar, CTypedef Sqlite3_int64_t, CTypedef Sqlite3_int64_t, CUInt])]"

lemmas proto_defs =
  api_libversion_def
  api_close_def
  api_db_config_def
  api_extended_result_codes_def
  api_total_changes_def
  api_busy_handler_def
  api_get_table_def
  api_malloc_def
  api_set_authorizer_def
  api_trace_def
  api_progress_handler_def
  api_open_def
  api_uri_parameter_def
  api_create_filename_def
  api_limit_def
  api_prepare_def
  api_sql_def
  api_stmt_busy_def
  api_bind_blob_def
  api_bind_parameter_count_def
  api_column_database_name_def
  api_step_def
  api_column_blob_def
  api_finalize_def
  api_create_function_def
  api_aggregate_count_def
  api_value_blob_def
  api_value_encoding_def
  api_get_auxdata_def
  api_result_blob_def
  api_result_subtype_def
  api_collation_needed_def
  api_get_autocommit_def
  api_next_stmt_def
  api_update_hook_def
  api_soft_heap_limit64_def
  api_table_column_metadata_def
  api_auto_extension_def
  api_create_module_def
  api_blob_open_def
  api_blob_bytes_def
  api_mutex_alloc_def
  api_db_mutex_def
  api_keyword_count_def
  api_str_errcode_def
  api_db_status_def
  api_stmt_status_def
  api_backup_init_def
  api_unlock_notify_def
  api_strlike_def
  api_wal_checkpoint_v2_def
  api_vtab_on_conflict_def
  api_vtab_distinct_def
  api_vtab_in_def
  api_vtab_rhs_value_def
  api_db_cacheflush_def
  api_system_errno_def
  api_serialize_def

definition prototypes :: proto_table where
  "prototypes =
   api_libversion @
   api_close @
   api_db_config @
   api_extended_result_codes @
   api_total_changes @
   api_busy_handler @
   api_get_table @
   api_malloc @
   api_set_authorizer @
   api_trace @
   api_progress_handler @
   api_open @
   api_uri_parameter @
   api_create_filename @
   api_limit @
   api_prepare @
   api_sql @
   api_stmt_busy @
   api_bind_blob @
   api_bind_parameter_count @
   api_column_database_name @
   api_step @
   api_column_blob @
   api_finalize @
   api_create_function @
   api_aggregate_count @
   api_value_blob @
   api_value_encoding @
   api_get_auxdata @
   api_result_blob @
   api_result_subtype @
   api_collation_needed @
   api_get_autocommit @
   api_next_stmt @
   api_update_hook @
   api_soft_heap_limit64 @
   api_table_column_metadata @
   api_auto_extension @
   api_create_module @
   api_blob_open @
   api_blob_bytes @
   api_mutex_alloc @
   api_db_mutex @
   api_keyword_count @
   api_str_errcode @
   api_db_status @
   api_stmt_status @
   api_backup_init @
   api_unlock_notify @
   api_strlike @
   api_wal_checkpoint_v2 @
   api_vtab_on_conflict @
   api_vtab_distinct @
   api_vtab_in @
   api_vtab_rhs_value @
   api_db_cacheflush @
   api_system_errno @
   api_serialize"

end
