(* ===== verification/Sqlite_Ext.thy ===== *)
theory Sqlite_Ext
  imports Sqlite_Protos
begin

text \<open>
  The extension interface of \<open>src/sqlite3ext.h\<close>: the slots of the structure
  \<open>sqlite3_api_routines\<close>, in order, each a pointer to a function of the given type, and the
  macros that redirect the API names of an extension through the structure. An extension calls
  through these slots with the types the prototypes of \<open>sqlite3.h\<close> gave the names, so the two
  headers must agree; the theorems prove that they do.
\<close>

definition routines_1 :: proto_table where
  "routines_1 =
  [(''aggregate_context'', CPtr (CFun (CPtr CVoid) [CPtr (CStruct Sqlite3_context_s), CInt])),
   (''aggregate_count'', CPtr (CFun CInt [CPtr (CStruct Sqlite3_context_s)])),
   (''bind_blob'', CPtr (CFun CInt [CPtr (CStruct Sqlite3_stmt_s), CInt, CPtr (CConst CVoid), CInt, CPtr (CFun CVoid [CPtr CVoid])])),
   (''bind_double'', CPtr (CFun CInt [CPtr (CStruct Sqlite3_stmt_s), CInt, CDouble])),
   (''bind_int'', CPtr (CFun CInt [CPtr (CStruct Sqlite3_stmt_s), CInt, CInt])),
   (''bind_int64'', CPtr (CFun CInt [CPtr (CStruct Sqlite3_stmt_s), CInt, CTypedef Sqlite_int64_t])),
   (''bind_null'', CPtr (CFun CInt [CPtr (CStruct Sqlite3_stmt_s), CInt])),
   (''bind_parameter_count'', CPtr (CFun CInt [CPtr (CStruct Sqlite3_stmt_s)])),
   (''bind_parameter_index'', CPtr (CFun CInt [CPtr (CStruct Sqlite3_stmt_s), CPtr (CConst CChar)])),
   (''bind_parameter_name'', CPtr (CFun (CPtr (CConst CChar)) [CPtr (CStruct Sqlite3_stmt_s), CInt])),
   (''bind_text'', CPtr (CFun CInt [CPtr (CStruct Sqlite3_stmt_s), CInt, CPtr (CConst CChar), CInt, CPtr (CFun CVoid [CPtr CVoid])])),
   (''bind_text16'', CPtr (CFun CInt [CPtr (CStruct Sqlite3_stmt_s), CInt, CPtr (CConst CVoid), CInt, CPtr (CFun CVoid [CPtr CVoid])])),
   (''bind_value'', CPtr (CFun CInt [CPtr (CStruct Sqlite3_stmt_s), CInt, CPtr (CConst (CStruct Sqlite3_value_s))])),
   (''busy_handler'', CPtr (CFun CInt [CPtr (CStruct Sqlite3_s), CPtr (CFun CInt [CPtr CVoid, CInt]), CPtr CVoid])),
   (''busy_timeout'', CPtr (CFun CInt [CPtr (CStruct Sqlite3_s), CInt])),
   (''changes'', CPtr (CFun CInt [CPtr (CStruct Sqlite3_s)])),
   (''close'', CPtr (CFun CInt [CPtr (CStruct Sqlite3_s)])),
   (''collation_needed'', CPtr (CFun CInt [CPtr (CStruct Sqlite3_s), CPtr CVoid, CPtr (CFun CVoid [CPtr CVoid, CPtr (CStruct Sqlite3_s), CInt, CPtr (CConst CChar)])])),
   (''collation_needed16'', CPtr (CFun CInt [CPtr (CStruct Sqlite3_s), CPtr CVoid, CPtr (CFun CVoid [CPtr CVoid, CPtr (CStruct Sqlite3_s), CInt, CPtr (CConst CVoid)])])),
   (''column_blob'', CPtr (CFun (CPtr (CConst CVoid)) [CPtr (CStruct Sqlite3_stmt_s), CInt])),
   (''column_bytes'', CPtr (CFun CInt [CPtr (CStruct Sqlite3_stmt_s), CInt])),
   (''column_bytes16'', CPtr (CFun CInt [CPtr (CStruct Sqlite3_stmt_s), CInt])),
   (''column_count'', CPtr (CFun CInt [CPtr (CStruct Sqlite3_stmt_s)])),
   (''column_database_name'', CPtr (CFun (CPtr (CConst CChar)) [CPtr (CStruct Sqlite3_stmt_s), CInt]))]"

definition routines_2 :: proto_table where
  "routines_2 =
  [(''column_database_name16'', CPtr (CFun (CPtr (CConst CVoid)) [CPtr (CStruct Sqlite3_stmt_s), CInt])),
   (''column_decltype'', CPtr (CFun (CPtr (CConst CChar)) [CPtr (CStruct Sqlite3_stmt_s), CInt])),
   (''column_decltype16'', CPtr (CFun (CPtr (CConst CVoid)) [CPtr (CStruct Sqlite3_stmt_s), CInt])),
   (''column_double'', CPtr (CFun CDouble [CPtr (CStruct Sqlite3_stmt_s), CInt])),
   (''column_int'', CPtr (CFun CInt [CPtr (CStruct Sqlite3_stmt_s), CInt])),
   (''column_int64'', CPtr (CFun (CTypedef Sqlite_int64_t) [CPtr (CStruct Sqlite3_stmt_s), CInt])),
   (''column_name'', CPtr (CFun (CPtr (CConst CChar)) [CPtr (CStruct Sqlite3_stmt_s), CInt])),
   (''column_name16'', CPtr (CFun (CPtr (CConst CVoid)) [CPtr (CStruct Sqlite3_stmt_s), CInt])),
   (''column_origin_name'', CPtr (CFun (CPtr (CConst CChar)) [CPtr (CStruct Sqlite3_stmt_s), CInt])),
   (''column_origin_name16'', CPtr (CFun (CPtr (CConst CVoid)) [CPtr (CStruct Sqlite3_stmt_s), CInt])),
   (''column_table_name'', CPtr (CFun (CPtr (CConst CChar)) [CPtr (CStruct Sqlite3_stmt_s), CInt])),
   (''column_table_name16'', CPtr (CFun (CPtr (CConst CVoid)) [CPtr (CStruct Sqlite3_stmt_s), CInt])),
   (''column_text'', CPtr (CFun (CPtr (CConst CUChar)) [CPtr (CStruct Sqlite3_stmt_s), CInt])),
   (''column_text16'', CPtr (CFun (CPtr (CConst CVoid)) [CPtr (CStruct Sqlite3_stmt_s), CInt])),
   (''column_type'', CPtr (CFun CInt [CPtr (CStruct Sqlite3_stmt_s), CInt])),
   (''column_value'', CPtr (CFun (CPtr (CStruct Sqlite3_value_s)) [CPtr (CStruct Sqlite3_stmt_s), CInt])),
   (''commit_hook'', CPtr (CFun (CPtr CVoid) [CPtr (CStruct Sqlite3_s), CPtr (CFun CInt [CPtr CVoid]), CPtr CVoid])),
   (''complete'', CPtr (CFun CInt [CPtr (CConst CChar)])),
   (''complete16'', CPtr (CFun CInt [CPtr (CConst CVoid)])),
   (''create_collation'', CPtr (CFun CInt [CPtr (CStruct Sqlite3_s), CPtr (CConst CChar), CInt, CPtr CVoid, CPtr (CFun CInt [CPtr CVoid, CInt, CPtr (CConst CVoid), CInt, CPtr (CConst CVoid)])])),
   (''create_collation16'', CPtr (CFun CInt [CPtr (CStruct Sqlite3_s), CPtr (CConst CVoid), CInt, CPtr CVoid, CPtr (CFun CInt [CPtr CVoid, CInt, CPtr (CConst CVoid), CInt, CPtr (CConst CVoid)])]))]"

definition routines_3 :: proto_table where
  "routines_3 =
  [(''create_function'', CPtr (CFun CInt [CPtr (CStruct Sqlite3_s), CPtr (CConst CChar), CInt, CInt, CPtr CVoid, CPtr (CFun CVoid [CPtr (CStruct Sqlite3_context_s), CInt, CPtr (CPtr (CStruct Sqlite3_value_s))]), CPtr (CFun CVoid [CPtr (CStruct Sqlite3_context_s), CInt, CPtr (CPtr (CStruct Sqlite3_value_s))]), CPtr (CFun CVoid [CPtr (CStruct Sqlite3_context_s)])])),
   (''create_function16'', CPtr (CFun CInt [CPtr (CStruct Sqlite3_s), CPtr (CConst CVoid), CInt, CInt, CPtr CVoid, CPtr (CFun CVoid [CPtr (CStruct Sqlite3_context_s), CInt, CPtr (CPtr (CStruct Sqlite3_value_s))]), CPtr (CFun CVoid [CPtr (CStruct Sqlite3_context_s), CInt, CPtr (CPtr (CStruct Sqlite3_value_s))]), CPtr (CFun CVoid [CPtr (CStruct Sqlite3_context_s)])])),
   (''create_module'', CPtr (CFun CInt [CPtr (CStruct Sqlite3_s), CPtr (CConst CChar), CPtr (CConst (CStruct Sqlite3_module_s)), CPtr CVoid])),
   (''data_count'', CPtr (CFun CInt [CPtr (CStruct Sqlite3_stmt_s)])),
   (''db_handle'', CPtr (CFun (CPtr (CStruct Sqlite3_s)) [CPtr (CStruct Sqlite3_stmt_s)])),
   (''declare_vtab'', CPtr (CFun CInt [CPtr (CStruct Sqlite3_s), CPtr (CConst CChar)])),
   (''enable_shared_cache'', CPtr (CFun CInt [CInt])),
   (''errcode'', CPtr (CFun CInt [CPtr (CStruct Sqlite3_s)])),
   (''errmsg'', CPtr (CFun (CPtr (CConst CChar)) [CPtr (CStruct Sqlite3_s)])),
   (''errmsg16'', CPtr (CFun (CPtr (CConst CVoid)) [CPtr (CStruct Sqlite3_s)])),
   (''exec'', CPtr (CFun CInt [CPtr (CStruct Sqlite3_s), CPtr (CConst CChar), CTypedef Sqlite3_callback_t, CPtr CVoid, CPtr (CPtr CChar)])),
   (''expired'', CPtr (CFun CInt [CPtr (CStruct Sqlite3_stmt_s)])),
   (''finalize'', CPtr (CFun CInt [CPtr (CStruct Sqlite3_stmt_s)])),
   (''free'', CPtr (CFun CVoid [CPtr CVoid])),
   (''free_table'', CPtr (CFun CVoid [CPtr (CPtr CChar)])),
   (''get_autocommit'', CPtr (CFun CInt [CPtr (CStruct Sqlite3_s)])),
   (''get_auxdata'', CPtr (CFun (CPtr CVoid) [CPtr (CStruct Sqlite3_context_s), CInt])),
   (''get_table'', CPtr (CFun CInt [CPtr (CStruct Sqlite3_s), CPtr (CConst CChar), CPtr (CPtr (CPtr CChar)), CPtr CInt, CPtr CInt, CPtr (CPtr CChar)])),
   (''global_recover'', CPtr (CFun CInt [])),
   (''interruptx'', CPtr (CFun CVoid [CPtr (CStruct Sqlite3_s)]))]"

definition routines_4 :: proto_table where
  "routines_4 =
  [(''last_insert_rowid'', CPtr (CFun (CTypedef Sqlite_int64_t) [CPtr (CStruct Sqlite3_s)])),
   (''libversion'', CPtr (CFun (CPtr (CConst CChar)) [])),
   (''libversion_number'', CPtr (CFun CInt [])),
   (''malloc'', CPtr (CFun (CPtr CVoid) [CInt])),
   (''mprintf'', CPtr (CFun (CPtr CChar) [CPtr (CConst CChar), CVariadic])),
   (''open'', CPtr (CFun CInt [CPtr (CConst CChar), CPtr (CPtr (CStruct Sqlite3_s))])),
   (''open16'', CPtr (CFun CInt [CPtr (CConst CVoid), CPtr (CPtr (CStruct Sqlite3_s))])),
   (''prepare'', CPtr (CFun CInt [CPtr (CStruct Sqlite3_s), CPtr (CConst CChar), CInt, CPtr (CPtr (CStruct Sqlite3_stmt_s)), CPtr (CPtr (CConst CChar))])),
   (''prepare16'', CPtr (CFun CInt [CPtr (CStruct Sqlite3_s), CPtr (CConst CVoid), CInt, CPtr (CPtr (CStruct Sqlite3_stmt_s)), CPtr (CPtr (CConst CVoid))])),
   (''profile'', CPtr (CFun (CPtr CVoid) [CPtr (CStruct Sqlite3_s), CPtr (CFun CVoid [CPtr CVoid, CPtr (CConst CChar), CTypedef Sqlite_uint64_t]), CPtr CVoid])),
   (''progress_handler'', CPtr (CFun CVoid [CPtr (CStruct Sqlite3_s), CInt, CPtr (CFun CInt [CPtr CVoid]), CPtr CVoid])),
   (''realloc'', CPtr (CFun (CPtr CVoid) [CPtr CVoid, CInt])),
   (''reset'', CPtr (CFun CInt [CPtr (CStruct Sqlite3_stmt_s)])),
   (''result_blob'', CPtr (CFun CVoid [CPtr (CStruct Sqlite3_context_s), CPtr (CConst CVoid), CInt, CPtr (CFun CVoid [CPtr CVoid])])),
   (''result_double'', CPtr (CFun CVoid [CPtr (CStruct Sqlite3_context_s), CDouble])),
   (''result_error'', CPtr (CFun CVoid [CPtr (CStruct Sqlite3_context_s), CPtr (CConst CChar), CInt])),
   (''result_error16'', CPtr (CFun CVoid [CPtr (CStruct Sqlite3_context_s), CPtr (CConst CVoid), CInt])),
   (''result_int'', CPtr (CFun CVoid [CPtr (CStruct Sqlite3_context_s), CInt])),
   (''result_int64'', CPtr (CFun CVoid [CPtr (CStruct Sqlite3_context_s), CTypedef Sqlite_int64_t])),
   (''result_null'', CPtr (CFun CVoid [CPtr (CStruct Sqlite3_context_s)])),
   (''result_text'', CPtr (CFun CVoid [CPtr (CStruct Sqlite3_context_s), CPtr (CConst CChar), CInt, CPtr (CFun CVoid [CPtr CVoid])])),
   (''result_text16'', CPtr (CFun CVoid [CPtr (CStruct Sqlite3_context_s), CPtr (CConst CVoid), CInt, CPtr (CFun CVoid [CPtr CVoid])])),
   (''result_text16be'', CPtr (CFun CVoid [CPtr (CStruct Sqlite3_context_s), CPtr (CConst CVoid), CInt, CPtr (CFun CVoid [CPtr CVoid])])),
   (''result_text16le'', CPtr (CFun CVoid [CPtr (CStruct Sqlite3_context_s), CPtr (CConst CVoid), CInt, CPtr (CFun CVoid [CPtr CVoid])])),
   (''result_value'', CPtr (CFun CVoid [CPtr (CStruct Sqlite3_context_s), CPtr (CStruct Sqlite3_value_s)])),
   (''rollback_hook'', CPtr (CFun (CPtr CVoid) [CPtr (CStruct Sqlite3_s), CPtr (CFun CVoid [CPtr CVoid]), CPtr CVoid]))]"

definition routines_5 :: proto_table where
  "routines_5 =
  [(''set_authorizer'', CPtr (CFun CInt [CPtr (CStruct Sqlite3_s), CPtr (CFun CInt [CPtr CVoid, CInt, CPtr (CConst CChar), CPtr (CConst CChar), CPtr (CConst CChar), CPtr (CConst CChar)]), CPtr CVoid])),
   (''set_auxdata'', CPtr (CFun CVoid [CPtr (CStruct Sqlite3_context_s), CInt, CPtr CVoid, CPtr (CFun CVoid [CPtr CVoid])])),
   (''xsnprintf'', CPtr (CFun (CPtr CChar) [CInt, CPtr CChar, CPtr (CConst CChar), CVariadic])),
   (''step'', CPtr (CFun CInt [CPtr (CStruct Sqlite3_stmt_s)])),
   (''table_column_metadata'', CPtr (CFun CInt [CPtr (CStruct Sqlite3_s), CPtr (CConst CChar), CPtr (CConst CChar), CPtr (CConst CChar), CPtr (CPtr (CConst CChar)), CPtr (CPtr (CConst CChar)), CPtr CInt, CPtr CInt, CPtr CInt])),
   (''thread_cleanup'', CPtr (CFun CVoid [])),
   (''total_changes'', CPtr (CFun CInt [CPtr (CStruct Sqlite3_s)])),
   (''trace'', CPtr (CFun (CPtr CVoid) [CPtr (CStruct Sqlite3_s), CPtr (CFun CVoid [CPtr CVoid, CPtr (CConst CChar)]), CPtr CVoid])),
   (''transfer_bindings'', CPtr (CFun CInt [CPtr (CStruct Sqlite3_stmt_s), CPtr (CStruct Sqlite3_stmt_s)])),
   (''update_hook'', CPtr (CFun (CPtr CVoid) [CPtr (CStruct Sqlite3_s), CPtr (CFun CVoid [CPtr CVoid, CInt, CPtr (CConst CChar), CPtr (CConst CChar), CTypedef Sqlite_int64_t]), CPtr CVoid])),
   (''user_data'', CPtr (CFun (CPtr CVoid) [CPtr (CStruct Sqlite3_context_s)])),
   (''value_blob'', CPtr (CFun (CPtr (CConst CVoid)) [CPtr (CStruct Sqlite3_value_s)])),
   (''value_bytes'', CPtr (CFun CInt [CPtr (CStruct Sqlite3_value_s)])),
   (''value_bytes16'', CPtr (CFun CInt [CPtr (CStruct Sqlite3_value_s)])),
   (''value_double'', CPtr (CFun CDouble [CPtr (CStruct Sqlite3_value_s)])),
   (''value_int'', CPtr (CFun CInt [CPtr (CStruct Sqlite3_value_s)])),
   (''value_int64'', CPtr (CFun (CTypedef Sqlite_int64_t) [CPtr (CStruct Sqlite3_value_s)])),
   (''value_numeric_type'', CPtr (CFun CInt [CPtr (CStruct Sqlite3_value_s)])),
   (''value_text'', CPtr (CFun (CPtr (CConst CUChar)) [CPtr (CStruct Sqlite3_value_s)])),
   (''value_text16'', CPtr (CFun (CPtr (CConst CVoid)) [CPtr (CStruct Sqlite3_value_s)])),
   (''value_text16be'', CPtr (CFun (CPtr (CConst CVoid)) [CPtr (CStruct Sqlite3_value_s)])),
   (''value_text16le'', CPtr (CFun (CPtr (CConst CVoid)) [CPtr (CStruct Sqlite3_value_s)])),
   (''value_type'', CPtr (CFun CInt [CPtr (CStruct Sqlite3_value_s)]))]"

definition routines_6 :: proto_table where
  "routines_6 =
  [(''vmprintf'', CPtr (CFun (CPtr CChar) [CPtr (CConst CChar), CVaList])),
   (''overload_function'', CPtr (CFun CInt [CPtr (CStruct Sqlite3_s), CPtr (CConst CChar), CInt])),
   (''prepare_v2'', CPtr (CFun CInt [CPtr (CStruct Sqlite3_s), CPtr (CConst CChar), CInt, CPtr (CPtr (CStruct Sqlite3_stmt_s)), CPtr (CPtr (CConst CChar))])),
   (''prepare16_v2'', CPtr (CFun CInt [CPtr (CStruct Sqlite3_s), CPtr (CConst CVoid), CInt, CPtr (CPtr (CStruct Sqlite3_stmt_s)), CPtr (CPtr (CConst CVoid))])),
   (''clear_bindings'', CPtr (CFun CInt [CPtr (CStruct Sqlite3_stmt_s)])),
   (''create_module_v2'', CPtr (CFun CInt [CPtr (CStruct Sqlite3_s), CPtr (CConst CChar), CPtr (CConst (CStruct Sqlite3_module_s)), CPtr CVoid, CPtr (CFun CVoid [CPtr CVoid])])),
   (''bind_zeroblob'', CPtr (CFun CInt [CPtr (CStruct Sqlite3_stmt_s), CInt, CInt])),
   (''blob_bytes'', CPtr (CFun CInt [CPtr (CStruct Sqlite3_blob_s)])),
   (''blob_close'', CPtr (CFun CInt [CPtr (CStruct Sqlite3_blob_s)])),
   (''blob_open'', CPtr (CFun CInt [CPtr (CStruct Sqlite3_s), CPtr (CConst CChar), CPtr (CConst CChar), CPtr (CConst CChar), CTypedef Sqlite3_int64_t, CInt, CPtr (CPtr (CStruct Sqlite3_blob_s))])),
   (''blob_read'', CPtr (CFun CInt [CPtr (CStruct Sqlite3_blob_s), CPtr CVoid, CInt, CInt])),
   (''blob_write'', CPtr (CFun CInt [CPtr (CStruct Sqlite3_blob_s), CPtr (CConst CVoid), CInt, CInt])),
   (''create_collation_v2'', CPtr (CFun CInt [CPtr (CStruct Sqlite3_s), CPtr (CConst CChar), CInt, CPtr CVoid, CPtr (CFun CInt [CPtr CVoid, CInt, CPtr (CConst CVoid), CInt, CPtr (CConst CVoid)]), CPtr (CFun CVoid [CPtr CVoid])])),
   (''file_control'', CPtr (CFun CInt [CPtr (CStruct Sqlite3_s), CPtr (CConst CChar), CInt, CPtr CVoid])),
   (''memory_highwater'', CPtr (CFun (CTypedef Sqlite3_int64_t) [CInt])),
   (''memory_used'', CPtr (CFun (CTypedef Sqlite3_int64_t) [])),
   (''mutex_alloc'', CPtr (CFun (CPtr (CStruct Sqlite3_mutex_s)) [CInt])),
   (''mutex_enter'', CPtr (CFun CVoid [CPtr (CStruct Sqlite3_mutex_s)]))]"

definition routines_7 :: proto_table where
  "routines_7 =
  [(''mutex_free'', CPtr (CFun CVoid [CPtr (CStruct Sqlite3_mutex_s)])),
   (''mutex_leave'', CPtr (CFun CVoid [CPtr (CStruct Sqlite3_mutex_s)])),
   (''mutex_try'', CPtr (CFun CInt [CPtr (CStruct Sqlite3_mutex_s)])),
   (''open_v2'', CPtr (CFun CInt [CPtr (CConst CChar), CPtr (CPtr (CStruct Sqlite3_s)), CInt, CPtr (CConst CChar)])),
   (''release_memory'', CPtr (CFun CInt [CInt])),
   (''result_error_nomem'', CPtr (CFun CVoid [CPtr (CStruct Sqlite3_context_s)])),
   (''result_error_toobig'', CPtr (CFun CVoid [CPtr (CStruct Sqlite3_context_s)])),
   (''sleep'', CPtr (CFun CInt [CInt])),
   (''soft_heap_limit'', CPtr (CFun CVoid [CInt])),
   (''vfs_find'', CPtr (CFun (CPtr (CStruct Sqlite3_vfs_s)) [CPtr (CConst CChar)])),
   (''vfs_register'', CPtr (CFun CInt [CPtr (CStruct Sqlite3_vfs_s), CInt])),
   (''vfs_unregister'', CPtr (CFun CInt [CPtr (CStruct Sqlite3_vfs_s)])),
   (''xthreadsafe'', CPtr (CFun CInt [])),
   (''result_zeroblob'', CPtr (CFun CVoid [CPtr (CStruct Sqlite3_context_s), CInt])),
   (''result_error_code'', CPtr (CFun CVoid [CPtr (CStruct Sqlite3_context_s), CInt])),
   (''test_control'', CPtr (CFun CInt [CInt, CVariadic])),
   (''randomness'', CPtr (CFun CVoid [CInt, CPtr CVoid])),
   (''context_db_handle'', CPtr (CFun (CPtr (CStruct Sqlite3_s)) [CPtr (CStruct Sqlite3_context_s)])),
   (''extended_result_codes'', CPtr (CFun CInt [CPtr (CStruct Sqlite3_s), CInt])),
   (''limit'', CPtr (CFun CInt [CPtr (CStruct Sqlite3_s), CInt, CInt])),
   (''next_stmt'', CPtr (CFun (CPtr (CStruct Sqlite3_stmt_s)) [CPtr (CStruct Sqlite3_s), CPtr (CStruct Sqlite3_stmt_s)])),
   (''sql'', CPtr (CFun (CPtr (CConst CChar)) [CPtr (CStruct Sqlite3_stmt_s)])),
   (''status'', CPtr (CFun CInt [CInt, CPtr CInt, CPtr CInt, CInt])),
   (''backup_finish'', CPtr (CFun CInt [CPtr (CStruct Sqlite3_backup_s)])),
   (''backup_init'', CPtr (CFun (CPtr (CStruct Sqlite3_backup_s)) [CPtr (CStruct Sqlite3_s), CPtr (CConst CChar), CPtr (CStruct Sqlite3_s), CPtr (CConst CChar)])),
   (''backup_pagecount'', CPtr (CFun CInt [CPtr (CStruct Sqlite3_backup_s)]))]"

definition routines_8 :: proto_table where
  "routines_8 =
  [(''backup_remaining'', CPtr (CFun CInt [CPtr (CStruct Sqlite3_backup_s)])),
   (''backup_step'', CPtr (CFun CInt [CPtr (CStruct Sqlite3_backup_s), CInt])),
   (''compileoption_get'', CPtr (CFun (CPtr (CConst CChar)) [CInt])),
   (''compileoption_used'', CPtr (CFun CInt [CPtr (CConst CChar)])),
   (''create_function_v2'', CPtr (CFun CInt [CPtr (CStruct Sqlite3_s), CPtr (CConst CChar), CInt, CInt, CPtr CVoid, CPtr (CFun CVoid [CPtr (CStruct Sqlite3_context_s), CInt, CPtr (CPtr (CStruct Sqlite3_value_s))]), CPtr (CFun CVoid [CPtr (CStruct Sqlite3_context_s), CInt, CPtr (CPtr (CStruct Sqlite3_value_s))]), CPtr (CFun CVoid [CPtr (CStruct Sqlite3_context_s)]), CPtr (CFun CVoid [CPtr CVoid])])),
   (''db_config'', CPtr (CFun CInt [CPtr (CStruct Sqlite3_s), CInt, CVariadic])),
   (''db_mutex'', CPtr (CFun (CPtr (CStruct Sqlite3_mutex_s)) [CPtr (CStruct Sqlite3_s)])),
   (''db_status'', CPtr (CFun CInt [CPtr (CStruct Sqlite3_s), CInt, CPtr CInt, CPtr CInt, CInt])),
   (''extended_errcode'', CPtr (CFun CInt [CPtr (CStruct Sqlite3_s)])),
   (''log'', CPtr (CFun CVoid [CInt, CPtr (CConst CChar), CVariadic])),
   (''soft_heap_limit64'', CPtr (CFun (CTypedef Sqlite3_int64_t) [CTypedef Sqlite3_int64_t])),
   (''sourceid'', CPtr (CFun (CPtr (CConst CChar)) [])),
   (''stmt_status'', CPtr (CFun CInt [CPtr (CStruct Sqlite3_stmt_s), CInt, CInt])),
   (''strnicmp'', CPtr (CFun CInt [CPtr (CConst CChar), CPtr (CConst CChar), CInt])),
   (''unlock_notify'', CPtr (CFun CInt [CPtr (CStruct Sqlite3_s), CPtr (CFun CVoid [CPtr (CPtr CVoid), CInt]), CPtr CVoid])),
   (''wal_autocheckpoint'', CPtr (CFun CInt [CPtr (CStruct Sqlite3_s), CInt])),
   (''wal_checkpoint'', CPtr (CFun CInt [CPtr (CStruct Sqlite3_s), CPtr (CConst CChar)])),
   (''wal_hook'', CPtr (CFun (CPtr CVoid) [CPtr (CStruct Sqlite3_s), CPtr (CFun CInt [CPtr CVoid, CPtr (CStruct Sqlite3_s), CPtr (CConst CChar), CInt]), CPtr CVoid])),
   (''blob_reopen'', CPtr (CFun CInt [CPtr (CStruct Sqlite3_blob_s), CTypedef Sqlite3_int64_t])),
   (''vtab_config'', CPtr (CFun CInt [CPtr (CStruct Sqlite3_s), CInt, CVariadic])),
   (''vtab_on_conflict'', CPtr (CFun CInt [CPtr (CStruct Sqlite3_s)]))]"

definition routines_9 :: proto_table where
  "routines_9 =
  [(''close_v2'', CPtr (CFun CInt [CPtr (CStruct Sqlite3_s)])),
   (''db_filename'', CPtr (CFun (CPtr (CConst CChar)) [CPtr (CStruct Sqlite3_s), CPtr (CConst CChar)])),
   (''db_readonly'', CPtr (CFun CInt [CPtr (CStruct Sqlite3_s), CPtr (CConst CChar)])),
   (''db_release_memory'', CPtr (CFun CInt [CPtr (CStruct Sqlite3_s)])),
   (''errstr'', CPtr (CFun (CPtr (CConst CChar)) [CInt])),
   (''stmt_busy'', CPtr (CFun CInt [CPtr (CStruct Sqlite3_stmt_s)])),
   (''stmt_readonly'', CPtr (CFun CInt [CPtr (CStruct Sqlite3_stmt_s)])),
   (''stricmp'', CPtr (CFun CInt [CPtr (CConst CChar), CPtr (CConst CChar)])),
   (''uri_boolean'', CPtr (CFun CInt [CPtr (CConst CChar), CPtr (CConst CChar), CInt])),
   (''uri_int64'', CPtr (CFun (CTypedef Sqlite3_int64_t) [CPtr (CConst CChar), CPtr (CConst CChar), CTypedef Sqlite3_int64_t])),
   (''uri_parameter'', CPtr (CFun (CPtr (CConst CChar)) [CPtr (CConst CChar), CPtr (CConst CChar)])),
   (''xvsnprintf'', CPtr (CFun (CPtr CChar) [CInt, CPtr CChar, CPtr (CConst CChar), CVaList])),
   (''wal_checkpoint_v2'', CPtr (CFun CInt [CPtr (CStruct Sqlite3_s), CPtr (CConst CChar), CInt, CPtr CInt, CPtr CInt])),
   (''auto_extension'', CPtr (CFun CInt [CPtr (CFun CVoid [])])),
   (''bind_blob64'', CPtr (CFun CInt [CPtr (CStruct Sqlite3_stmt_s), CInt, CPtr (CConst CVoid), CTypedef Sqlite3_uint64_t, CPtr (CFun CVoid [CPtr CVoid])])),
   (''bind_text64'', CPtr (CFun CInt [CPtr (CStruct Sqlite3_stmt_s), CInt, CPtr (CConst CChar), CTypedef Sqlite3_uint64_t, CPtr (CFun CVoid [CPtr CVoid]), CUChar])),
   (''cancel_auto_extension'', CPtr (CFun CInt [CPtr (CFun CVoid [])])),
   (''load_extension'', CPtr (CFun CInt [CPtr (CStruct Sqlite3_s), CPtr (CConst CChar), CPtr (CConst CChar), CPtr (CPtr CChar)])),
   (''malloc64'', CPtr (CFun (CPtr CVoid) [CTypedef Sqlite3_uint64_t])),
   (''msize'', CPtr (CFun (CTypedef Sqlite3_uint64_t) [CPtr CVoid])),
   (''realloc64'', CPtr (CFun (CPtr CVoid) [CPtr CVoid, CTypedef Sqlite3_uint64_t])),
   (''reset_auto_extension'', CPtr (CFun CVoid []))]"

definition routines_10 :: proto_table where
  "routines_10 =
  [(''result_blob64'', CPtr (CFun CVoid [CPtr (CStruct Sqlite3_context_s), CPtr (CConst CVoid), CTypedef Sqlite3_uint64_t, CPtr (CFun CVoid [CPtr CVoid])])),
   (''result_text64'', CPtr (CFun CVoid [CPtr (CStruct Sqlite3_context_s), CPtr (CConst CChar), CTypedef Sqlite3_uint64_t, CPtr (CFun CVoid [CPtr CVoid]), CUChar])),
   (''strglob'', CPtr (CFun CInt [CPtr (CConst CChar), CPtr (CConst CChar)])),
   (''value_dup'', CPtr (CFun (CPtr (CStruct Sqlite3_value_s)) [CPtr (CConst (CStruct Sqlite3_value_s))])),
   (''value_free'', CPtr (CFun CVoid [CPtr (CStruct Sqlite3_value_s)])),
   (''result_zeroblob64'', CPtr (CFun CInt [CPtr (CStruct Sqlite3_context_s), CTypedef Sqlite3_uint64_t])),
   (''bind_zeroblob64'', CPtr (CFun CInt [CPtr (CStruct Sqlite3_stmt_s), CInt, CTypedef Sqlite3_uint64_t])),
   (''value_subtype'', CPtr (CFun CUInt [CPtr (CStruct Sqlite3_value_s)])),
   (''result_subtype'', CPtr (CFun CVoid [CPtr (CStruct Sqlite3_context_s), CUInt])),
   (''status64'', CPtr (CFun CInt [CInt, CPtr (CTypedef Sqlite3_int64_t), CPtr (CTypedef Sqlite3_int64_t), CInt])),
   (''strlike'', CPtr (CFun CInt [CPtr (CConst CChar), CPtr (CConst CChar), CUInt])),
   (''db_cacheflush'', CPtr (CFun CInt [CPtr (CStruct Sqlite3_s)])),
   (''system_errno'', CPtr (CFun CInt [CPtr (CStruct Sqlite3_s)])),
   (''trace_v2'', CPtr (CFun CInt [CPtr (CStruct Sqlite3_s), CUInt, CPtr (CFun CInt [CUInt, CPtr CVoid, CPtr CVoid, CPtr CVoid]), CPtr CVoid])),
   (''expanded_sql'', CPtr (CFun (CPtr CChar) [CPtr (CStruct Sqlite3_stmt_s)])),
   (''set_last_insert_rowid'', CPtr (CFun CVoid [CPtr (CStruct Sqlite3_s), CTypedef Sqlite3_int64_t]))]"

definition routines_11 :: proto_table where
  "routines_11 =
  [(''prepare_v3'', CPtr (CFun CInt [CPtr (CStruct Sqlite3_s), CPtr (CConst CChar), CInt, CUInt, CPtr (CPtr (CStruct Sqlite3_stmt_s)), CPtr (CPtr (CConst CChar))])),
   (''prepare16_v3'', CPtr (CFun CInt [CPtr (CStruct Sqlite3_s), CPtr (CConst CVoid), CInt, CUInt, CPtr (CPtr (CStruct Sqlite3_stmt_s)), CPtr (CPtr (CConst CVoid))])),
   (''bind_pointer'', CPtr (CFun CInt [CPtr (CStruct Sqlite3_stmt_s), CInt, CPtr CVoid, CPtr (CConst CChar), CPtr (CFun CVoid [CPtr CVoid])])),
   (''result_pointer'', CPtr (CFun CVoid [CPtr (CStruct Sqlite3_context_s), CPtr CVoid, CPtr (CConst CChar), CPtr (CFun CVoid [CPtr CVoid])])),
   (''value_pointer'', CPtr (CFun (CPtr CVoid) [CPtr (CStruct Sqlite3_value_s), CPtr (CConst CChar)])),
   (''vtab_nochange'', CPtr (CFun CInt [CPtr (CStruct Sqlite3_context_s)])),
   (''value_nochange'', CPtr (CFun CInt [CPtr (CStruct Sqlite3_value_s)])),
   (''vtab_collation'', CPtr (CFun (CPtr (CConst CChar)) [CPtr (CStruct Sqlite3_index_info_s), CInt])),
   (''keyword_count'', CPtr (CFun CInt [])),
   (''keyword_name'', CPtr (CFun CInt [CInt, CPtr (CPtr (CConst CChar)), CPtr CInt])),
   (''keyword_check'', CPtr (CFun CInt [CPtr (CConst CChar), CInt])),
   (''str_new'', CPtr (CFun (CPtr (CStruct Sqlite3_str_s)) [CPtr (CStruct Sqlite3_s)])),
   (''str_finish'', CPtr (CFun (CPtr CChar) [CPtr (CStruct Sqlite3_str_s)])),
   (''str_appendf'', CPtr (CFun CVoid [CPtr (CStruct Sqlite3_str_s), CPtr (CConst CChar), CVariadic])),
   (''str_vappendf'', CPtr (CFun CVoid [CPtr (CStruct Sqlite3_str_s), CPtr (CConst CChar), CVaList])),
   (''str_append'', CPtr (CFun CVoid [CPtr (CStruct Sqlite3_str_s), CPtr (CConst CChar), CInt])),
   (''str_appendall'', CPtr (CFun CVoid [CPtr (CStruct Sqlite3_str_s), CPtr (CConst CChar)])),
   (''str_appendchar'', CPtr (CFun CVoid [CPtr (CStruct Sqlite3_str_s), CInt, CChar])),
   (''str_reset'', CPtr (CFun CVoid [CPtr (CStruct Sqlite3_str_s)])),
   (''str_errcode'', CPtr (CFun CInt [CPtr (CStruct Sqlite3_str_s)])),
   (''str_length'', CPtr (CFun CInt [CPtr (CStruct Sqlite3_str_s)])),
   (''str_value'', CPtr (CFun (CPtr CChar) [CPtr (CStruct Sqlite3_str_s)]))]"

definition routines_12 :: proto_table where
  "routines_12 =
  [(''create_window_function'', CPtr (CFun CInt [CPtr (CStruct Sqlite3_s), CPtr (CConst CChar), CInt, CInt, CPtr CVoid, CPtr (CFun CVoid [CPtr (CStruct Sqlite3_context_s), CInt, CPtr (CPtr (CStruct Sqlite3_value_s))]), CPtr (CFun CVoid [CPtr (CStruct Sqlite3_context_s)]), CPtr (CFun CVoid [CPtr (CStruct Sqlite3_context_s)]), CPtr (CFun CVoid [CPtr (CStruct Sqlite3_context_s), CInt, CPtr (CPtr (CStruct Sqlite3_value_s))]), CPtr (CFun CVoid [CPtr CVoid])])),
   (''normalized_sql'', CPtr (CFun (CPtr (CConst CChar)) [CPtr (CStruct Sqlite3_stmt_s)])),
   (''stmt_isexplain'', CPtr (CFun CInt [CPtr (CStruct Sqlite3_stmt_s)])),
   (''value_frombind'', CPtr (CFun CInt [CPtr (CStruct Sqlite3_value_s)])),
   (''drop_modules'', CPtr (CFun CInt [CPtr (CStruct Sqlite3_s), CPtr (CPtr (CConst CChar))])),
   (''hard_heap_limit64'', CPtr (CFun (CTypedef Sqlite3_int64_t) [CTypedef Sqlite3_int64_t])),
   (''uri_key'', CPtr (CFun (CPtr (CConst CChar)) [CPtr (CConst CChar), CInt])),
   (''filename_database'', CPtr (CFun (CPtr (CConst CChar)) [CPtr (CConst CChar)])),
   (''filename_journal'', CPtr (CFun (CPtr (CConst CChar)) [CPtr (CConst CChar)])),
   (''filename_wal'', CPtr (CFun (CPtr (CConst CChar)) [CPtr (CConst CChar)])),
   (''create_filename'', CPtr (CFun (CPtr (CConst CChar)) [CPtr (CConst CChar), CPtr (CConst CChar), CPtr (CConst CChar), CInt, CPtr (CPtr (CConst CChar))])),
   (''free_filename'', CPtr (CFun CVoid [CPtr (CConst CChar)])),
   (''database_file_object'', CPtr (CFun (CPtr (CStruct Sqlite3_file_s)) [CPtr (CConst CChar)])),
   (''txn_state'', CPtr (CFun CInt [CPtr (CStruct Sqlite3_s), CPtr (CConst CChar)]))]"

definition routines_13 :: proto_table where
  "routines_13 =
  [(''changes64'', CPtr (CFun (CTypedef Sqlite3_int64_t) [CPtr (CStruct Sqlite3_s)])),
   (''total_changes64'', CPtr (CFun (CTypedef Sqlite3_int64_t) [CPtr (CStruct Sqlite3_s)])),
   (''autovacuum_pages'', CPtr (CFun CInt [CPtr (CStruct Sqlite3_s), CPtr (CFun CUInt [CPtr CVoid, CPtr (CConst CChar), CUInt, CUInt, CUInt]), CPtr CVoid, CPtr (CFun CVoid [CPtr CVoid])])),
   (''error_offset'', CPtr (CFun CInt [CPtr (CStruct Sqlite3_s)])),
   (''vtab_rhs_value'', CPtr (CFun CInt [CPtr (CStruct Sqlite3_index_info_s), CInt, CPtr (CPtr (CStruct Sqlite3_value_s))])),
   (''vtab_distinct'', CPtr (CFun CInt [CPtr (CStruct Sqlite3_index_info_s)])),
   (''vtab_in'', CPtr (CFun CInt [CPtr (CStruct Sqlite3_index_info_s), CInt, CInt])),
   (''vtab_in_first'', CPtr (CFun CInt [CPtr (CStruct Sqlite3_value_s), CPtr (CPtr (CStruct Sqlite3_value_s))])),
   (''vtab_in_next'', CPtr (CFun CInt [CPtr (CStruct Sqlite3_value_s), CPtr (CPtr (CStruct Sqlite3_value_s))])),
   (''deserialize'', CPtr (CFun CInt [CPtr (CStruct Sqlite3_s), CPtr (CConst CChar), CPtr CUChar, CTypedef Sqlite3_int64_t, CTypedef Sqlite3_int64_t, CUInt])),
   (''serialize'', CPtr (CFun (CPtr CUChar) [CPtr (CStruct Sqlite3_s), CPtr (CConst CChar), CPtr (CTypedef Sqlite3_int64_t), CUInt])),
   (''db_name'', CPtr (CFun (CPtr (CConst CChar)) [CPtr (CStruct Sqlite3_s), CInt])),
   (''value_encoding'', CPtr (CFun CInt [CPtr (CStruct Sqlite3_value_s)])),
   (''is_interrupted'', CPtr (CFun CInt [CPtr (CStruct Sqlite3_s)])),
   (''stmt_explain'', CPtr (CFun CInt [CPtr (CStruct Sqlite3_stmt_s), CInt]))]"

definition routines_14 :: proto_table where
  "routines_14 =
  [(''get_clientdata'', CPtr (CFun (CPtr CVoid) [CPtr (CStruct Sqlite3_s), CPtr (CConst CChar)])),
   (''set_clientdata'', CPtr (CFun CInt [CPtr (CStruct Sqlite3_s), CPtr (CConst CChar), CPtr CVoid, CPtr (CFun CVoid [CPtr CVoid])])),
   (''setlk_timeout'', CPtr (CFun CInt [CPtr (CStruct Sqlite3_s), CInt, CInt]))]"

definition api_routines :: proto_table where
  "api_routines = routines_1 @ routines_2 @ routines_3 @ routines_4 @ routines_5 @ routines_6 @ routines_7 @ routines_8 @ routines_9 @ routines_10 @ routines_11 @ routines_12 @ routines_13 @ routines_14"

text \<open>The redirections, as pairs of the API name without its prefix and the slot.\<close>

definition redirects_1 :: "(string \<times> string) list" where
  "redirects_1 =
  [(''aggregate_context'', ''aggregate_context''),
   (''aggregate_count'', ''aggregate_count''),
   (''bind_blob'', ''bind_blob''),
   (''bind_double'', ''bind_double''),
   (''bind_int'', ''bind_int''),
   (''bind_int64'', ''bind_int64''),
   (''bind_null'', ''bind_null''),
   (''bind_parameter_count'', ''bind_parameter_count''),
   (''bind_parameter_index'', ''bind_parameter_index''),
   (''bind_parameter_name'', ''bind_parameter_name''),
   (''bind_text'', ''bind_text''),
   (''bind_text16'', ''bind_text16''),
   (''bind_value'', ''bind_value''),
   (''busy_handler'', ''busy_handler''),
   (''busy_timeout'', ''busy_timeout''),
   (''changes'', ''changes''),
   (''close'', ''close''),
   (''collation_needed'', ''collation_needed''),
   (''collation_needed16'', ''collation_needed16''),
   (''column_blob'', ''column_blob''),
   (''column_bytes'', ''column_bytes''),
   (''column_bytes16'', ''column_bytes16''),
   (''column_count'', ''column_count''),
   (''column_database_name'', ''column_database_name''),
   (''column_database_name16'', ''column_database_name16''),
   (''column_decltype'', ''column_decltype''),
   (''column_decltype16'', ''column_decltype16''),
   (''column_double'', ''column_double''),
   (''column_int'', ''column_int''),
   (''column_int64'', ''column_int64''),
   (''column_name'', ''column_name''),
   (''column_name16'', ''column_name16''),
   (''column_origin_name'', ''column_origin_name''),
   (''column_origin_name16'', ''column_origin_name16''),
   (''column_table_name'', ''column_table_name''),
   (''column_table_name16'', ''column_table_name16''),
   (''column_text'', ''column_text''),
   (''column_text16'', ''column_text16''),
   (''column_type'', ''column_type''),
   (''column_value'', ''column_value''),
   (''commit_hook'', ''commit_hook''),
   (''complete'', ''complete''),
   (''complete16'', ''complete16''),
   (''create_collation'', ''create_collation''),
   (''create_collation16'', ''create_collation16''),
   (''create_function'', ''create_function''),
   (''create_function16'', ''create_function16''),
   (''create_module'', ''create_module''),
   (''create_module_v2'', ''create_module_v2''),
   (''data_count'', ''data_count''),
   (''db_handle'', ''db_handle''),
   (''declare_vtab'', ''declare_vtab''),
   (''enable_shared_cache'', ''enable_shared_cache''),
   (''errcode'', ''errcode''),
   (''errmsg'', ''errmsg''),
   (''errmsg16'', ''errmsg16''),
   (''exec'', ''exec''),
   (''expired'', ''expired''),
   (''finalize'', ''finalize''),
   (''free'', ''free''),
   (''free_table'', ''free_table''),
   (''get_autocommit'', ''get_autocommit''),
   (''get_auxdata'', ''get_auxdata''),
   (''get_table'', ''get_table''),
   (''global_recover'', ''global_recover''),
   (''interrupt'', ''interruptx''),
   (''last_insert_rowid'', ''last_insert_rowid''),
   (''libversion'', ''libversion''),
   (''libversion_number'', ''libversion_number''),
   (''malloc'', ''malloc''),
   (''mprintf'', ''mprintf''),
   (''open'', ''open''),
   (''open16'', ''open16''),
   (''prepare'', ''prepare''),
   (''prepare16'', ''prepare16''),
   (''prepare_v2'', ''prepare_v2''),
   (''prepare16_v2'', ''prepare16_v2''),
   (''profile'', ''profile''),
   (''progress_handler'', ''progress_handler''),
   (''realloc'', ''realloc''),
   (''reset'', ''reset''),
   (''result_blob'', ''result_blob''),
   (''result_double'', ''result_double''),
   (''result_error'', ''result_error''),
   (''result_error16'', ''result_error16''),
   (''result_int'', ''result_int''),
   (''result_int64'', ''result_int64''),
   (''result_null'', ''result_null''),
   (''result_text'', ''result_text''),
   (''result_text16'', ''result_text16''),
   (''result_text16be'', ''result_text16be''),
   (''result_text16le'', ''result_text16le''),
   (''result_value'', ''result_value''),
   (''rollback_hook'', ''rollback_hook''),
   (''set_authorizer'', ''set_authorizer''),
   (''set_auxdata'', ''set_auxdata''),
   (''snprintf'', ''xsnprintf''),
   (''step'', ''step''),
   (''table_column_metadata'', ''table_column_metadata''),
   (''thread_cleanup'', ''thread_cleanup''),
   (''total_changes'', ''total_changes''),
   (''trace'', ''trace''),
   (''transfer_bindings'', ''transfer_bindings''),
   (''update_hook'', ''update_hook''),
   (''user_data'', ''user_data''),
   (''value_blob'', ''value_blob''),
   (''value_bytes'', ''value_bytes''),
   (''value_bytes16'', ''value_bytes16''),
   (''value_double'', ''value_double''),
   (''value_int'', ''value_int''),
   (''value_int64'', ''value_int64''),
   (''value_numeric_type'', ''value_numeric_type''),
   (''value_text'', ''value_text''),
   (''value_text16'', ''value_text16''),
   (''value_text16be'', ''value_text16be''),
   (''value_text16le'', ''value_text16le''),
   (''value_type'', ''value_type''),
   (''vmprintf'', ''vmprintf''),
   (''vsnprintf'', ''xvsnprintf''),
   (''overload_function'', ''overload_function''),
   (''prepare_v2'', ''prepare_v2''),
   (''prepare16_v2'', ''prepare16_v2''),
   (''clear_bindings'', ''clear_bindings''),
   (''bind_zeroblob'', ''bind_zeroblob''),
   (''blob_bytes'', ''blob_bytes''),
   (''blob_close'', ''blob_close''),
   (''blob_open'', ''blob_open''),
   (''blob_read'', ''blob_read''),
   (''blob_write'', ''blob_write''),
   (''create_collation_v2'', ''create_collation_v2''),
   (''file_control'', ''file_control''),
   (''memory_highwater'', ''memory_highwater''),
   (''memory_used'', ''memory_used''),
   (''mutex_alloc'', ''mutex_alloc''),
   (''mutex_enter'', ''mutex_enter''),
   (''mutex_free'', ''mutex_free''),
   (''mutex_leave'', ''mutex_leave'')]"

definition redirects_2 :: "(string \<times> string) list" where
  "redirects_2 =
  [(''mutex_try'', ''mutex_try''),
   (''open_v2'', ''open_v2''),
   (''release_memory'', ''release_memory''),
   (''result_error_nomem'', ''result_error_nomem''),
   (''result_error_toobig'', ''result_error_toobig''),
   (''sleep'', ''sleep''),
   (''soft_heap_limit'', ''soft_heap_limit''),
   (''vfs_find'', ''vfs_find''),
   (''vfs_register'', ''vfs_register''),
   (''vfs_unregister'', ''vfs_unregister''),
   (''threadsafe'', ''xthreadsafe''),
   (''result_zeroblob'', ''result_zeroblob''),
   (''result_error_code'', ''result_error_code''),
   (''test_control'', ''test_control''),
   (''randomness'', ''randomness''),
   (''context_db_handle'', ''context_db_handle''),
   (''extended_result_codes'', ''extended_result_codes''),
   (''limit'', ''limit''),
   (''next_stmt'', ''next_stmt''),
   (''sql'', ''sql''),
   (''status'', ''status''),
   (''backup_finish'', ''backup_finish''),
   (''backup_init'', ''backup_init''),
   (''backup_pagecount'', ''backup_pagecount''),
   (''backup_remaining'', ''backup_remaining''),
   (''backup_step'', ''backup_step''),
   (''compileoption_get'', ''compileoption_get''),
   (''compileoption_used'', ''compileoption_used''),
   (''create_function_v2'', ''create_function_v2''),
   (''db_config'', ''db_config''),
   (''db_mutex'', ''db_mutex''),
   (''db_status'', ''db_status''),
   (''extended_errcode'', ''extended_errcode''),
   (''log'', ''log''),
   (''soft_heap_limit64'', ''soft_heap_limit64''),
   (''sourceid'', ''sourceid''),
   (''stmt_status'', ''stmt_status''),
   (''strnicmp'', ''strnicmp''),
   (''unlock_notify'', ''unlock_notify''),
   (''wal_autocheckpoint'', ''wal_autocheckpoint''),
   (''wal_checkpoint'', ''wal_checkpoint''),
   (''wal_hook'', ''wal_hook''),
   (''blob_reopen'', ''blob_reopen''),
   (''vtab_config'', ''vtab_config''),
   (''vtab_on_conflict'', ''vtab_on_conflict''),
   (''close_v2'', ''close_v2''),
   (''db_filename'', ''db_filename''),
   (''db_readonly'', ''db_readonly''),
   (''db_release_memory'', ''db_release_memory''),
   (''errstr'', ''errstr''),
   (''stmt_busy'', ''stmt_busy''),
   (''stmt_readonly'', ''stmt_readonly''),
   (''stricmp'', ''stricmp''),
   (''uri_boolean'', ''uri_boolean''),
   (''uri_int64'', ''uri_int64''),
   (''uri_parameter'', ''uri_parameter'')]"

definition redirects_3 :: "(string \<times> string) list" where
  "redirects_3 =
  [(''wal_checkpoint_v2'', ''wal_checkpoint_v2''),
   (''auto_extension'', ''auto_extension''),
   (''bind_blob64'', ''bind_blob64''),
   (''bind_text64'', ''bind_text64''),
   (''cancel_auto_extension'', ''cancel_auto_extension''),
   (''load_extension'', ''load_extension''),
   (''malloc64'', ''malloc64''),
   (''msize'', ''msize''),
   (''realloc64'', ''realloc64''),
   (''reset_auto_extension'', ''reset_auto_extension''),
   (''result_blob64'', ''result_blob64''),
   (''result_text64'', ''result_text64''),
   (''strglob'', ''strglob''),
   (''value_dup'', ''value_dup''),
   (''value_free'', ''value_free''),
   (''result_zeroblob64'', ''result_zeroblob64''),
   (''bind_zeroblob64'', ''bind_zeroblob64''),
   (''value_subtype'', ''value_subtype''),
   (''result_subtype'', ''result_subtype''),
   (''status64'', ''status64''),
   (''strlike'', ''strlike''),
   (''db_cacheflush'', ''db_cacheflush''),
   (''system_errno'', ''system_errno''),
   (''trace_v2'', ''trace_v2''),
   (''expanded_sql'', ''expanded_sql''),
   (''set_last_insert_rowid'', ''set_last_insert_rowid''),
   (''prepare_v3'', ''prepare_v3''),
   (''prepare16_v3'', ''prepare16_v3''),
   (''bind_pointer'', ''bind_pointer''),
   (''result_pointer'', ''result_pointer''),
   (''value_pointer'', ''value_pointer''),
   (''vtab_nochange'', ''vtab_nochange''),
   (''value_nochange'', ''value_nochange''),
   (''vtab_collation'', ''vtab_collation''),
   (''keyword_count'', ''keyword_count''),
   (''keyword_name'', ''keyword_name''),
   (''keyword_check'', ''keyword_check''),
   (''str_new'', ''str_new''),
   (''str_finish'', ''str_finish''),
   (''str_appendf'', ''str_appendf''),
   (''str_vappendf'', ''str_vappendf''),
   (''str_append'', ''str_append''),
   (''str_appendall'', ''str_appendall''),
   (''str_appendchar'', ''str_appendchar''),
   (''str_reset'', ''str_reset''),
   (''str_errcode'', ''str_errcode''),
   (''str_length'', ''str_length''),
   (''str_value'', ''str_value''),
   (''create_window_function'', ''create_window_function''),
   (''normalized_sql'', ''normalized_sql''),
   (''stmt_isexplain'', ''stmt_isexplain''),
   (''value_frombind'', ''value_frombind''),
   (''drop_modules'', ''drop_modules''),
   (''hard_heap_limit64'', ''hard_heap_limit64''),
   (''uri_key'', ''uri_key''),
   (''filename_database'', ''filename_database''),
   (''filename_journal'', ''filename_journal''),
   (''filename_wal'', ''filename_wal''),
   (''create_filename'', ''create_filename''),
   (''free_filename'', ''free_filename''),
   (''database_file_object'', ''database_file_object''),
   (''txn_state'', ''txn_state''),
   (''changes64'', ''changes64''),
   (''total_changes64'', ''total_changes64''),
   (''autovacuum_pages'', ''autovacuum_pages''),
   (''error_offset'', ''error_offset''),
   (''vtab_rhs_value'', ''vtab_rhs_value''),
   (''vtab_distinct'', ''vtab_distinct''),
   (''vtab_in'', ''vtab_in''),
   (''vtab_in_first'', ''vtab_in_first''),
   (''vtab_in_next'', ''vtab_in_next''),
   (''deserialize'', ''deserialize''),
   (''serialize'', ''serialize''),
   (''db_name'', ''db_name''),
   (''value_encoding'', ''value_encoding''),
   (''is_interrupted'', ''is_interrupted''),
   (''stmt_explain'', ''stmt_explain''),
   (''get_clientdata'', ''get_clientdata''),
   (''set_clientdata'', ''set_clientdata''),
   (''setlk_timeout'', ''setlk_timeout'')]"

text \<open>\<open>sqlite3_uri_vsnprintf\<close> is the one redirected name without a prototype: it names the slot
  of \<open>sqlite3_vsnprintf\<close> a second time.\<close>

definition unprototyped :: "string \<times> string" where
  "unprototyped = (''uri_vsnprintf'', ''xvsnprintf'')"

definition prototyped_redirects :: "(string \<times> string) list" where
  "prototyped_redirects = redirects_1 @ redirects_2 @ redirects_3"

definition redirects :: "(string \<times> string) list" where
  "redirects = prototyped_redirects @ [unprototyped]"

section \<open>The headers agree\<close>

text \<open>The entry of the prototype table and the slot each redirection names, by position.\<close>

type_synonym link = "(string \<times> ctype) \<times> (string \<times> ctype)"

definition link_1 :: "link list" where
  "link_1 =
  [(api_value_encoding ! 4, routines_1 ! 0),
   (api_aggregate_count ! 0, routines_1 ! 1),
   (api_bind_blob ! 0, routines_1 ! 2),
   (api_bind_blob ! 2, routines_1 ! 3),
   (api_bind_blob ! 3, routines_1 ! 4),
   (api_bind_blob ! 4, routines_1 ! 5),
   (api_bind_blob ! 5, routines_1 ! 6),
   (api_bind_parameter_count ! 0, routines_1 ! 7),
   (api_bind_parameter_count ! 2, routines_1 ! 8),
   (api_bind_parameter_count ! 1, routines_1 ! 9),
   (api_bind_blob ! 6, routines_1 ! 10),
   (api_bind_blob ! 7, routines_1 ! 11),
   (api_bind_blob ! 9, routines_1 ! 12),
   (api_busy_handler ! 0, routines_1 ! 13),
   (api_busy_handler ! 1, routines_1 ! 14),
   (api_extended_result_codes ! 3, routines_1 ! 15),
   (api_close ! 0, routines_1 ! 16),
   (api_collation_needed ! 0, routines_1 ! 17),
   (api_collation_needed ! 1, routines_1 ! 18),
   (api_column_blob ! 0, routines_1 ! 19),
   (api_column_blob ! 7, routines_1 ! 20),
   (api_column_blob ! 8, routines_1 ! 21),
   (api_bind_parameter_count ! 4, routines_1 ! 22),
   (api_column_database_name ! 0, routines_1 ! 23),
   (api_column_database_name ! 1, routines_2 ! 0)]"

definition link_2 :: "link list" where
  "link_2 =
  [(api_column_database_name ! 6, routines_2 ! 1),
   (api_column_database_name ! 7, routines_2 ! 2),
   (api_column_blob ! 1, routines_2 ! 3),
   (api_column_blob ! 2, routines_2 ! 4),
   (api_column_blob ! 3, routines_2 ! 5),
   (api_bind_parameter_count ! 5, routines_2 ! 6),
   (api_bind_parameter_count ! 6, routines_2 ! 7),
   (api_column_database_name ! 4, routines_2 ! 8),
   (api_column_database_name ! 5, routines_2 ! 9),
   (api_column_database_name ! 2, routines_2 ! 10),
   (api_column_database_name ! 3, routines_2 ! 11),
   (api_column_blob ! 4, routines_2 ! 12),
   (api_column_blob ! 5, routines_2 ! 13),
   (api_column_blob ! 9, routines_2 ! 14),
   (api_column_blob ! 6, routines_2 ! 15),
   (api_next_stmt ! 1, routines_2 ! 16),
   (api_total_changes ! 4, routines_2 ! 17),
   (api_total_changes ! 5, routines_2 ! 18),
   (api_result_subtype ! 1, routines_2 ! 19),
   (api_result_subtype ! 3, routines_2 ! 20),
   (api_create_function ! 0, routines_3 ! 0),
   (api_create_function ! 1, routines_3 ! 1),
   (api_create_module ! 0, routines_3 ! 2),
   (api_create_module ! 1, routines_6 ! 5),
   (api_step ! 1, routines_3 ! 3)]"

definition link_3 :: "link list" where
  "link_3 =
  [(api_get_autocommit ! 1, routines_3 ! 4),
   (api_create_module ! 3, routines_3 ! 5),
   (api_update_hook ! 1, routines_3 ! 6),
   (api_create_filename ! 2, routines_3 ! 7),
   (api_create_filename ! 4, routines_3 ! 8),
   (api_create_filename ! 5, routines_3 ! 9),
   (api_close ! 2, routines_3 ! 10),
   (api_aggregate_count ! 1, routines_3 ! 11),
   (api_finalize ! 0, routines_3 ! 12),
   (api_malloc ! 4, routines_3 ! 13),
   (api_get_table ! 1, routines_3 ! 14),
   (api_get_autocommit ! 0, routines_3 ! 15),
   (api_get_auxdata ! 0, routines_3 ! 16),
   (api_get_table ! 0, routines_3 ! 17),
   (api_aggregate_count ! 3, routines_3 ! 18),
   (api_total_changes ! 2, routines_3 ! 19),
   (api_extended_result_codes ! 1, routines_4 ! 0),
   (api_libversion ! 0, routines_4 ! 1),
   (api_libversion ! 2, routines_4 ! 2),
   (api_malloc ! 0, routines_4 ! 3),
   (api_get_table ! 2, routines_4 ! 4),
   (api_open ! 0, routines_4 ! 5),
   (api_open ! 1, routines_4 ! 6),
   (api_prepare ! 0, routines_4 ! 7),
   (api_prepare ! 3, routines_4 ! 8)]"

definition link_4 :: "link list" where
  "link_4 =
  [(api_prepare ! 1, routines_6 ! 2),
   (api_prepare ! 4, routines_6 ! 3),
   (api_trace ! 1, routines_4 ! 9),
   (api_progress_handler ! 0, routines_4 ! 10),
   (api_malloc ! 2, routines_4 ! 11),
   (api_finalize ! 1, routines_4 ! 12),
   (api_result_blob ! 0, routines_4 ! 13),
   (api_result_blob ! 2, routines_4 ! 14),
   (api_result_blob ! 3, routines_4 ! 15),
   (api_result_blob ! 4, routines_4 ! 16),
   (api_result_blob ! 8, routines_4 ! 17),
   (api_result_blob ! 9, routines_4 ! 18),
   (api_result_blob ! 10, routines_4 ! 19),
   (api_result_blob ! 11, routines_4 ! 20),
   (api_result_blob ! 13, routines_4 ! 21),
   (api_result_blob ! 15, routines_4 ! 22),
   (api_result_blob ! 14, routines_4 ! 23),
   (api_result_blob ! 16, routines_4 ! 24),
   (api_next_stmt ! 2, routines_4 ! 25),
   (api_set_authorizer ! 0, routines_5 ! 0),
   (api_get_auxdata ! 1, routines_5 ! 1),
   (api_get_table ! 4, routines_5 ! 2),
   (api_step ! 0, routines_5 ! 3),
   (api_table_column_metadata ! 0, routines_5 ! 4),
   (api_aggregate_count ! 4, routines_5 ! 5)]"

definition link_5 :: "link list" where
  "link_5 =
  [(api_total_changes ! 0, routines_5 ! 6),
   (api_trace ! 0, routines_5 ! 7),
   (api_aggregate_count ! 2, routines_5 ! 8),
   (api_update_hook ! 0, routines_5 ! 9),
   (api_value_encoding ! 5, routines_5 ! 10),
   (api_value_blob ! 0, routines_5 ! 11),
   (api_value_blob ! 9, routines_5 ! 12),
   (api_value_blob ! 10, routines_5 ! 13),
   (api_value_blob ! 1, routines_5 ! 14),
   (api_value_blob ! 2, routines_5 ! 15),
   (api_value_blob ! 3, routines_5 ! 16),
   (api_value_blob ! 12, routines_5 ! 17),
   (api_value_blob ! 5, routines_5 ! 18),
   (api_value_blob ! 6, routines_5 ! 19),
   (api_value_blob ! 8, routines_5 ! 20),
   (api_value_blob ! 7, routines_5 ! 21),
   (api_value_blob ! 11, routines_5 ! 22),
   (api_get_table ! 3, routines_6 ! 0),
   (api_get_table ! 5, routines_9 ! 11),
   (api_create_module ! 4, routines_6 ! 1),
   (api_prepare ! 1, routines_6 ! 2),
   (api_prepare ! 4, routines_6 ! 3),
   (api_bind_parameter_count ! 3, routines_6 ! 4),
   (api_bind_blob ! 11, routines_6 ! 6),
   (api_blob_bytes ! 0, routines_6 ! 7)]"

definition link_6 :: "link list" where
  "link_6 =
  [(api_blob_open ! 2, routines_6 ! 8),
   (api_blob_open ! 0, routines_6 ! 9),
   (api_blob_bytes ! 1, routines_6 ! 10),
   (api_blob_bytes ! 2, routines_6 ! 11),
   (api_result_subtype ! 2, routines_6 ! 12),
   (api_db_mutex ! 1, routines_6 ! 13),
   (api_malloc ! 7, routines_6 ! 14),
   (api_malloc ! 6, routines_6 ! 15),
   (api_mutex_alloc ! 0, routines_6 ! 16),
   (api_mutex_alloc ! 2, routines_6 ! 17),
   (api_mutex_alloc ! 1, routines_7 ! 0),
   (api_mutex_alloc ! 4, routines_7 ! 1),
   (api_mutex_alloc ! 3, routines_7 ! 2),
   (api_open ! 2, routines_7 ! 3),
   (api_update_hook ! 2, routines_7 ! 4),
   (api_result_blob ! 6, routines_7 ! 5),
   (api_result_blob ! 5, routines_7 ! 6),
   (api_collation_needed ! 2, routines_7 ! 7),
   (api_soft_heap_limit64 ! 2, routines_7 ! 8),
   (api_blob_bytes ! 3, routines_7 ! 9),
   (api_blob_bytes ! 4, routines_7 ! 10),
   (api_blob_bytes ! 5, routines_7 ! 11),
   (api_libversion ! 5, routines_7 ! 12),
   (api_result_blob ! 18, routines_7 ! 13),
   (api_result_blob ! 7, routines_7 ! 14)]"

definition link_7 :: "link list" where
  "link_7 =
  [(api_db_mutex ! 2, routines_7 ! 15),
   (api_malloc ! 8, routines_7 ! 16),
   (api_value_encoding ! 6, routines_7 ! 17),
   (api_extended_result_codes ! 0, routines_7 ! 18),
   (api_limit ! 0, routines_7 ! 19),
   (api_next_stmt ! 0, routines_7 ! 20),
   (api_sql ! 0, routines_7 ! 21),
   (api_str_errcode ! 3, routines_7 ! 22),
   (api_backup_init ! 2, routines_7 ! 23),
   (api_backup_init ! 0, routines_7 ! 24),
   (api_backup_init ! 4, routines_7 ! 25),
   (api_backup_init ! 3, routines_8 ! 0),
   (api_backup_init ! 1, routines_8 ! 1),
   (api_libversion ! 4, routines_8 ! 2),
   (api_libversion ! 3, routines_8 ! 3),
   (api_create_function ! 2, routines_8 ! 4),
   (api_db_config ! 0, routines_8 ! 5),
   (api_db_mutex ! 0, routines_8 ! 6),
   (api_db_status ! 0, routines_8 ! 7),
   (api_create_filename ! 3, routines_8 ! 8),
   (api_strlike ! 1, routines_8 ! 9),
   (api_soft_heap_limit64 ! 0, routines_8 ! 10),
   (api_libversion ! 1, routines_8 ! 11),
   (api_stmt_status ! 0, routines_8 ! 12),
   (api_unlock_notify ! 2, routines_8 ! 13)]"

definition link_8 :: "link list" where
  "link_8 =
  [(api_unlock_notify ! 0, routines_8 ! 14),
   (api_strlike ! 3, routines_8 ! 15),
   (api_strlike ! 4, routines_8 ! 16),
   (api_strlike ! 2, routines_8 ! 17),
   (api_blob_open ! 1, routines_8 ! 18),
   (api_wal_checkpoint_v2 ! 1, routines_8 ! 19),
   (api_vtab_on_conflict ! 0, routines_8 ! 20),
   (api_close ! 1, routines_9 ! 0),
   (api_get_autocommit ! 3, routines_9 ! 1),
   (api_get_autocommit ! 4, routines_9 ! 2),
   (api_update_hook ! 3, routines_9 ! 3),
   (api_create_filename ! 6, routines_9 ! 4),
   (api_stmt_busy ! 0, routines_9 ! 5),
   (api_sql ! 3, routines_9 ! 6),
   (api_unlock_notify ! 1, routines_9 ! 7),
   (api_uri_parameter ! 1, routines_9 ! 8),
   (api_uri_parameter ! 2, routines_9 ! 9),
   (api_uri_parameter ! 0, routines_9 ! 10),
   (api_wal_checkpoint_v2 ! 0, routines_9 ! 12),
   (api_auto_extension ! 0, routines_9 ! 13),
   (api_bind_blob ! 1, routines_9 ! 14),
   (api_bind_blob ! 8, routines_9 ! 15),
   (api_auto_extension ! 1, routines_9 ! 16),
   (api_table_column_metadata ! 1, routines_9 ! 17),
   (api_malloc ! 1, routines_9 ! 18)]"

definition link_9 :: "link list" where
  "link_9 =
  [(api_malloc ! 5, routines_9 ! 19),
   (api_malloc ! 3, routines_9 ! 20),
   (api_auto_extension ! 2, routines_9 ! 21),
   (api_result_blob ! 1, routines_10 ! 0),
   (api_result_blob ! 12, routines_10 ! 1),
   (api_unlock_notify ! 3, routines_10 ! 2),
   (api_value_encoding ! 2, routines_10 ! 3),
   (api_value_encoding ! 3, routines_10 ! 4),
   (api_result_blob ! 19, routines_10 ! 5),
   (api_bind_blob ! 12, routines_10 ! 6),
   (api_value_encoding ! 1, routines_10 ! 7),
   (api_result_subtype ! 0, routines_10 ! 8),
   (api_str_errcode ! 4, routines_10 ! 9),
   (api_strlike ! 0, routines_10 ! 10),
   (api_db_cacheflush ! 0, routines_10 ! 11),
   (api_system_errno ! 0, routines_10 ! 12),
   (api_trace ! 2, routines_10 ! 13),
   (api_sql ! 1, routines_10 ! 14),
   (api_extended_result_codes ! 2, routines_10 ! 15),
   (api_prepare ! 2, routines_11 ! 0),
   (api_prepare ! 5, routines_11 ! 1),
   (api_bind_blob ! 10, routines_11 ! 2),
   (api_result_blob ! 17, routines_11 ! 3),
   (api_value_blob ! 4, routines_11 ! 4),
   (api_vtab_on_conflict ! 1, routines_11 ! 5)]"

definition link_10 :: "link list" where
  "link_10 =
  [(api_value_blob ! 13, routines_11 ! 6),
   (api_vtab_on_conflict ! 2, routines_11 ! 7),
   (api_keyword_count ! 0, routines_11 ! 8),
   (api_keyword_count ! 1, routines_11 ! 9),
   (api_keyword_count ! 2, routines_11 ! 10),
   (api_keyword_count ! 3, routines_11 ! 11),
   (api_keyword_count ! 4, routines_11 ! 12),
   (api_keyword_count ! 5, routines_11 ! 13),
   (api_keyword_count ! 6, routines_11 ! 14),
   (api_keyword_count ! 7, routines_11 ! 15),
   (api_keyword_count ! 8, routines_11 ! 16),
   (api_keyword_count ! 9, routines_11 ! 17),
   (api_keyword_count ! 10, routines_11 ! 18),
   (api_str_errcode ! 0, routines_11 ! 19),
   (api_str_errcode ! 1, routines_11 ! 20),
   (api_str_errcode ! 2, routines_11 ! 21),
   (api_create_function ! 3, routines_12 ! 0),
   (api_sql ! 2, routines_12 ! 1),
   (api_sql ! 4, routines_12 ! 2),
   (api_value_blob ! 14, routines_12 ! 3),
   (api_create_module ! 2, routines_12 ! 4),
   (api_soft_heap_limit64 ! 1, routines_12 ! 5),
   (api_uri_parameter ! 3, routines_12 ! 6),
   (api_uri_parameter ! 4, routines_12 ! 7),
   (api_uri_parameter ! 5, routines_12 ! 8)]"

definition link_11 :: "link list" where
  "link_11 =
  [(api_uri_parameter ! 6, routines_12 ! 9),
   (api_create_filename ! 0, routines_12 ! 10),
   (api_create_filename ! 1, routines_12 ! 11),
   (api_uri_parameter ! 7, routines_12 ! 12),
   (api_get_autocommit ! 5, routines_12 ! 13),
   (api_extended_result_codes ! 4, routines_13 ! 0),
   (api_total_changes ! 1, routines_13 ! 1),
   (api_next_stmt ! 3, routines_13 ! 2),
   (api_create_filename ! 7, routines_13 ! 3),
   (api_vtab_rhs_value ! 0, routines_13 ! 4),
   (api_vtab_distinct ! 0, routines_13 ! 5),
   (api_vtab_in ! 0, routines_13 ! 6),
   (api_vtab_in ! 1, routines_13 ! 7),
   (api_vtab_in ! 2, routines_13 ! 8),
   (api_serialize ! 1, routines_13 ! 9),
   (api_serialize ! 0, routines_13 ! 10),
   (api_get_autocommit ! 2, routines_13 ! 11),
   (api_value_encoding ! 0, routines_13 ! 12),
   (api_total_changes ! 3, routines_13 ! 13),
   (api_sql ! 5, routines_13 ! 14),
   (api_get_auxdata ! 2, routines_14 ! 0),
   (api_get_auxdata ! 3, routines_14 ! 1),
   (api_busy_handler ! 2, routines_14 ! 2)]"

definition links :: "link list" where
  "links = link_1 @ link_2 @ link_3 @ link_4 @ link_5 @ link_6 @ link_7 @ link_8 @ link_9 @ link_10 @ link_11"

lemmas routine_defs =
  routines_1_def
  routines_2_def
  routines_3_def
  routines_4_def
  routines_5_def
  routines_6_def
  routines_7_def
  routines_8_def
  routines_9_def
  routines_10_def
  routines_11_def
  routines_12_def
  routines_13_def
  routines_14_def

lemmas redirect_defs =
  redirects_1_def
  redirects_2_def
  redirects_3_def

lemmas link_defs =
  link_1_def
  link_2_def
  link_3_def
  link_4_def
  link_5_def
  link_6_def
  link_7_def
  link_8_def
  link_9_def
  link_10_def
  link_11_def

lemma proto_lengths:
  "length api_libversion = 6"
  "length api_close = 3"
  "length api_db_config = 1"
  "length api_extended_result_codes = 5"
  "length api_total_changes = 6"
  "length api_busy_handler = 3"
  "length api_get_table = 6"
  "length api_malloc = 9"
  "length api_set_authorizer = 1"
  "length api_trace = 3"
  "length api_progress_handler = 1"
  "length api_open = 3"
  "length api_uri_parameter = 8"
  "length api_create_filename = 8"
  "length api_limit = 1"
  "length api_prepare = 6"
  "length api_sql = 6"
  "length api_stmt_busy = 1"
  "length api_bind_blob = 13"
  "length api_bind_parameter_count = 7"
  "length api_column_database_name = 8"
  "length api_step = 2"
  "length api_column_blob = 10"
  "length api_finalize = 2"
  "length api_create_function = 4"
  "length api_aggregate_count = 5"
  "length api_value_blob = 15"
  "length api_value_encoding = 7"
  "length api_get_auxdata = 4"
  "length api_result_blob = 20"
  "length api_result_subtype = 4"
  "length api_collation_needed = 3"
  "length api_get_autocommit = 6"
  "length api_next_stmt = 4"
  "length api_update_hook = 4"
  "length api_soft_heap_limit64 = 3"
  "length api_table_column_metadata = 2"
  "length api_auto_extension = 3"
  "length api_create_module = 5"
  "length api_blob_open = 3"
  "length api_blob_bytes = 6"
  "length api_mutex_alloc = 5"
  "length api_db_mutex = 3"
  "length api_keyword_count = 11"
  "length api_str_errcode = 5"
  "length api_db_status = 1"
  "length api_stmt_status = 1"
  "length api_backup_init = 5"
  "length api_unlock_notify = 4"
  "length api_strlike = 5"
  "length api_wal_checkpoint_v2 = 2"
  "length api_vtab_on_conflict = 3"
  "length api_vtab_distinct = 1"
  "length api_vtab_in = 3"
  "length api_vtab_rhs_value = 1"
  "length api_db_cacheflush = 1"
  "length api_system_errno = 1"
  "length api_serialize = 2"
  by (simp_all add: proto_defs)

lemma routine_lengths:
  "length routines_1 = 24"
  "length routines_2 = 21"
  "length routines_3 = 20"
  "length routines_4 = 26"
  "length routines_5 = 23"
  "length routines_6 = 18"
  "length routines_7 = 26"
  "length routines_8 = 21"
  "length routines_9 = 22"
  "length routines_10 = 16"
  "length routines_11 = 22"
  "length routines_12 = 14"
  "length routines_13 = 15"
  "length routines_14 = 3"
  by (simp_all add: routine_defs)

fun same_type :: "ctype \<Rightarrow> ctype \<Rightarrow> bool" where
  "same_type p (CPtr s) = (resolve p = resolve s)"
| "same_type p _ = False"

definition link_ok :: "link \<Rightarrow> bool" where
  "link_ok l = same_type (snd (fst l)) (snd (snd l))"

lemma link_1_ok: "list_all link_ok link_1"
  by (simp add: link_1_def link_ok_def proto_defs routine_defs resolve_def)

lemma link_2_ok: "list_all link_ok link_2"
  by (simp add: link_2_def link_ok_def proto_defs routine_defs resolve_def)

lemma link_3_ok: "list_all link_ok link_3"
  by (simp add: link_3_def link_ok_def proto_defs routine_defs resolve_def)

lemma link_4_ok: "list_all link_ok link_4"
  by (simp add: link_4_def link_ok_def proto_defs routine_defs resolve_def)

lemma link_5_ok: "list_all link_ok link_5"
  by (simp add: link_5_def link_ok_def proto_defs routine_defs resolve_def)

lemma link_6_ok: "list_all link_ok link_6"
  by (simp add: link_6_def link_ok_def proto_defs routine_defs resolve_def)

lemma link_7_ok: "list_all link_ok link_7"
  by (simp add: link_7_def link_ok_def proto_defs routine_defs resolve_def)

lemma link_8_ok: "list_all link_ok link_8"
  by (simp add: link_8_def link_ok_def proto_defs routine_defs resolve_def)

lemma link_9_ok: "list_all link_ok link_9"
  by (simp add: link_9_def link_ok_def proto_defs routine_defs resolve_def)

lemma link_10_ok: "list_all link_ok link_10"
  by (simp add: link_10_def link_ok_def proto_defs routine_defs resolve_def)

lemma link_11_ok: "list_all link_ok link_11"
  by (simp add: link_11_def link_ok_def proto_defs routine_defs resolve_def)

lemma links_ok: "list_all link_ok links"
  by (simp only: links_def list_all_append link_1_ok link_2_ok link_3_ok link_4_ok link_5_ok link_6_ok link_7_ok link_8_ok link_9_ok link_10_ok link_11_ok HOL.simp_thms)

lemma proto_groups:
  "set api_libversion \<subseteq> set prototypes"
  "set api_close \<subseteq> set prototypes"
  "set api_db_config \<subseteq> set prototypes"
  "set api_extended_result_codes \<subseteq> set prototypes"
  "set api_total_changes \<subseteq> set prototypes"
  "set api_busy_handler \<subseteq> set prototypes"
  "set api_get_table \<subseteq> set prototypes"
  "set api_malloc \<subseteq> set prototypes"
  "set api_set_authorizer \<subseteq> set prototypes"
  "set api_trace \<subseteq> set prototypes"
  "set api_progress_handler \<subseteq> set prototypes"
  "set api_open \<subseteq> set prototypes"
  "set api_uri_parameter \<subseteq> set prototypes"
  "set api_create_filename \<subseteq> set prototypes"
  "set api_limit \<subseteq> set prototypes"
  "set api_prepare \<subseteq> set prototypes"
  "set api_sql \<subseteq> set prototypes"
  "set api_stmt_busy \<subseteq> set prototypes"
  "set api_bind_blob \<subseteq> set prototypes"
  "set api_bind_parameter_count \<subseteq> set prototypes"
  "set api_column_database_name \<subseteq> set prototypes"
  "set api_step \<subseteq> set prototypes"
  "set api_column_blob \<subseteq> set prototypes"
  "set api_finalize \<subseteq> set prototypes"
  "set api_create_function \<subseteq> set prototypes"
  "set api_aggregate_count \<subseteq> set prototypes"
  "set api_value_blob \<subseteq> set prototypes"
  "set api_value_encoding \<subseteq> set prototypes"
  "set api_get_auxdata \<subseteq> set prototypes"
  "set api_result_blob \<subseteq> set prototypes"
  "set api_result_subtype \<subseteq> set prototypes"
  "set api_collation_needed \<subseteq> set prototypes"
  "set api_get_autocommit \<subseteq> set prototypes"
  "set api_next_stmt \<subseteq> set prototypes"
  "set api_update_hook \<subseteq> set prototypes"
  "set api_soft_heap_limit64 \<subseteq> set prototypes"
  "set api_table_column_metadata \<subseteq> set prototypes"
  "set api_auto_extension \<subseteq> set prototypes"
  "set api_create_module \<subseteq> set prototypes"
  "set api_blob_open \<subseteq> set prototypes"
  "set api_blob_bytes \<subseteq> set prototypes"
  "set api_mutex_alloc \<subseteq> set prototypes"
  "set api_db_mutex \<subseteq> set prototypes"
  "set api_keyword_count \<subseteq> set prototypes"
  "set api_str_errcode \<subseteq> set prototypes"
  "set api_db_status \<subseteq> set prototypes"
  "set api_stmt_status \<subseteq> set prototypes"
  "set api_backup_init \<subseteq> set prototypes"
  "set api_unlock_notify \<subseteq> set prototypes"
  "set api_strlike \<subseteq> set prototypes"
  "set api_wal_checkpoint_v2 \<subseteq> set prototypes"
  "set api_vtab_on_conflict \<subseteq> set prototypes"
  "set api_vtab_distinct \<subseteq> set prototypes"
  "set api_vtab_in \<subseteq> set prototypes"
  "set api_vtab_rhs_value \<subseteq> set prototypes"
  "set api_db_cacheflush \<subseteq> set prototypes"
  "set api_system_errno \<subseteq> set prototypes"
  "set api_serialize \<subseteq> set prototypes"
  by (auto simp: prototypes_def)

lemma routine_groups:
  "set routines_1 \<subseteq> set api_routines"
  "set routines_2 \<subseteq> set api_routines"
  "set routines_3 \<subseteq> set api_routines"
  "set routines_4 \<subseteq> set api_routines"
  "set routines_5 \<subseteq> set api_routines"
  "set routines_6 \<subseteq> set api_routines"
  "set routines_7 \<subseteq> set api_routines"
  "set routines_8 \<subseteq> set api_routines"
  "set routines_9 \<subseteq> set api_routines"
  "set routines_10 \<subseteq> set api_routines"
  "set routines_11 \<subseteq> set api_routines"
  "set routines_12 \<subseteq> set api_routines"
  "set routines_13 \<subseteq> set api_routines"
  "set routines_14 \<subseteq> set api_routines"
  by (auto simp: api_routines_def)

lemmas proto_in =
  subsetD [OF proto_groups(1) nth_mem]
  subsetD [OF proto_groups(2) nth_mem]
  subsetD [OF proto_groups(3) nth_mem]
  subsetD [OF proto_groups(4) nth_mem]
  subsetD [OF proto_groups(5) nth_mem]
  subsetD [OF proto_groups(6) nth_mem]
  subsetD [OF proto_groups(7) nth_mem]
  subsetD [OF proto_groups(8) nth_mem]
  subsetD [OF proto_groups(9) nth_mem]
  subsetD [OF proto_groups(10) nth_mem]
  subsetD [OF proto_groups(11) nth_mem]
  subsetD [OF proto_groups(12) nth_mem]
  subsetD [OF proto_groups(13) nth_mem]
  subsetD [OF proto_groups(14) nth_mem]
  subsetD [OF proto_groups(15) nth_mem]
  subsetD [OF proto_groups(16) nth_mem]
  subsetD [OF proto_groups(17) nth_mem]
  subsetD [OF proto_groups(18) nth_mem]
  subsetD [OF proto_groups(19) nth_mem]
  subsetD [OF proto_groups(20) nth_mem]
  subsetD [OF proto_groups(21) nth_mem]
  subsetD [OF proto_groups(22) nth_mem]
  subsetD [OF proto_groups(23) nth_mem]
  subsetD [OF proto_groups(24) nth_mem]
  subsetD [OF proto_groups(25) nth_mem]
  subsetD [OF proto_groups(26) nth_mem]
  subsetD [OF proto_groups(27) nth_mem]
  subsetD [OF proto_groups(28) nth_mem]
  subsetD [OF proto_groups(29) nth_mem]
  subsetD [OF proto_groups(30) nth_mem]
  subsetD [OF proto_groups(31) nth_mem]
  subsetD [OF proto_groups(32) nth_mem]
  subsetD [OF proto_groups(33) nth_mem]
  subsetD [OF proto_groups(34) nth_mem]
  subsetD [OF proto_groups(35) nth_mem]
  subsetD [OF proto_groups(36) nth_mem]
  subsetD [OF proto_groups(37) nth_mem]
  subsetD [OF proto_groups(38) nth_mem]
  subsetD [OF proto_groups(39) nth_mem]
  subsetD [OF proto_groups(40) nth_mem]
  subsetD [OF proto_groups(41) nth_mem]
  subsetD [OF proto_groups(42) nth_mem]
  subsetD [OF proto_groups(43) nth_mem]
  subsetD [OF proto_groups(44) nth_mem]
  subsetD [OF proto_groups(45) nth_mem]
  subsetD [OF proto_groups(46) nth_mem]
  subsetD [OF proto_groups(47) nth_mem]
  subsetD [OF proto_groups(48) nth_mem]
  subsetD [OF proto_groups(49) nth_mem]
  subsetD [OF proto_groups(50) nth_mem]
  subsetD [OF proto_groups(51) nth_mem]
  subsetD [OF proto_groups(52) nth_mem]
  subsetD [OF proto_groups(53) nth_mem]
  subsetD [OF proto_groups(54) nth_mem]
  subsetD [OF proto_groups(55) nth_mem]
  subsetD [OF proto_groups(56) nth_mem]
  subsetD [OF proto_groups(57) nth_mem]
  subsetD [OF proto_groups(58) nth_mem]

lemmas routine_in =
  subsetD [OF routine_groups(1) nth_mem]
  subsetD [OF routine_groups(2) nth_mem]
  subsetD [OF routine_groups(3) nth_mem]
  subsetD [OF routine_groups(4) nth_mem]
  subsetD [OF routine_groups(5) nth_mem]
  subsetD [OF routine_groups(6) nth_mem]
  subsetD [OF routine_groups(7) nth_mem]
  subsetD [OF routine_groups(8) nth_mem]
  subsetD [OF routine_groups(9) nth_mem]
  subsetD [OF routine_groups(10) nth_mem]
  subsetD [OF routine_groups(11) nth_mem]
  subsetD [OF routine_groups(12) nth_mem]
  subsetD [OF routine_groups(13) nth_mem]
  subsetD [OF routine_groups(14) nth_mem]

definition link_in :: "link \<Rightarrow> bool" where
  "link_in l \<longleftrightarrow> fst l \<in> set prototypes \<and> snd l \<in> set api_routines"

lemma link_1_in: "list_all link_in link_1"
  by (simp add: link_1_def link_in_def proto_in routine_in proto_lengths routine_lengths)

lemma link_2_in: "list_all link_in link_2"
  by (simp add: link_2_def link_in_def proto_in routine_in proto_lengths routine_lengths)

lemma link_3_in: "list_all link_in link_3"
  by (simp add: link_3_def link_in_def proto_in routine_in proto_lengths routine_lengths)

lemma link_4_in: "list_all link_in link_4"
  by (simp add: link_4_def link_in_def proto_in routine_in proto_lengths routine_lengths)

lemma link_5_in: "list_all link_in link_5"
  by (simp add: link_5_def link_in_def proto_in routine_in proto_lengths routine_lengths)

lemma link_6_in: "list_all link_in link_6"
  by (simp add: link_6_def link_in_def proto_in routine_in proto_lengths routine_lengths)

lemma link_7_in: "list_all link_in link_7"
  by (simp add: link_7_def link_in_def proto_in routine_in proto_lengths routine_lengths)

lemma link_8_in: "list_all link_in link_8"
  by (simp add: link_8_def link_in_def proto_in routine_in proto_lengths routine_lengths)

lemma link_9_in: "list_all link_in link_9"
  by (simp add: link_9_def link_in_def proto_in routine_in proto_lengths routine_lengths)

lemma link_10_in: "list_all link_in link_10"
  by (simp add: link_10_def link_in_def proto_in routine_in proto_lengths routine_lengths)

lemma link_11_in: "list_all link_in link_11"
  by (simp add: link_11_def link_in_def proto_in routine_in proto_lengths routine_lengths)

lemma links_in: "list_all link_in links"
  by (simp only: links_def list_all_append link_1_in link_2_in link_3_in link_4_in link_5_in link_6_in link_7_in link_8_in link_9_in link_10_in link_11_in HOL.simp_thms)

lemma link_1_names:
  "map (\<lambda>l. (fst (fst l), fst (snd l))) link_1 =
   [(''aggregate_context'', ''aggregate_context''),
    (''aggregate_count'', ''aggregate_count''),
    (''bind_blob'', ''bind_blob''),
    (''bind_double'', ''bind_double''),
    (''bind_int'', ''bind_int''),
    (''bind_int64'', ''bind_int64''),
    (''bind_null'', ''bind_null''),
    (''bind_parameter_count'', ''bind_parameter_count''),
    (''bind_parameter_index'', ''bind_parameter_index''),
    (''bind_parameter_name'', ''bind_parameter_name''),
    (''bind_text'', ''bind_text''),
    (''bind_text16'', ''bind_text16''),
    (''bind_value'', ''bind_value''),
    (''busy_handler'', ''busy_handler''),
    (''busy_timeout'', ''busy_timeout''),
    (''changes'', ''changes''),
    (''close'', ''close''),
    (''collation_needed'', ''collation_needed''),
    (''collation_needed16'', ''collation_needed16''),
    (''column_blob'', ''column_blob''),
    (''column_bytes'', ''column_bytes''),
    (''column_bytes16'', ''column_bytes16''),
    (''column_count'', ''column_count''),
    (''column_database_name'', ''column_database_name''),
    (''column_database_name16'', ''column_database_name16'')]"
  by (simp add: link_1_def proto_defs routine_defs)

lemma link_2_names:
  "map (\<lambda>l. (fst (fst l), fst (snd l))) link_2 =
   [(''column_decltype'', ''column_decltype''),
    (''column_decltype16'', ''column_decltype16''),
    (''column_double'', ''column_double''),
    (''column_int'', ''column_int''),
    (''column_int64'', ''column_int64''),
    (''column_name'', ''column_name''),
    (''column_name16'', ''column_name16''),
    (''column_origin_name'', ''column_origin_name''),
    (''column_origin_name16'', ''column_origin_name16''),
    (''column_table_name'', ''column_table_name''),
    (''column_table_name16'', ''column_table_name16''),
    (''column_text'', ''column_text''),
    (''column_text16'', ''column_text16''),
    (''column_type'', ''column_type''),
    (''column_value'', ''column_value''),
    (''commit_hook'', ''commit_hook''),
    (''complete'', ''complete''),
    (''complete16'', ''complete16''),
    (''create_collation'', ''create_collation''),
    (''create_collation16'', ''create_collation16''),
    (''create_function'', ''create_function''),
    (''create_function16'', ''create_function16''),
    (''create_module'', ''create_module''),
    (''create_module_v2'', ''create_module_v2''),
    (''data_count'', ''data_count'')]"
  by (simp add: link_2_def proto_defs routine_defs)

lemma link_3_names:
  "map (\<lambda>l. (fst (fst l), fst (snd l))) link_3 =
   [(''db_handle'', ''db_handle''),
    (''declare_vtab'', ''declare_vtab''),
    (''enable_shared_cache'', ''enable_shared_cache''),
    (''errcode'', ''errcode''),
    (''errmsg'', ''errmsg''),
    (''errmsg16'', ''errmsg16''),
    (''exec'', ''exec''),
    (''expired'', ''expired''),
    (''finalize'', ''finalize''),
    (''free'', ''free''),
    (''free_table'', ''free_table''),
    (''get_autocommit'', ''get_autocommit''),
    (''get_auxdata'', ''get_auxdata''),
    (''get_table'', ''get_table''),
    (''global_recover'', ''global_recover''),
    (''interrupt'', ''interruptx''),
    (''last_insert_rowid'', ''last_insert_rowid''),
    (''libversion'', ''libversion''),
    (''libversion_number'', ''libversion_number''),
    (''malloc'', ''malloc''),
    (''mprintf'', ''mprintf''),
    (''open'', ''open''),
    (''open16'', ''open16''),
    (''prepare'', ''prepare''),
    (''prepare16'', ''prepare16'')]"
  by (simp add: link_3_def proto_defs routine_defs)

lemma link_4_names:
  "map (\<lambda>l. (fst (fst l), fst (snd l))) link_4 =
   [(''prepare_v2'', ''prepare_v2''),
    (''prepare16_v2'', ''prepare16_v2''),
    (''profile'', ''profile''),
    (''progress_handler'', ''progress_handler''),
    (''realloc'', ''realloc''),
    (''reset'', ''reset''),
    (''result_blob'', ''result_blob''),
    (''result_double'', ''result_double''),
    (''result_error'', ''result_error''),
    (''result_error16'', ''result_error16''),
    (''result_int'', ''result_int''),
    (''result_int64'', ''result_int64''),
    (''result_null'', ''result_null''),
    (''result_text'', ''result_text''),
    (''result_text16'', ''result_text16''),
    (''result_text16be'', ''result_text16be''),
    (''result_text16le'', ''result_text16le''),
    (''result_value'', ''result_value''),
    (''rollback_hook'', ''rollback_hook''),
    (''set_authorizer'', ''set_authorizer''),
    (''set_auxdata'', ''set_auxdata''),
    (''snprintf'', ''xsnprintf''),
    (''step'', ''step''),
    (''table_column_metadata'', ''table_column_metadata''),
    (''thread_cleanup'', ''thread_cleanup'')]"
  by (simp add: link_4_def proto_defs routine_defs)

lemma link_5_names:
  "map (\<lambda>l. (fst (fst l), fst (snd l))) link_5 =
   [(''total_changes'', ''total_changes''),
    (''trace'', ''trace''),
    (''transfer_bindings'', ''transfer_bindings''),
    (''update_hook'', ''update_hook''),
    (''user_data'', ''user_data''),
    (''value_blob'', ''value_blob''),
    (''value_bytes'', ''value_bytes''),
    (''value_bytes16'', ''value_bytes16''),
    (''value_double'', ''value_double''),
    (''value_int'', ''value_int''),
    (''value_int64'', ''value_int64''),
    (''value_numeric_type'', ''value_numeric_type''),
    (''value_text'', ''value_text''),
    (''value_text16'', ''value_text16''),
    (''value_text16be'', ''value_text16be''),
    (''value_text16le'', ''value_text16le''),
    (''value_type'', ''value_type''),
    (''vmprintf'', ''vmprintf''),
    (''vsnprintf'', ''xvsnprintf''),
    (''overload_function'', ''overload_function''),
    (''prepare_v2'', ''prepare_v2''),
    (''prepare16_v2'', ''prepare16_v2''),
    (''clear_bindings'', ''clear_bindings''),
    (''bind_zeroblob'', ''bind_zeroblob''),
    (''blob_bytes'', ''blob_bytes'')]"
  by (simp add: link_5_def proto_defs routine_defs)

lemma link_6_names:
  "map (\<lambda>l. (fst (fst l), fst (snd l))) link_6 =
   [(''blob_close'', ''blob_close''),
    (''blob_open'', ''blob_open''),
    (''blob_read'', ''blob_read''),
    (''blob_write'', ''blob_write''),
    (''create_collation_v2'', ''create_collation_v2''),
    (''file_control'', ''file_control''),
    (''memory_highwater'', ''memory_highwater''),
    (''memory_used'', ''memory_used''),
    (''mutex_alloc'', ''mutex_alloc''),
    (''mutex_enter'', ''mutex_enter''),
    (''mutex_free'', ''mutex_free''),
    (''mutex_leave'', ''mutex_leave''),
    (''mutex_try'', ''mutex_try''),
    (''open_v2'', ''open_v2''),
    (''release_memory'', ''release_memory''),
    (''result_error_nomem'', ''result_error_nomem''),
    (''result_error_toobig'', ''result_error_toobig''),
    (''sleep'', ''sleep''),
    (''soft_heap_limit'', ''soft_heap_limit''),
    (''vfs_find'', ''vfs_find''),
    (''vfs_register'', ''vfs_register''),
    (''vfs_unregister'', ''vfs_unregister''),
    (''threadsafe'', ''xthreadsafe''),
    (''result_zeroblob'', ''result_zeroblob''),
    (''result_error_code'', ''result_error_code'')]"
  by (simp add: link_6_def proto_defs routine_defs)

lemma link_7_names:
  "map (\<lambda>l. (fst (fst l), fst (snd l))) link_7 =
   [(''test_control'', ''test_control''),
    (''randomness'', ''randomness''),
    (''context_db_handle'', ''context_db_handle''),
    (''extended_result_codes'', ''extended_result_codes''),
    (''limit'', ''limit''),
    (''next_stmt'', ''next_stmt''),
    (''sql'', ''sql''),
    (''status'', ''status''),
    (''backup_finish'', ''backup_finish''),
    (''backup_init'', ''backup_init''),
    (''backup_pagecount'', ''backup_pagecount''),
    (''backup_remaining'', ''backup_remaining''),
    (''backup_step'', ''backup_step''),
    (''compileoption_get'', ''compileoption_get''),
    (''compileoption_used'', ''compileoption_used''),
    (''create_function_v2'', ''create_function_v2''),
    (''db_config'', ''db_config''),
    (''db_mutex'', ''db_mutex''),
    (''db_status'', ''db_status''),
    (''extended_errcode'', ''extended_errcode''),
    (''log'', ''log''),
    (''soft_heap_limit64'', ''soft_heap_limit64''),
    (''sourceid'', ''sourceid''),
    (''stmt_status'', ''stmt_status''),
    (''strnicmp'', ''strnicmp'')]"
  by (simp add: link_7_def proto_defs routine_defs)

lemma link_8_names:
  "map (\<lambda>l. (fst (fst l), fst (snd l))) link_8 =
   [(''unlock_notify'', ''unlock_notify''),
    (''wal_autocheckpoint'', ''wal_autocheckpoint''),
    (''wal_checkpoint'', ''wal_checkpoint''),
    (''wal_hook'', ''wal_hook''),
    (''blob_reopen'', ''blob_reopen''),
    (''vtab_config'', ''vtab_config''),
    (''vtab_on_conflict'', ''vtab_on_conflict''),
    (''close_v2'', ''close_v2''),
    (''db_filename'', ''db_filename''),
    (''db_readonly'', ''db_readonly''),
    (''db_release_memory'', ''db_release_memory''),
    (''errstr'', ''errstr''),
    (''stmt_busy'', ''stmt_busy''),
    (''stmt_readonly'', ''stmt_readonly''),
    (''stricmp'', ''stricmp''),
    (''uri_boolean'', ''uri_boolean''),
    (''uri_int64'', ''uri_int64''),
    (''uri_parameter'', ''uri_parameter''),
    (''wal_checkpoint_v2'', ''wal_checkpoint_v2''),
    (''auto_extension'', ''auto_extension''),
    (''bind_blob64'', ''bind_blob64''),
    (''bind_text64'', ''bind_text64''),
    (''cancel_auto_extension'', ''cancel_auto_extension''),
    (''load_extension'', ''load_extension''),
    (''malloc64'', ''malloc64'')]"
  by (simp add: link_8_def proto_defs routine_defs)

lemma link_9_names:
  "map (\<lambda>l. (fst (fst l), fst (snd l))) link_9 =
   [(''msize'', ''msize''),
    (''realloc64'', ''realloc64''),
    (''reset_auto_extension'', ''reset_auto_extension''),
    (''result_blob64'', ''result_blob64''),
    (''result_text64'', ''result_text64''),
    (''strglob'', ''strglob''),
    (''value_dup'', ''value_dup''),
    (''value_free'', ''value_free''),
    (''result_zeroblob64'', ''result_zeroblob64''),
    (''bind_zeroblob64'', ''bind_zeroblob64''),
    (''value_subtype'', ''value_subtype''),
    (''result_subtype'', ''result_subtype''),
    (''status64'', ''status64''),
    (''strlike'', ''strlike''),
    (''db_cacheflush'', ''db_cacheflush''),
    (''system_errno'', ''system_errno''),
    (''trace_v2'', ''trace_v2''),
    (''expanded_sql'', ''expanded_sql''),
    (''set_last_insert_rowid'', ''set_last_insert_rowid''),
    (''prepare_v3'', ''prepare_v3''),
    (''prepare16_v3'', ''prepare16_v3''),
    (''bind_pointer'', ''bind_pointer''),
    (''result_pointer'', ''result_pointer''),
    (''value_pointer'', ''value_pointer''),
    (''vtab_nochange'', ''vtab_nochange'')]"
  by (simp add: link_9_def proto_defs routine_defs)

lemma link_10_names:
  "map (\<lambda>l. (fst (fst l), fst (snd l))) link_10 =
   [(''value_nochange'', ''value_nochange''),
    (''vtab_collation'', ''vtab_collation''),
    (''keyword_count'', ''keyword_count''),
    (''keyword_name'', ''keyword_name''),
    (''keyword_check'', ''keyword_check''),
    (''str_new'', ''str_new''),
    (''str_finish'', ''str_finish''),
    (''str_appendf'', ''str_appendf''),
    (''str_vappendf'', ''str_vappendf''),
    (''str_append'', ''str_append''),
    (''str_appendall'', ''str_appendall''),
    (''str_appendchar'', ''str_appendchar''),
    (''str_reset'', ''str_reset''),
    (''str_errcode'', ''str_errcode''),
    (''str_length'', ''str_length''),
    (''str_value'', ''str_value''),
    (''create_window_function'', ''create_window_function''),
    (''normalized_sql'', ''normalized_sql''),
    (''stmt_isexplain'', ''stmt_isexplain''),
    (''value_frombind'', ''value_frombind''),
    (''drop_modules'', ''drop_modules''),
    (''hard_heap_limit64'', ''hard_heap_limit64''),
    (''uri_key'', ''uri_key''),
    (''filename_database'', ''filename_database''),
    (''filename_journal'', ''filename_journal'')]"
  by (simp add: link_10_def proto_defs routine_defs)

lemma link_11_names:
  "map (\<lambda>l. (fst (fst l), fst (snd l))) link_11 =
   [(''filename_wal'', ''filename_wal''),
    (''create_filename'', ''create_filename''),
    (''free_filename'', ''free_filename''),
    (''database_file_object'', ''database_file_object''),
    (''txn_state'', ''txn_state''),
    (''changes64'', ''changes64''),
    (''total_changes64'', ''total_changes64''),
    (''autovacuum_pages'', ''autovacuum_pages''),
    (''error_offset'', ''error_offset''),
    (''vtab_rhs_value'', ''vtab_rhs_value''),
    (''vtab_distinct'', ''vtab_distinct''),
    (''vtab_in'', ''vtab_in''),
    (''vtab_in_first'', ''vtab_in_first''),
    (''vtab_in_next'', ''vtab_in_next''),
    (''deserialize'', ''deserialize''),
    (''serialize'', ''serialize''),
    (''db_name'', ''db_name''),
    (''value_encoding'', ''value_encoding''),
    (''is_interrupted'', ''is_interrupted''),
    (''stmt_explain'', ''stmt_explain''),
    (''get_clientdata'', ''get_clientdata''),
    (''set_clientdata'', ''set_clientdata''),
    (''setlk_timeout'', ''setlk_timeout'')]"
  by (simp add: link_11_def proto_defs routine_defs)

lemma links_names:
  "map (\<lambda>l. (fst (fst l), fst (snd l))) links = prototyped_redirects"
  by (simp only: links_def map_append append.assoc link_1_names link_2_names link_3_names link_4_names link_5_names link_6_names link_7_names link_8_names link_9_names link_10_names link_11_names
      prototyped_redirects_def redirect_defs append.simps)

definition redirect_agrees :: "string \<times> string \<Rightarrow> bool" where
  "redirect_agrees r \<longleftrightarrow>
     (\<exists>p s. (fst r, p) \<in> set prototypes \<and> (snd r, CPtr s) \<in> set api_routines \<and>
        resolve p = resolve s)"

lemma link_agrees:
  assumes "link_ok l" "link_in l"
  shows "redirect_agrees (fst (fst l), fst (snd l))"
proof -
  obtain n p m q where l: "l = ((n, p), (m, q))" by (metis surj_pair)
  obtain s where "q = CPtr s" "resolve p = resolve s"
    using assms(1) by (cases q) (simp_all add: l link_ok_def)
  then show ?thesis using assms(2) by (auto simp: l link_in_def redirect_agrees_def)
qed


end
