(* ===== verification/C_Extension.thy ===== *)
theory C_Extension
  imports Vfs_Connections Sqlite_Ext
begin

text \<open>
  The loadable extension, \<open>src/litestream-vfs.c\<close>, one definition per C function, over the
  exported Go functions of \<open>Vfs_Connections\<close>.

  An SQL function leaves a value of \<open>sql_result\<close> in its context; \<open>RFault\<close> is a result taken
  from a string that is not live. The arguments of an SQL function are the texts
  \<open>sqlite3_value_text\<close> yields, \<open>None\<close> for NULL. Of the SQLite library,
  \<open>sqlite3_stricmp\<close> and the answer of \<open>sqlite3_file_control\<close> are parameters, and whether
  each \<open>sqlite3_create_function_v2\<close> succeeds; as \<open>sqlite3.h\<close> documents, a failing
  registration invokes the destructor it was given.
\<close>

section \<open>Model\<close>

datatype sql_result = NoResult | RError string | RNull | RText string | RInt64 int | RFault

definition result_error :: "c_ptr \<Rightarrow> 'f shim \<Rightarrow> sql_result" where
  "result_error p w = (case c_string p w of Some s \<Rightarrow> RError s | None \<Rightarrow> RFault)"

text \<open>\<open>sqlite3_result_text\<close> copies its argument (\<open>SQLITE_TRANSIENT\<close>); NULL gives NULL.\<close>

definition result_text :: "c_ptr \<Rightarrow> 'f shim \<Rightarrow> sql_result" where
  "result_text p w =
     (case p of None \<Rightarrow> RNull
      | Some _ \<Rightarrow> (case c_string p w of Some s \<Rightarrow> RText s | None \<Rightarrow> RFault))"

text \<open>The file behind \<open>main\<close>: whether its methods are those of the litestream VFS, and its id.\<close>

record vfs_file_ptr =
  is_s3vfs :: bool
  file_id :: u64

definition litestream_register_connection ::
  "(go_error \<Rightarrow> string) \<Rightarrow> int \<times> vfs_file_ptr option \<Rightarrow> dbptr \<Rightarrow> 'f shim \<Rightarrow> int \<times> 'f shim" where
  "litestream_register_connection errstr file_control db w =
     (case file_control of (rc, file) \<Rightarrow>
        if rc \<noteq> SQLITE_OK then (rc, w)
        else (case file of
          None \<Rightarrow> (rc, w)
        | Some f \<Rightarrow>
            if \<not> is_s3vfs f then (SQLITE_DONE, w)
            else (case GoLitestreamRegisterConnection errstr db (file_id f) w of
              (err, w1) \<Rightarrow> if err \<noteq> None then (SQLITE_ERROR, c_free err w1) else (SQLITE_OK, w1))))"

definition litestream_function_destroy :: "dbptr \<Rightarrow> 'f shim \<Rightarrow> 'f shim" where
  "litestream_function_destroy db w =
     (if db = 0 then w
      else case GoLitestreamUnregisterConnection db w of (err, w1) \<Rightarrow> c_free err w1)"

text \<open>\<open>sqlite3_create_function_v2\<close>: it registers the name, or fails and calls the destructor.\<close>

definition create_function ::
  "(string \<Rightarrow> bool) \<Rightarrow> dbptr \<Rightarrow> string \<Rightarrow> ('f shim \<Rightarrow> 'f shim) \<Rightarrow> 'f shim \<Rightarrow> 'f shim" where
  "create_function create_ok db name xDestroy w =
     (if create_ok name then w\<lparr>sqlfuns := (sqlfuns w)(db := insert name (sqlfuns w db))\<rparr>
      else xDestroy w)"

definition litestream_auto_extension ::
  "(go_error \<Rightarrow> string) \<Rightarrow> (string \<Rightarrow> bool) \<Rightarrow> int \<times> vfs_file_ptr option \<Rightarrow> dbptr \<Rightarrow>
     'f shim \<Rightarrow> 'f shim" where
  "litestream_auto_extension errstr create_ok file_control db w =
     (case litestream_register_connection errstr file_control db w of
        (rc, w1) \<Rightarrow>
          if rc \<noteq> SQLITE_OK then w1
          else create_function create_ok db ''litestream_lag'' id
              (create_function create_ok db ''litestream_txid'' id
                (create_function create_ok db ''litestream_time'' id
                  (create_function create_ok db ''litestream_set_time''
                    (litestream_function_destroy db) w1))))"

definition litestream_set_time_impl ::
  "'f file_ops \<Rightarrow> (string \<Rightarrow> go_error + go_time) \<Rightarrow> (go_error \<Rightarrow> string) \<Rightarrow>
     (string \<Rightarrow> string \<Rightarrow> int) \<Rightarrow> dbptr \<Rightarrow> string option list \<Rightarrow> 'f shim \<Rightarrow> sql_result \<times> 'f shim" where
  "litestream_set_time_impl ops parseTimeValue errstr stricmp db argv w =
     (if length argv \<noteq> 1 then (RError ''expected timestamp argument'', w)
      else (case hd argv of
        None \<Rightarrow> (RError ''timestamp required'', w)
      | Some ts \<Rightarrow>
          if stricmp ts ''LATEST'' = 0
          then (case GoLitestreamResetTime ops errstr db w of
                  (err, w1) \<Rightarrow>
                    if err \<noteq> None then (result_error err w1, c_free err w1) else (RNull, w1))
          else (case GoLitestreamSetTime ops parseTimeValue errstr db (Some ts) w of
                  (err, w1) \<Rightarrow>
                    if err \<noteq> None then (result_error err w1, c_free err w1) else (RNull, w1))))"

definition litestream_time_impl ::
  "'f file_ops \<Rightarrow> (go_error \<Rightarrow> string) \<Rightarrow> dbptr \<Rightarrow> 'f shim \<Rightarrow> sql_result \<times> 'f shim" where
  "litestream_time_impl ops errstr db w =
     (case GoLitestreamTime ops errstr db w of (err, out, w1) \<Rightarrow>
        if err \<noteq> None then (result_error err w1, c_free err w1)
        else (result_text out w1, c_free out w1))"

definition litestream_txid_impl ::
  "'f file_ops \<Rightarrow> (go_error \<Rightarrow> string) \<Rightarrow> dbptr \<Rightarrow> 'f shim \<Rightarrow> sql_result \<times> 'f shim" where
  "litestream_txid_impl ops errstr db w =
     (case GoLitestreamTxid ops errstr db w of (err, out, w1) \<Rightarrow>
        if err \<noteq> None then (result_error err w1, c_free err w1)
        else (result_text out w1, c_free out w1))"

text \<open>\<open>out\<close> is 0 until the call stores a value.\<close>

definition litestream_lag_impl ::
  "'f file_ops \<Rightarrow> go_time \<Rightarrow> (go_error \<Rightarrow> string) \<Rightarrow> dbptr \<Rightarrow> 'f shim \<Rightarrow> sql_result \<times> 'f shim" where
  "litestream_lag_impl ops now errstr db w =
     (case GoLitestreamLag ops now errstr db w of (err, out, w1) \<Rightarrow>
        if err \<noteq> None then (result_error err w1, c_free err w1)
        else (RInt64 (case out of Some v \<Rightarrow> v | None \<Rightarrow> 0), w1))"

text \<open>The entry point: the return code, and the message \<open>pzErrMsg\<close> receives, if any.\<close>

definition sqlite3_litestreamvfs_init ::
  "'c vfs_env \<Rightarrow> (go_error \<Rightarrow> string) \<Rightarrow> int \<Rightarrow> 'f shim \<Rightarrow> int \<times> string option \<times> 'f shim" where
  "sqlite3_litestreamvfs_init env errstr auto_extension_rc w =
     (case LitestreamVFSRegister env errstr w of (err, w1) \<Rightarrow>
        if err \<noteq> None then (SQLITE_ERROR, c_string err w1, c_free err w1)
        else (if auto_extension_rc = SQLITE_OK then SQLITE_OK_LOAD_PERMANENTLY else auto_extension_rc,
              None, w1))"

text \<open>The API functions the extension calls, without their prefix.\<close>

definition shim_calls :: "string list" where
  "shim_calls = [''mprintf'', ''auto_extension'', ''create_function_v2'', ''file_control'',
     ''result_error'', ''value_text'', ''stricmp'', ''context_db_handle'', ''result_null'',
     ''result_text'', ''result_int64'']"

section \<open>Memory\<close>

definition no_leak :: "'f shim \<Rightarrow> 'f shim \<Rightarrow> bool" where
  "no_leak w w' \<longleftrightarrow> heap_ok w' \<and> cheap w' = cheap w"

lemma no_leak_refl: "heap_ok w \<Longrightarrow> no_leak w w"
  by (simp add: no_leak_def)

lemma no_leak_free: "hands_over w p w1 \<Longrightarrow> no_leak w (c_free p w1)"
  by (simp add: no_leak_def c_free_handed_over)

lemma no_leak_None: "hands_over w None w1 \<Longrightarrow> no_leak w w1"
  by (simp add: no_leak_def hands_over_def)

lemma hands_over_text:
  assumes "hands_over w p w1" "p \<noteq> None"
  shows "\<exists>s. c_string p w1 = Some s"
  using assms by (auto simp: hands_over_def c_string_def split: option.splits)

lemma GoLitestreamTime_hands_over:
  assumes "heap_ok w" "GoLitestreamTime ops errstr db w = (err, out, w1)"
  shows "err \<noteq> None \<and> out = None \<and> hands_over w err w1 \<or> err = None \<and> out \<noteq> None \<and> hands_over w out w1"
  using assms(2) C_CString_hands_over [OF assms(1)]
  by (auto simp: GoLitestreamTime_def split: sum.splits prod.splits)

lemma GoLitestreamTxid_hands_over:
  assumes "heap_ok w" "GoLitestreamTxid ops errstr db w = (err, out, w1)"
  shows "err \<noteq> None \<and> out = None \<and> hands_over w err w1 \<or> err = None \<and> out \<noteq> None \<and> hands_over w out w1"
  using assms(2) C_CString_hands_over [OF assms(1)]
  by (auto simp: GoLitestreamTxid_def split: sum.splits prod.splits)

lemma GoLitestreamLag_hands_over:
  assumes "heap_ok w" "GoLitestreamLag ops now errstr db w = (err, out, w1)"
  shows "hands_over w err w1"
  using assms C_CString_hands_over [OF assms(1)]
  by (auto simp: GoLitestreamLag_def intro!: hands_over_None split: sum.splits prod.splits)

text \<open>The common tail of an SQL function: report and free the error, or succeed.\<close>

lemma error_or_result:
  assumes "hands_over w p w1" "r0 \<noteq> RFault"
    and "(if p \<noteq> None then (result_error p w1, c_free p w1) else (r0, w1)) = (r, w')"
  shows "no_leak w w' \<and> r \<noteq> RFault"
proof (cases "p = None")
  case True
  then show ?thesis using assms no_leak_None [of w w1] by auto
next
  case False
  then show ?thesis
    using assms hands_over_text [OF assms(1) False] no_leak_free [OF assms(1)]
    by (auto simp: result_error_def)
qed

lemma set_time_no_leak:
  assumes "heap_ok w" "litestream_set_time_impl ops parse errstr stricmp db argv w = (r, w')"
  shows "no_leak w w' \<and> r \<noteq> RFault"
proof (cases "length argv = 1 \<and> hd argv \<noteq> None")
  case False
  then have "w' = w \<and> r \<noteq> RFault"
    using assms(2) by (auto simp: litestream_set_time_impl_def split: if_splits)
  then show ?thesis using no_leak_refl [OF assms(1)] by simp
next
  case True
  then obtain ts where ts: "length argv = 1" "hd argv = Some ts" by auto
  obtain p w1 where g: "(if stricmp ts ''LATEST'' = 0 then GoLitestreamResetTime ops errstr db w
      else GoLitestreamSetTime ops parse errstr db (Some ts) w) = (p, w1)" by force
  then have "hands_over w p w1"
    using GoLitestreamSetTime_hands_over GoLitestreamResetTime_hands_over assms(1)
    by (auto split: if_splits)
  from error_or_result [OF this, of RNull] assms(2) ts g show ?thesis
    by (auto simp: litestream_set_time_impl_def split: if_splits)
qed

lemma time_no_leak:
  assumes "heap_ok w" "litestream_time_impl ops errstr db w = (r, w')"
  shows "no_leak w w' \<and> r \<noteq> RFault"
proof -
  obtain err out w1 where g: "GoLitestreamTime ops errstr db w = (err, out, w1)" by (metis prod_cases3)
  from GoLitestreamTime_hands_over [OF assms(1) g] assms(2) show ?thesis
    by (auto simp: litestream_time_impl_def g result_error_def result_text_def
        intro: no_leak_free dest: hands_over_text split: option.splits)
qed

lemma txid_no_leak:
  assumes "heap_ok w" "litestream_txid_impl ops errstr db w = (r, w')"
  shows "no_leak w w' \<and> r \<noteq> RFault"
proof -
  obtain err out w1 where g: "GoLitestreamTxid ops errstr db w = (err, out, w1)" by (metis prod_cases3)
  from GoLitestreamTxid_hands_over [OF assms(1) g] assms(2) show ?thesis
    by (auto simp: litestream_txid_impl_def g result_error_def result_text_def
        intro: no_leak_free dest: hands_over_text split: option.splits)
qed

lemma lag_no_leak:
  assumes "heap_ok w" "litestream_lag_impl ops now errstr db w = (r, w')"
  shows "no_leak w w' \<and> r \<noteq> RFault"
proof -
  obtain err out w1 where g: "GoLitestreamLag ops now errstr db w = (err, out, w1)" by (metis prod_cases3)
  note h = GoLitestreamLag_hands_over [OF assms(1) g]
  show ?thesis
  proof (cases err)
    case None
    then show ?thesis using assms(2) h by (auto simp: litestream_lag_impl_def g intro: no_leak_None)
  next
    case (Some a)
    then show ?thesis
      using assms(2) h hands_over_text [OF h] no_leak_free [OF h]
      by (auto simp: litestream_lag_impl_def g result_error_def)
  qed
qed

lemma register_connection_no_leak:
  assumes "heap_ok w" "litestream_register_connection errstr fc db w = (rc, w')"
  shows "no_leak w w'"
proof -
  obtain rc0 file1 where fc: "fc = (rc0, file1)" by force
  show ?thesis
  proof (cases "rc0 = SQLITE_OK \<and> (\<exists>f. file1 = Some f \<and> is_s3vfs f)")
    case False
    then show ?thesis
      using assms no_leak_refl by (auto simp: litestream_register_connection_def fc split: option.splits if_splits)
  next
    case True
    then obtain f where f: "file1 = Some f" "is_s3vfs f" "rc0 = SQLITE_OK" by blast
    obtain p w1 where g: "GoLitestreamRegisterConnection errstr db (file_id f) w = (p, w1)" by force
    note h = GoLitestreamRegisterConnection_hands_over [OF assms(1) g, THEN conjunct1]
    show ?thesis
      using assms(2) f g no_leak_free [OF h] no_leak_None [of w w1] h
      by (auto simp: litestream_register_connection_def fc split: if_splits)
  qed
qed

lemma destroy_no_leak:
  "heap_ok w \<Longrightarrow> no_leak w (litestream_function_destroy db w)"
  by (simp add: litestream_function_destroy_def GoLitestreamUnregisterConnection_def c_free_def
      UnregisterVFSConnection_def no_leak_def)

lemma no_leak_trans: "no_leak a b \<Longrightarrow> no_leak b c \<Longrightarrow> no_leak a c"
  by (simp add: no_leak_def)

lemma create_function_no_leak:
  assumes "no_leak w w1" "\<And>v. heap_ok v \<Longrightarrow> no_leak v (xDestroy v)"
  shows "no_leak w (create_function create_ok db name xDestroy w1)"
proof (cases "create_ok name")
  case True
  then show ?thesis using assms(1) by (auto simp: create_function_def no_leak_def heap_ok_def)
next
  case False
  then show ?thesis
    using assms no_leak_trans [OF assms(1)] by (simp add: create_function_def no_leak_def)
qed

lemma auto_extension_no_leak:
  assumes "heap_ok w"
  shows "no_leak w (litestream_auto_extension errstr create_ok fc db w)"
proof -
  obtain rc w1 where r: "litestream_register_connection errstr fc db w = (rc, w1)" by force
  note n = register_connection_no_leak [OF assms r]
  show ?thesis
    using n by (auto simp: litestream_auto_extension_def r id_def
        intro!: create_function_no_leak destroy_no_leak no_leak_refl)
qed

lemma init_no_leak:
  assumes "heap_ok w" "sqlite3_litestreamvfs_init env errstr rc w = (code, msg, w')"
  shows "no_leak w w' \<and> (code = SQLITE_ERROR \<longrightarrow> msg \<noteq> None \<or> rc = SQLITE_ERROR)"
proof -
  obtain p w1 where g: "LitestreamVFSRegister env errstr w = (p, w1)" by force
  note h = LitestreamVFSRegister_hands_over [OF assms(1) g, THEN conjunct1]
  show ?thesis
  proof (cases p)
    case None
    then show ?thesis
      using assms(2) h by (auto simp: sqlite3_litestreamvfs_init_def g SQLITE_OK_LOAD_PERMANENTLY_def
          SQLITE_ERROR_def intro: no_leak_None split: if_splits)
  next
    case (Some a)
    then show ?thesis
      using assms(2) no_leak_free [OF h] hands_over_text [OF h]
      by (auto simp: sqlite3_litestreamvfs_init_def g)
  qed
qed

text \<open>C30: Every entry point of the extension, on every branch, frees each string the exported Go
  functions hand it exactly once and no other: the heap of C strings is as before the call, no
  dead string is read or freed, and so no result is taken from one.\<close>

theorem extension_memory_safe:
  assumes "heap_ok w"
  shows "no_leak w (snd (litestream_set_time_impl ops parse errstr stricmp db argv w)) \<and>
    fst (litestream_set_time_impl ops parse errstr stricmp db argv w) \<noteq> RFault \<and>
    no_leak w (snd (litestream_time_impl ops errstr db w)) \<and>
    fst (litestream_time_impl ops errstr db w) \<noteq> RFault \<and>
    no_leak w (snd (litestream_txid_impl ops errstr db w)) \<and>
    fst (litestream_txid_impl ops errstr db w) \<noteq> RFault \<and>
    no_leak w (snd (litestream_lag_impl ops now errstr db w)) \<and>
    fst (litestream_lag_impl ops now errstr db w) \<noteq> RFault \<and>
    no_leak w (litestream_auto_extension errstr create_ok fc db w) \<and>
    no_leak w (litestream_function_destroy db w) \<and>
    no_leak w (snd (snd (sqlite3_litestreamvfs_init env errstr rc w)))"
  using set_time_no_leak [OF assms surjective_pairing] time_no_leak [OF assms surjective_pairing]
    txid_no_leak [OF assms surjective_pairing] lag_no_leak [OF assms surjective_pairing]
    auto_extension_no_leak [OF assms] destroy_no_leak [OF assms]
    init_no_leak [OF assms, THEN conjunct1]
  by (metis prod.collapse)

text \<open>A state with no strings and one open VFS file, whose time is its content.\<close>

definition ex_ops :: "go_time file_ops" where
  "ex_ops = \<lparr>SetTargetTime = (\<lambda>f t. (None, t)), ResetTime = (\<lambda>f. (None, 0)),
     currentTimeString = (\<lambda>f. ''latest''), TXIDString = (\<lambda>f. ''01''), LastPollSuccess = (\<lambda>f. 7)\<rparr>"

definition ex_shim :: "go_time shim" where
  "ex_shim = \<lparr>connMap = Map.empty, fileMap = [5 \<mapsto> 1], cheap = Map.empty, cheap_next = 0,
     heap_fault = False, sqlfuns = (\<lambda>_. {}), registeredVFS = None\<rparr>"

lemma ex_shim_ok: "heap_ok ex_shim"
  by (simp add: ex_shim_def heap_ok_def)

definition ex_env :: "unit vfs_env" where
  "ex_env = \<lparr>getenv = (\<lambda>_. ''file''), newReplicaClient = (\<lambda>_. Inr ()),
     clientInit = (\<lambda>_. Some ErrNotFound), openLogFile = (\<lambda>_. None), parseDuration = (\<lambda>_. Inr 1),
     registerVFS = (\<lambda>_. None)\<rparr>"

theorem extension_memory_safe_witness:
  "no_leak ex_shim (snd (litestream_set_time_impl ex_ops (\<lambda>_. Inr 3) (\<lambda>_. ''e'') (\<lambda>a b. 1) 9
      [Some ''x''] ex_shim)) \<and>
   no_leak ex_shim (snd (snd (sqlite3_litestreamvfs_init ex_env (\<lambda>_. ''e'') 0 ex_shim)))"
  using extension_memory_safe [OF ex_shim_ok, of ex_ops "\<lambda>_. Inr 3" "\<lambda>_. ''e''" "\<lambda>a b. 1" 9
      "[Some ''x'']" 0 "\<lambda>_. True" "(0, None)" ex_env 0]
  by blast

section \<open>Registration and results\<close>

lemma connMap_c_free [simp]:
  "connMap (c_free p w) = connMap w" "sqlfuns (c_free p w) = sqlfuns w" "fileMap (c_free p w) = fileMap w"
  by (simp_all add: c_free_def split: option.split)

lemma create_function_maps:
  "create_ok name \<Longrightarrow> connMap (create_function create_ok db name d w) = connMap w"
  "connMap (create_function create_ok db name id w) = connMap w"
  "create_ok name \<Longrightarrow> sqlfuns (create_function create_ok db name d w) db = insert name (sqlfuns w db)"
  "sqlfuns (create_function create_ok db name id w) db =
     sqlfuns w db \<union> (if create_ok name then {name} else {})"
  by (simp_all add: create_function_def)

lemma destroy_maps:
  "db \<noteq> 0 \<Longrightarrow> connMap (litestream_function_destroy db w) = (connMap w)(db := None)"
  "sqlfuns (litestream_function_destroy db w) = sqlfuns w"
  by (simp_all add: litestream_function_destroy_def GoLitestreamUnregisterConnection_def
      UnregisterVFSConnection_def c_free_def)

text \<open>The connection of a litestream file that the VFS knows is registered.\<close>

lemma register_connection_known:
  assumes "is_s3vfs f" "fileMap w (file_id f) \<noteq> None"
  shows "litestream_register_connection errstr (SQLITE_OK, Some f) db w =
    (SQLITE_OK, w\<lparr>connMap := (connMap w)(db \<mapsto> file_id f)\<rparr>)"
  using assms by (auto simp: litestream_register_connection_def GoLitestreamRegisterConnection_def
      RegisterVFSConnection_def lookupVFSFile_def c_error_def)




text \<open>When the file control succeeds but yields no file, the function reports success without
  registering anything, and the SQL functions are installed on a connection they cannot find.\<close>

lemma null_file_installs_functions:
  "litestream_register_connection errstr (SQLITE_OK, None) db w = (SQLITE_OK, w)"
  "create_ok ''litestream_time'' \<Longrightarrow>
     ''litestream_time'' \<in> sqlfuns (litestream_auto_extension errstr create_ok (SQLITE_OK, None) db w) db"
  by (simp_all add: litestream_register_connection_def litestream_auto_extension_def
      create_function_maps(4))



end
