(* ===== verification/Spec2Isabelle.thy ===== *)
theory Spec2Isabelle
  imports Wal_Reader Replica_Safety Sync_Snapshot Replica_Sync Follow_Consistency Restore_Replay Vfs_Write Vfs_Poll C_Extension
begin

text \<open>
  Litestream (Go, with a C shim for SQLite's extension interface) copies the changes of a SQLite database
  to a replica and restores it from there. A verification development for its core: every theory
  translates functions of the source, named in its opening text, and proves what makes them correct.
  Paths are below \<open>src/environment/project\<close>.

  The program. \<open>db.go\<close> watches the WAL of a database (\<open>wal_reader.go\<close>) and writes each batch of
  committed transactions as one LTX file of level 0 in a local directory. \<open>replica.go\<close> uploads
  these files through a \<open>ReplicaClient\<close> (\<open>replica_client.go\<close>), whose file-system implementation is
  \<open>file/replica_client.go\<close>. \<open>compactor.go\<close> merges runs of files into higher levels, takes snapshots
  and deletes what is no longer needed (\<open>compaction_level.go\<close>, \<open>store.go\<close>). Restoring plans a chain of
  files through the levels and rebuilds the database from it; follow mode keeps applying new files;
  backups of v0.3.x (\<open>v3.go\<close>) are restored by checkpoints of their WAL segments. \<open>vfs.go\<close> serves
  a database straight from the replica as a SQLite VFS, read-only or with buffered writes, and
  \<open>src/litestream-vfs.c\<close> with \<open>cmd/litestream-vfs/main.go\<close> is the loadable extension around it.

  The theories, in the order of their dependence.

  \<^item> Prelude: error values and \<open>errors.Is\<close>, the result type \<open>go_error + 'a\<close>, \<open>run\<close> (a result, a panic, or
    fuel that ran out), big-endian integers, byte slices and writes at an offset.
  \<^item> Wal_Reader, Ltx_Files, Restore_Plan, Resumable_Reader: \<open>WALReader\<close> with its page map, listings and
    level arithmetic, \<open>CalcRestorePlan\<close> with its cursors, and the reader that reopens a broken
    download. The page map of a well-formed WAL is the last committed version of each page; a plan
    is a contiguous chain ending at the requested transaction and is found when one exists; a
    resumed stream is a prefix of the original.
  \<^item> Compaction, File_Replica, Replica_Safety: the compactor and the retention drivers over an abstract
    client (locale \<open>replica\<close>), the file client and the interpretation of the locale on it, and what
    compaction and retention owe the restorer: no restorable transaction is lost.
  \<^item> Wal_Sync, Sync_Refine, Sync_Total, Sync_Snapshot, Sync_Machine: \<open>verify\<close>, \<open>sync\<close>, \<open>checkpoint\<close> of \<open>db.go\<close>.
    A sync adds a file that replays to the database the WAL makes of the previous one; it always
    comes back; the first one holds the whole database; and in every reachable state the local
    files are gap free and continue each other.
  \<^item> Replica_Sync: \<open>Replica.Sync\<close> and its monitor, over the locale \<open>replica_store\<close>, which extends
    \<open>replica\<close> by file contents.
  \<^item> Follow, Follow_Consistency: \<open>follow\<close>'s poll, the TXID side file and its crash behaviour.
  \<^item> V3_Format, V3_Client, V3_Restore, Restore: the v0.3.x names, listings (locale \<open>backups_v3\<close>) and
    replay; and \<open>Restore\<close> and \<open>RestoreV3\<close> as a whole, with their temporary file and rename.
  \<^item> Restore_Replay: the plan, the files and the history together. A restore leaves the database
    after the last transaction of its plan, and follow mode starts on such a database.
  \<^item> Vfs_File, Vfs_Machine, Vfs_Write, Vfs_Poll: a VFS file (reads, buffered writes, sync, polls, time
    travel), and any number of connections of a process as a step relation. There is one writer; a
    write is read back; a sync publishes exactly the buffered pages or refuses; polls under a
    shared lock do not disturb the reader. The limits are stated as well: the write lock advances the
    position without the pages, and a hydrated copy changes under the lock.
  \<^item> Vfs_Connections, C_Extension: the SQL functions of the VFS, the exported Go functions and the C
    shim, down to which strings are freed.
  \<^item> Sqlite_Types, Sqlite_Protos, Sqlite_Ext, Sqlite_Constants: the prototypes of \<open>src/sqlite3.h\<close>, the
    routine table of \<open>src/sqlite3ext.h\<close> with its macros, and the constants, checked against each other.

  How state corresponds. A Go struct is a record with the fields its methods use; a method is a function
  from the old state to a result and the new state. Maps are partial maps or association lists where
  they are iterated. Integers that can wrap are words. A call of the operating system or of the client
  that can fail is a parameter that says how it fails; code that is not in the repository (the \<open>ltx\<close>
  package, SQLite, LZ4, the LRU cache, storage SDKs) is a parameter with the documented laws as named
  hypotheses (\<open>pkg_ok\<close>, \<open>checkpoint_law\<close> and so on), each shown satisfiable by a witness.

  Loops and fuel. Loops are structural where the source ranges over a list. The WAL loops, the level
  cursors and the upload loop take fuel; the theorems say how much is enough: the number of frames
  plus one, the number of files, the distance of two transaction numbers.

  Concurrency. The state machines take one operation at a time: each holds the mutex of its object in the
  source. What releases it in between (a poll's download, a wait for a transaction to end) is split
  into several steps. Checks and uploads of different processes are not atomic in the source
  either; \<open>vfs_Sync_publishes\<close> speaks of a replica nobody else writes between the check and the upload.

  Not modelled. The storage clients other than the file client (\<open>s3\<close>, \<open>gs\<close>, \<open>abs\<close>, \<open>oss\<close>, \<open>sftp\<close>, \<open>webdav\<close>,
  \<open>nats\<close>): calls of vendor SDKs. The commands under \<open>cmd/litestream\<close> and \<open>cmd/litestream-test\<close>, the HTTP server
  \<open>server.go\<close>, \<open>heartbeat.go\<close>, logging, metrics: input and output. \<open>leaser.go\<close> and \<open>replica_url.go\<close>: an interface
  without an implementation, and URL parsing by the standard library. Of \<open>db.go\<close>: opening and closing, the
  read lock, SQL statements, the application of checkpoints (SQLite's work), metrics. Of
  \<open>store.go\<close>: the registry of databases and the timers, which run the modelled operations. Of \<open>vfs.go\<close>:
  temporary files, the initial hydration, the text of PRAGMAs, the background loops. The bulk of
  \<open>src/sqlite3.h\<close> is declarations of SQLite that nothing here uses, and comments.
\<close>

end
